(* ===== verification/Kolla_Prelude.thy ===== *)
theory Kolla_Prelude
  imports Main "HOL-Library.Sublist"
begin

text \<open>
  Shared vocabulary of the development: Python strings as character lists with the
  operations the sources use, ordered dictionaries as association lists, programs with a
  mutable state and exceptions, generic lemmas on stores updated by index, and the interface
  locale of dictionaries, interpreted on association lists.
\<close>

named_theorems store_simps \<open>reading a store after an update by index\<close>
named_theorems dict_simps \<open>reading an ordered dictionary after an update\<close>
named_theorems prog_simps \<open>running a composed program\<close>

section \<open>Strings\<close>

text \<open>\<open>s.startswith(p)\<close> and \<open>s.endswith(p)\<close>.\<close>

definition py_startswith :: "string \<Rightarrow> string \<Rightarrow> bool" where
  "py_startswith s p \<longleftrightarrow> take (length p) s = p"

definition py_endswith :: "string \<Rightarrow> string \<Rightarrow> bool" where
  "py_endswith s p \<longleftrightarrow> py_startswith (rev s) (rev p)"

text \<open>\<open>s.split(c)\<close> for a separator of one character: never the empty list.\<close>

fun py_split :: "char \<Rightarrow> string \<Rightarrow> string list" where
  "py_split c [] = [[]]"
| "py_split c (x # xs) =
     (if x = c then [] # py_split c xs
      else (case py_split c xs of [] \<Rightarrow> [[x]] | w # ws \<Rightarrow> (x # w) # ws))"

text \<open>Blanks as \<open>str.isspace\<close> and \<open>\s\<close> have them, among the characters up to 255; \<open>s.strip()\<close>.\<close>

definition is_space :: "char \<Rightarrow> bool" where
  "is_space c \<longleftrightarrow> (of_char c :: nat) \<in> {9, 10, 11, 12, 13, 28, 29, 30, 31, 32, 133, 160}"

definition py_strip :: "string \<Rightarrow> string" where
  "py_strip s = rev (dropWhile is_space (rev (dropWhile is_space s)))"

text \<open>
  The text that a file opened for reading gives: a newline for each of the three kinds of line end. The
  flag says that the character before was a carriage return.
\<close>

fun universal_newlines :: "bool \<Rightarrow> string \<Rightarrow> string" where
  "universal_newlines after_cr [] = []"
| "universal_newlines after_cr (c # cs) =
     (if c = CHR 0x0A \<and> after_cr then universal_newlines False cs
      else if c = CHR 0x0D then CHR 0x0A # universal_newlines True cs
      else c # universal_newlines False cs)"

text \<open>\<open>s.splitlines()\<close>: besides the line ends, some control characters end a line.\<close>

definition line_break :: "char \<Rightarrow> char" where
  "line_break c = (if (of_char c :: nat) \<in> {11, 12, 28, 29, 30, 133} then CHR 0x0A else c)"

definition unterminated :: "string list \<Rightarrow> string list" where
  "unterminated ls = (if last ls = [] then butlast ls else ls)"

definition splitlines :: "string \<Rightarrow> string list" where
  "splitlines s = unterminated (py_split (CHR 0x0A) (map line_break (universal_newlines False s)))"

text \<open>The lines of a text file, as iterating over it yields them (without their ends).\<close>

definition file_lines :: "string \<Rightarrow> string list" where
  "file_lines s = unterminated (py_split (CHR 0x0A) (universal_newlines False s))"

text \<open>\<open>sep.join(xs)\<close>.\<close>

fun py_join :: "'a list \<Rightarrow> 'a list list \<Rightarrow> 'a list" where
  "py_join sep [] = []"
| "py_join sep [x] = x"
| "py_join sep (x # y # ys) = x @ sep @ py_join sep (y # ys)"

text \<open>\<open>s.replace(a, b)\<close> for two single characters.\<close>

definition py_replace_char :: "char \<Rightarrow> char \<Rightarrow> string \<Rightarrow> string" where
  "py_replace_char a b s = map (\<lambda>c. if c = a then b else c) s"

lemma py_startswith_prefix: "py_startswith s p \<longleftrightarrow> prefix p s"
  unfolding py_startswith_def prefix_def
  by (metis append_eq_conv_conj)

lemma py_endswith_suffix: "py_endswith s p \<longleftrightarrow> suffix p s"
  by (simp add: py_endswith_def py_startswith_prefix suffix_to_prefix)

lemma py_startswith_append [simp]: "py_startswith (p @ s) p"
  by (simp add: py_startswith_def)

lemma py_endswith_append [simp]: "py_endswith (s @ p) p"
  by (simp add: py_endswith_def)

lemma py_split_not_Nil [simp]: "py_split c s \<noteq> []"
  by (induction s) (auto split: list.splits)

lemma py_split_nosep: "c \<notin> set s \<Longrightarrow> py_split c s = [s]"
  by (induction s) auto

lemma py_split_append:
  "c \<notin> set u \<Longrightarrow> py_split c (u @ c # v) = u # py_split c v"
  by (induction u) auto

lemma py_split_no_sep_inside: "w \<in> set (py_split c s) \<Longrightarrow> c \<notin> set w"
proof (induction s arbitrary: w)
  case (Cons x xs)
  then show ?case
    by (cases "py_split c xs") (auto split: if_splits)
qed simp

lemma py_split_length: "length (py_split c s) = Suc (count_list s c)"
  by (induction s) (auto split: list.splits)

lemma py_split_last: "last (py_split c (u @ c # v)) = last (py_split c v)"
proof (induction u)
  case (Cons x u)
  obtain w ws where ws: "py_split c (u @ c # v) = w # ws"
    by (cases "py_split c (u @ c # v)") auto
  have "ws \<noteq> []"
    using py_split_length [of c "u @ c # v"] unfolding ws by auto
  with Cons ws show ?case by simp
qed simp

lemma py_join_Cons: "xs \<noteq> [] \<Longrightarrow> py_join sep (x # xs) = x @ sep @ py_join sep xs"
  by (cases xs) auto

lemma py_join_split: "py_join [c] (py_split c s) = s"
proof (induction s)
  case (Cons x xs)
  show ?case
  proof (cases "x = c")
    case True
    with Cons show ?thesis by (simp add: py_join_Cons)
  next
    case False
    obtain w ws where "py_split c xs = w # ws"
      by (cases "py_split c xs") auto
    with Cons False show ?thesis by (cases ws) auto
  qed
qed simp

lemma py_split_join:
  "ws \<noteq> [] \<Longrightarrow> \<forall>w \<in> set ws. c \<notin> set w \<Longrightarrow> py_split c (py_join [c] ws) = ws"
proof (induction "[c]" ws rule: py_join.induct)
  case (2 x)
  then show ?case by (simp add: py_split_nosep)
next
  case (3 x y ys)
  then show ?case by (simp add: py_split_append)
qed simp

section \<open>Ordered dictionaries\<close>

text \<open>
  A Python dict keeps its keys in the order of their first insertion; a later assignment to
  a key changes the value in place.
\<close>

type_synonym ('k, 'v) dict = "('k \<times> 'v) list"

fun dict_set :: "'k \<Rightarrow> 'v \<Rightarrow> ('k, 'v) dict \<Rightarrow> ('k, 'v) dict" where
  "dict_set k v [] = [(k, v)]"
| "dict_set k v ((k', v') # d) =
     (if k' = k then (k, v) # d else (k', v') # dict_set k v d)"

abbreviation dict_get :: "('k, 'v) dict \<Rightarrow> 'k \<Rightarrow> 'v option" where
  "dict_get d k \<equiv> map_of d k"

abbreviation dict_keys :: "('k, 'v) dict \<Rightarrow> 'k list" where
  "dict_keys d \<equiv> map fst d"

abbreviation dict_values :: "('k, 'v) dict \<Rightarrow> 'v list" where
  "dict_values d \<equiv> map snd d"

text \<open>\<open>d.update(e)\<close>, and \<open>d | e\<close>.\<close>

definition dict_update :: "('k, 'v) dict \<Rightarrow> ('k, 'v) dict \<Rightarrow> ('k, 'v) dict" where
  "dict_update d e = fold (\<lambda>(k, v). dict_set k v) e d"

locale dictionary =
  fixes empty :: "'d"
    and insert_kv :: "'k \<Rightarrow> 'v \<Rightarrow> 'd \<Rightarrow> 'd"
    and lookup_k :: "'d \<Rightarrow> 'k \<Rightarrow> 'v option"
    and keys_of :: "'d \<Rightarrow> 'k list"
    and dict_ok :: "'d \<Rightarrow> bool"
  assumes lookup_empty: "lookup_k empty k = None"
    and lookup_insert: "lookup_k (insert_kv k v d) k' = (if k' = k then Some v else lookup_k d k')"
    and keys_dom: "k \<in> set (keys_of d) \<longleftrightarrow> lookup_k d k \<noteq> None"
    and ok_empty: "dict_ok empty"
    and ok_insert: "dict_ok d \<Longrightarrow> dict_ok (insert_kv k v d)"
    and ok_distinct: "dict_ok d \<Longrightarrow> distinct (keys_of d)"
begin

definition insert_all :: "('k \<times> 'v) list \<Rightarrow> 'd \<Rightarrow> 'd" where
  "insert_all ps d = fold (\<lambda>(k, v). insert_kv k v) ps d"

lemma insert_all_simps:
  "insert_all [] d = d"
  "insert_all ((k, v) # ps) d = insert_all ps (insert_kv k v d)"
  by (simp_all add: insert_all_def)

lemma lookup_insert_all:
  "lookup_k (insert_all ps d) k =
     (case map_of (rev ps) k of Some v \<Rightarrow> Some v | None \<Rightarrow> lookup_k d k)"
proof (induction ps arbitrary: d)
  case (Cons p ps)
  obtain k' v where p: "p = (k', v)" by (cases p)
  show ?case
    using Cons.IH [of "insert_kv k' v d"]
    by (auto simp: p insert_all_simps lookup_insert map_add_def split: option.splits)
qed (simp add: insert_all_simps)

lemma insert_all_ok: "dict_ok d \<Longrightarrow> dict_ok (insert_all ps d)"
  by (induction ps arbitrary: d) (auto simp: insert_all_simps ok_insert)

lemma insert_all_distinct_keys: "dict_ok d \<Longrightarrow> distinct (keys_of (insert_all ps d))"
  by (rule ok_distinct) (rule insert_all_ok)

lemma keys_insert_all:
  "set (keys_of (insert_all ps d)) = fst ` set ps \<union> set (keys_of d)"
proof (induction ps arbitrary: d)
  case (Cons p ps)
  obtain k v where p: "p = (k, v)" by (cases p)
  have "set (keys_of (insert_kv k v d)) = insert k (set (keys_of d))"
    by (auto simp: keys_dom lookup_insert split: if_splits)
  with Cons show ?case by (simp add: p insert_all_simps)
qed (simp add: insert_all_simps)

end

lemma dict_get_set [dict_simps, simp]:
  "dict_get (dict_set k v d) k' = (if k' = k then Some v else dict_get d k')"
  by (induction d) auto

lemma dict_keys_set_order:
  "dict_keys (dict_set k v d) = (if k \<in> set (dict_keys d) then dict_keys d else dict_keys d @ [k])"
  by (induction k v d rule: dict_set.induct) simp_all

lemma dict_keys_set [dict_simps]: "set (dict_keys (dict_set k v d)) = insert k (set (dict_keys d))"
  by (subst dict_keys_set_order) (simp add: insert_absorb)

lemma dict_set_fresh: "k \<notin> set (dict_keys d) \<Longrightarrow> dict_set k v d = d @ [(k, v)]"
  by (induction d) auto

lemma dict_set_twice [dict_simps, simp]: "dict_set k v (dict_set k w d) = dict_set k v d"
  by (induction d) auto

lemma dict_set_same: "dict_get d k = Some v \<Longrightarrow> dict_set k v d = d"
  by (induction d) (auto split: if_splits)

lemma dict_distinct_set: "distinct (dict_keys d) \<Longrightarrow> distinct (dict_keys (dict_set k v d))"
  by (simp add: dict_keys_set_order)

lemma dict_get_None: "dict_get d k = None \<longleftrightarrow> k \<notin> set (dict_keys d)"
  by (induction d) auto

lemma map_of_rev_distinct: "distinct (map fst d) \<Longrightarrow> map_of (rev d) = map_of d"
  by (rule map_of_inject_set [THEN iffD2]) (simp_all add: rev_map [symmetric])

interpretation alist_dict:
  dictionary "[] :: ('k \<times> 'v) list" dict_set map_of "map fst" "\<lambda>d. distinct (map fst d)"
proof unfold_locales
  fix d :: "('k \<times> 'v) list" and k
  show "(k \<in> set (map fst d)) = (map_of d k \<noteq> None)"
    using dict_get_None [of d k] by simp
qed (auto simp: dict_distinct_set)

lemma dict_update_insert_all: "dict_update d e = alist_dict.insert_all e d"
  by (simp add: dict_update_def alist_dict.insert_all_def)

lemma dict_get_update:
  "dict_get (dict_update d e) k = (case map_of (rev e) k of Some v \<Rightarrow> Some v | None \<Rightarrow> dict_get d k)"
  by (simp add: dict_update_insert_all alist_dict.lookup_insert_all)

section \<open>Stores updated by index\<close>

lemma nth_update_if [store_simps]:
  "i < length xs \<Longrightarrow> xs[j := x] ! i = (if i = j then x else xs ! i)"
  by (simp add: nth_list_update)

lemma list_update_same_field [store_simps]:
  "(\<And>i. i < length xs \<Longrightarrow> f (g (xs ! i)) = f (xs ! i)) \<Longrightarrow>
     map f (xs[j := g (xs ! j)]) = map f xs"
  by (cases "j < length xs") (auto intro!: nth_equalityI simp: nth_list_update)

section \<open>Exceptions\<close>

text \<open>
  The exceptions the modelled code can raise. The classes the sources declare themselves
  (\<open>kolla/exception.py\<close>, \<open>kolla/image/tasks.py\<close>, \<open>kolla/engine\_adapter/engine.py\<close>) come
  first, then the ones of Python and of the libraries.
\<close>

datatype py_exn =
    KollaDirNotFoundException | KollaRpmSetupUnknownConfig string | UnsupportedEngineError string
  | ArchivingError | PushError string
  | ValueError string | KeyError string | IndexError | TypeError string | AttributeError
  | UnboundLocalError string | OSError string | RequestsConnectionError | EngineException
  | LibraryException string | TemplateSyntaxError | RecursionError | SystemExit nat

section \<open>Programs with a state and exceptions\<close>

text \<open>
  A program run from a state returns a result or raises, and in both cases leaves a state
  behind: what was done before an exception stays done.
\<close>

type_synonym ('e, 's, 'a) prog = "'s \<Rightarrow> ('e + 'a) \<times> 's"

definition p_return :: "'a \<Rightarrow> ('e, 's, 'a) prog" where
  "p_return x s = (Inr x, s)"

definition p_raise :: "'e \<Rightarrow> ('e, 's, 'a) prog" where
  "p_raise e s = (Inl e, s)"

definition p_bind :: "('e, 's, 'a) prog \<Rightarrow> ('a \<Rightarrow> ('e, 's, 'b) prog) \<Rightarrow> ('e, 's, 'b) prog" where
  "p_bind m k s = (case m s of (Inl e, s') \<Rightarrow> (Inl e, s') | (Inr x, s') \<Rightarrow> k x s')"

definition p_then :: "('e, 's, 'a) prog \<Rightarrow> ('e, 's, 'b) prog \<Rightarrow> ('e, 's, 'b) prog" where
  "p_then m k = p_bind m (\<lambda>_. k)"

text \<open>\<open>try: m except e: h e\<close>: the handler runs from the state the exception left.\<close>

definition p_catch :: "('e, 's, 'a) prog \<Rightarrow> ('e \<Rightarrow> ('e, 's, 'a) prog) \<Rightarrow> ('e, 's, 'a) prog" where
  "p_catch m h s = (case m s of (Inl e, s') \<Rightarrow> h e s' | (Inr x, s') \<Rightarrow> (Inr x, s'))"

definition p_gets :: "('s \<Rightarrow> 'a) \<Rightarrow> ('e, 's, 'a) prog" where
  "p_gets f s = (Inr (f s), s)"

definition p_modify :: "('s \<Rightarrow> 's) \<Rightarrow> ('e, 's, unit) prog" where
  "p_modify f s = (Inr (), f s)"

text \<open>\<open>for x in xs: body(x)\<close>: the first exception ends the loop.\<close>

fun p_for :: "'x list \<Rightarrow> ('x \<Rightarrow> ('e, 's, unit) prog) \<Rightarrow> ('e, 's, unit) prog" where
  "p_for [] body = p_return ()"
| "p_for (x # xs) body = p_then (body x) (p_for xs body)"

lemma p_return_run [prog_simps]: "p_return x s = (Inr x, s)"
  by (simp add: p_return_def)

lemma p_raise_run [prog_simps]: "p_raise e s = (Inl e, s)"
  by (simp add: p_raise_def)

lemma p_bind_Inl [prog_simps]: "m s = (Inl e, s') \<Longrightarrow> p_bind m k s = (Inl e, s')"
  by (simp add: p_bind_def)

lemma p_bind_Inr [prog_simps]: "m s = (Inr x, s') \<Longrightarrow> p_bind m k s = k x s'"
  by (simp add: p_bind_def)

lemma p_then_Inl [prog_simps]: "m s = (Inl e, s') \<Longrightarrow> p_then m k s = (Inl e, s')"
  by (simp add: p_then_def prog_simps)

lemma p_then_Inr [prog_simps]: "m s = (Inr x, s') \<Longrightarrow> p_then m k s = k s'"
  by (simp add: p_then_def prog_simps)

lemma p_gets_run [prog_simps]: "p_gets f s = (Inr (f s), s)"
  by (simp add: p_gets_def)

lemma p_modify_run [prog_simps]: "p_modify f s = (Inr (), f s)"
  by (simp add: p_modify_def)

lemma p_catch_Inl [prog_simps]: "m s = (Inl e, s') \<Longrightarrow> p_catch m h s = h e s'"
  by (simp add: p_catch_def)

lemma p_catch_Inr [prog_simps]: "m s = (Inr x, s') \<Longrightarrow> p_catch m h s = (Inr x, s')"
  by (simp add: p_catch_def)

text \<open>A composed program that returns went through its parts.\<close>

lemma p_bind_returns:
  assumes "p_bind m k s = (Inr y, s')"
  obtains x t where "m s = (Inr x, t)" "k x t = (Inr y, s')"
  using assms by (auto simp: p_bind_def split: prod.splits sum.splits)

lemma p_then_returns:
  assumes "p_then m k s = (Inr y, s')"
  obtains x t where "m s = (Inr x, t)" "k t = (Inr y, s')"
  using assms unfolding p_then_def by (rule p_bind_returns)

lemma p_gets_returns: "p_gets f s = (Inr y, s') \<Longrightarrow> y = f s \<and> s' = s"
  by (auto simp: p_gets_def)

text \<open>
  A relation between the state before and the state after, whether the program returns or raises.
  For a preorder the composed programs inherit it from their parts: what a program may change
  (a frame), and, with \<open>R s s' = (I s \<longrightarrow> I s')\<close>, an invariant.
\<close>

definition p_within :: "('s \<Rightarrow> 's \<Rightarrow> bool) \<Rightarrow> ('e, 's, 'a) prog \<Rightarrow> bool" where
  "p_within R m \<longleftrightarrow> (\<forall>s. R s (snd (m s)))"

lemma p_withinD: "p_within R m \<Longrightarrow> R s (snd (m s))"
  by (simp add: p_within_def)

lemma p_within_run: "p_within R m \<Longrightarrow> m s = (r, s') \<Longrightarrow> R s s'"
  using p_withinD [of R m s] by simp

locale state_frame =
  fixes R :: "'s \<Rightarrow> 's \<Rightarrow> bool"
  assumes frame_refl: "R s s"
    and frame_trans: "R s t \<Longrightarrow> R t u \<Longrightarrow> R s u"
begin

lemma within_return: "p_within R (p_return x)"
  by (simp add: p_within_def p_return_def frame_refl)

lemma within_raise: "p_within R (p_raise e)"
  by (simp add: p_within_def p_raise_def frame_refl)

lemma within_gets: "p_within R (p_gets f)"
  by (simp add: p_within_def p_gets_def frame_refl)

lemma within_modify: "(\<And>s. R s (f s)) \<Longrightarrow> p_within R (p_modify f)"
  by (simp add: p_within_def p_modify_def)

lemma within_bind:
  assumes "p_within R m" and "\<And>x. p_within R (k x)"
  shows "p_within R (p_bind m k)"
  unfolding p_within_def
proof
  fix s
  obtain r s' where run: "m s = (r, s')" by (cases "m s")
  with assms(1) have "R s s'" by (rule p_within_run)
  then show "R s (snd (p_bind m k s))"
    using p_withinD [OF assms(2)] frame_trans by (cases r) (auto simp: p_bind_def run)
qed

lemma within_then: "p_within R m \<Longrightarrow> p_within R k \<Longrightarrow> p_within R (p_then m k)"
  unfolding p_then_def by (rule within_bind)

lemma within_catch:
  assumes "p_within R m" and "\<And>e. p_within R (h e)"
  shows "p_within R (p_catch m h)"
  unfolding p_within_def
proof
  fix s
  obtain r s' where run: "m s = (r, s')" by (cases "m s")
  with assms(1) have "R s s'" by (rule p_within_run)
  then show "R s (snd (p_catch m h s))"
    using p_withinD [OF assms(2)] frame_trans by (cases r) (auto simp: p_catch_def run)
qed

lemma within_for: "(\<And>x. x \<in> set xs \<Longrightarrow> p_within R (body x)) \<Longrightarrow> p_within R (p_for xs body)"
  by (induction xs) (auto intro: within_return within_then)

lemma within_if:
  "(c \<Longrightarrow> p_within R m) \<Longrightarrow> (\<not> c \<Longrightarrow> p_within R k) \<Longrightarrow> p_within R (if c then m else k)"
  by simp

lemma within_option:
  "p_within R m \<Longrightarrow> (\<And>x. p_within R (f x)) \<Longrightarrow> p_within R (case z of None \<Rightarrow> m | Some x \<Rightarrow> f x)"
  by (simp split: option.split)

lemma within_prod: "(\<And>x y. p_within R (f x y)) \<Longrightarrow> p_within R (case z of (x, y) \<Rightarrow> f x y)"
  by (simp split: prod.split)

lemmas within_intros =
  within_return within_raise within_gets within_bind within_then within_catch within_for

lemmas within_branches = within_if within_option within_prod

end

text \<open>
  A frame together with a condition on the exceptions: a program satisfies both if its parts do, and
  the handler of a \<open>try\<close> only sees exceptions that satisfy the condition.
\<close>

definition p_sat :: "('s \<Rightarrow> 's \<Rightarrow> bool) \<Rightarrow> ('e \<Rightarrow> bool) \<Rightarrow> ('e, 's, 'a) prog \<Rightarrow> bool" where
  "p_sat R E m \<longleftrightarrow> p_within R m \<and> (\<forall>s e. fst (m s) = Inl e \<longrightarrow> E e)"

lemma p_sat_within: "p_sat R E m \<Longrightarrow> p_within R m"
  by (simp add: p_sat_def)

lemma p_sat_raises: "p_sat R E m \<Longrightarrow> m s = (Inl e, s') \<Longrightarrow> E e"
  unfolding p_sat_def by (metis fst_conv)

locale program_frame = state_frame R for R :: "'s \<Rightarrow> 's \<Rightarrow> bool" +
  fixes E :: "'e \<Rightarrow> bool"
begin

lemma sat_return: "p_sat R E (p_return x)"
  using within_return by (simp add: p_sat_def) (simp add: p_return_def)

lemma sat_raise: "E e \<Longrightarrow> p_sat R E (p_raise e)"
  using within_raise by (simp add: p_sat_def) (simp add: p_raise_def)

lemma sat_gets: "p_sat R E (p_gets f)"
  using within_gets by (simp add: p_sat_def) (simp add: p_gets_def)

lemma sat_bind:
  assumes m: "p_sat R E m" and k: "\<And>x. p_sat R E (k x)"
  shows "p_sat R E (p_bind m k)"
  unfolding p_sat_def
proof (intro conjI allI impI)
  show "p_within R (p_bind m k)"
    using m k by (intro within_bind p_sat_within)
  show "E e" if raised: "fst (p_bind m k s) = Inl e" for s e
  proof (cases "m s")
    case (Pair r s')
    show ?thesis
    proof (cases r)
      case (Inl e')
      with raised Pair p_sat_raises [OF m] show ?thesis by (simp add: p_bind_def)
    next
      case (Inr x)
      with raised Pair k [of x] show ?thesis by (simp add: p_bind_def p_sat_def)
    qed
  qed
qed

lemma sat_then: "p_sat R E m \<Longrightarrow> p_sat R E k \<Longrightarrow> p_sat R E (p_then m k)"
  unfolding p_then_def by (rule sat_bind)

lemma sat_catch:
  assumes m: "p_sat R E m" and h: "\<And>e. E e \<Longrightarrow> p_sat R E' (h e)" and others: "\<And>e. p_within R (h e)"
  shows "p_sat R E' (p_catch m h)"
  unfolding p_sat_def
proof (intro conjI allI impI)
  show "p_within R (p_catch m h)"
    by (rule within_catch [OF p_sat_within [OF m] others])
  show "E' e" if raised: "fst (p_catch m h s) = Inl e" for s e
  proof (cases "m s")
    case (Pair r s')
    with raised obtain e' where r: "r = Inl e'" by (cases r) (auto simp: p_catch_def)
    with Pair have "E e'" using p_sat_raises [OF m] by blast
    from h [OF this] raised Pair r show ?thesis by (simp add: p_catch_def p_sat_def)
  qed
qed

lemma sat_for: "(\<And>x. x \<in> set xs \<Longrightarrow> p_sat R E (body x)) \<Longrightarrow> p_sat R E (p_for xs body)"
  by (induction xs) (auto intro: sat_return sat_then)

lemma sat_if: "(c \<Longrightarrow> p_sat R E m) \<Longrightarrow> (\<not> c \<Longrightarrow> p_sat R E k) \<Longrightarrow> p_sat R E (if c then m else k)"
  by simp

lemma sat_option:
  "p_sat R E m \<Longrightarrow> (\<And>x. p_sat R E (f x)) \<Longrightarrow> p_sat R E (case z of None \<Rightarrow> m | Some x \<Rightarrow> f x)"
  by (simp split: option.split)

lemma sat_prod: "(\<And>x y. p_sat R E (f x y)) \<Longrightarrow> p_sat R E (case z of (x, y) \<Rightarrow> f x y)"
  by (simp split: prod.split)

lemmas sat_intros = sat_return sat_gets sat_bind sat_then sat_for sat_if sat_option sat_prod

end

end
