(* ===== verification/Image_Model.thy ===== *)
theory Image_Model
  imports Kolla_Prelude
begin

text \<open>
  The data of the image builder: \<open>Status\<close> and \<open>STATUS_ERRORS\<close>
  (\<open>kolla/image/utils.py\<close>), the \<open>Image\<close> objects and the store they live in
  (\<open>kolla/image/kolla_worker.py\<close>), the options of the configuration that the builder reads,
  and \<open>find_parents\<close>, which turns the list of images into a forest.

  Images refer to one another (\<open>image.parent\<close>, \<open>image.children\<close>) and are shared between the
  worker, the tasks and the threads, so they live in a store: the list \<open>KollaWorker.images\<close>,
  with an image's position as its identity. An assignment to a field of an image is an update
  of the store at that position.
\<close>

section \<open>Status\<close>

datatype status =
    CONNECTION_ERROR | PUSH_ERROR | ERROR | PARENT_ERROR | BUILT | BUILDING
  | UNMATCHED | MATCHED | UNPROCESSED | SKIPPED | UNBUILDABLE

fun status_value :: "status \<Rightarrow> string" where
  "status_value CONNECTION_ERROR = ''connection_error''"
| "status_value PUSH_ERROR = ''push_error''"
| "status_value ERROR = ''error''"
| "status_value PARENT_ERROR = ''parent_error''"
| "status_value BUILT = ''built''"
| "status_value BUILDING = ''building''"
| "status_value UNMATCHED = ''unmatched''"
| "status_value MATCHED = ''matched''"
| "status_value UNPROCESSED = ''unprocessed''"
| "status_value SKIPPED = ''skipped''"
| "status_value UNBUILDABLE = ''unbuildable''"

definition STATUS_ERRORS :: "status list" where
  "STATUS_ERRORS = [CONNECTION_ERROR, PUSH_ERROR, ERROR, PARENT_ERROR]"

lemma STATUS_ERRORS_set [simp]:
  "s \<in> set STATUS_ERRORS \<longleftrightarrow>
     s = CONNECTION_ERROR \<or> s = PUSH_ERROR \<or> s = ERROR \<or> s = PARENT_ERROR"
  by (auto simp: STATUS_ERRORS_def)

section \<open>Images\<close>

text \<open>
  The dictionary \<open>process_source_installation\<close> returns: empty (\<open>None\<close>) when the section has
  no type, else the keys below; \<open>reference\<close> is only read for sources of type git. A location or a
  reference that is not configured is Python's \<open>None\<close>.
\<close>

record source_rec =
  src_type :: string
  src_source :: "string option"
  src_name :: string
  src_reference :: "string option"
  src_enabled :: bool
  src_sha256 :: "(string \<times> string) list"

type_synonym source_dict = "source_rec option"

record image =
  img_name :: string
  canonical_name :: string
  img_path :: string
  img_status :: status
  img_parent :: "nat option"
  img_source :: source_dict
  parent_name :: string
  img_children :: "nat list"
  img_plugins :: "source_dict list"
  img_additions :: "source_dict list"

type_synonym store = "image list"

text \<open>\<open>Image.__init__\<close> as \<open>build_image_list\<close> calls it.\<close>

definition new_image :: "string \<Rightarrow> string \<Rightarrow> string \<Rightarrow> string \<Rightarrow> image" where
  "new_image name canonical path pname =
     \<lparr>img_name = name, canonical_name = canonical, img_path = path, img_status = UNPROCESSED,
      img_parent = None, img_source = None, parent_name = pname, img_children = [],
      img_plugins = [], img_additions = []\<rparr>"

definition set_status :: "nat \<Rightarrow> status \<Rightarrow> store \<Rightarrow> store" where
  "set_status i s st = st[i := (st ! i)\<lparr>img_status := s\<rparr>]"

abbreviation status_at :: "store \<Rightarrow> nat \<Rightarrow> status" where
  "status_at st i \<equiv> img_status (st ! i)"

abbreviation parent_at :: "store \<Rightarrow> nat \<Rightarrow> nat option" where
  "parent_at st i \<equiv> img_parent (st ! i)"

abbreviation children_at :: "store \<Rightarrow> nat \<Rightarrow> nat list" where
  "children_at st i \<equiv> img_children (st ! i)"

abbreviation name_at :: "store \<Rightarrow> nat \<Rightarrow> string" where
  "name_at st i \<equiv> img_name (st ! i)"

text \<open>
  Two stores with the same images in the same places, but for their statuses: what every pass
  after \<open>find_parents\<close> keeps.
\<close>

definition same_shape :: "store \<Rightarrow> store \<Rightarrow> bool" where
  "same_shape st st' \<longleftrightarrow>
     map (img_status_update (\<lambda>_. UNPROCESSED)) st = map (img_status_update (\<lambda>_. UNPROCESSED)) st'"

lemma length_set_status [simp]: "length (set_status i s st) = length st"
  by (simp add: set_status_def)

lemma status_set_status [store_simps]:
  "j < length st \<Longrightarrow> status_at (set_status i s st) j = (if j = i then s else status_at st j)"
  by (simp add: set_status_def nth_list_update)

lemma nth_set_status:
  "set_status i s st ! j =
     (if i = j \<and> i < length st then (st ! j)\<lparr>img_status := s\<rparr> else st ! j)"
proof (cases "i < length st")
  case True
  then show ?thesis by (cases "i = j") (simp_all add: set_status_def)
next
  case False
  then have "set_status i s st = st" by (simp add: set_status_def list_update_beyond)
  with False show ?thesis by simp
qed

lemma fields_set_status [simp]:
  "img_name (set_status i s st ! j) = img_name (st ! j)"
  "canonical_name (set_status i s st ! j) = canonical_name (st ! j)"
  "img_path (set_status i s st ! j) = img_path (st ! j)"
  "img_parent (set_status i s st ! j) = img_parent (st ! j)"
  "img_source (set_status i s st ! j) = img_source (st ! j)"
  "parent_name (set_status i s st ! j) = parent_name (st ! j)"
  "img_children (set_status i s st ! j) = img_children (st ! j)"
  "img_plugins (set_status i s st ! j) = img_plugins (st ! j)"
  "img_additions (set_status i s st ! j) = img_additions (st ! j)"
  by (simp_all add: nth_set_status)

lemma same_shape_refl [simp, intro]: "same_shape st st"
  by (simp add: same_shape_def)

lemma same_shape_sym: "same_shape st st' \<Longrightarrow> same_shape st' st"
  by (simp add: same_shape_def)

lemma same_shape_trans: "same_shape a b \<Longrightarrow> same_shape b c \<Longrightarrow> same_shape a c"
  by (simp add: same_shape_def)

lemma same_shape_set_status [simp]: "same_shape st (set_status i s st)"
proof (cases "i < length st")
  case True
  let ?f = "img_status_update (\<lambda>_. UNPROCESSED)"
  have "map ?f (set_status i s st) = (map ?f st)[i := ?f (st ! i)]"
    by (simp add: set_status_def map_update)
  also have "\<dots> = map ?f st"
    using True by (metis list_update_id nth_map)
  finally show ?thesis by (simp add: same_shape_def)
next
  case False
  then show ?thesis by (simp add: set_status_def list_update_beyond)
qed

lemma same_shape_set_status_right: "same_shape st st' \<Longrightarrow> same_shape st (set_status i s st')"
  by (rule same_shape_trans [OF _ same_shape_set_status])

lemma same_shape_length: "same_shape st st' \<Longrightarrow> length st' = length st"
  unfolding same_shape_def by (metis length_map)

lemma same_shape_fields:
  assumes "same_shape st st'" and "i < length st"
  shows "img_name (st' ! i) = img_name (st ! i)"
    and "canonical_name (st' ! i) = canonical_name (st ! i)"
    and "img_parent (st' ! i) = img_parent (st ! i)"
    and "img_children (st' ! i) = img_children (st ! i)"
    and "img_source (st' ! i) = img_source (st ! i)"
    and "img_plugins (st' ! i) = img_plugins (st ! i)"
    and "img_additions (st' ! i) = img_additions (st ! i)"
    and "img_path (st' ! i) = img_path (st ! i)"
    and "parent_name (st' ! i) = parent_name (st ! i)"
proof -
  have "length st' = length st" using assms(1) by (rule same_shape_length)
  with assms have "(st' ! i)\<lparr>img_status := UNPROCESSED\<rparr> = (st ! i)\<lparr>img_status := UNPROCESSED\<rparr>"
    unfolding same_shape_def by (metis nth_map)
  then show "img_name (st' ! i) = img_name (st ! i)"
    and "canonical_name (st' ! i) = canonical_name (st ! i)"
    and "img_parent (st' ! i) = img_parent (st ! i)"
    and "img_children (st' ! i) = img_children (st ! i)"
    and "img_source (st' ! i) = img_source (st ! i)"
    and "img_plugins (st' ! i) = img_plugins (st ! i)"
    and "img_additions (st' ! i) = img_additions (st ! i)"
    and "img_path (st' ! i) = img_path (st ! i)"
    and "parent_name (st' ! i) = parent_name (st ! i)"
    by (cases "st' ! i"; cases "st ! i"; simp)+
qed

section \<open>Configuration\<close>

text \<open>
  The options of \<open>kolla/common/config.py\<close> that the image builder reads. The option library
  (\<open>oslo_config\<close>) parses them; the model takes the parsed values. \<open>conf_profiles p\<close> is
  \<open>conf.profiles[p]\<close> after the option was registered: the configured list, or the empty
  list for a profile nobody defined. An option that is not given is Python's \<open>None\<close>; for a list
  or a string the sources only test for truth, that is the empty list.
\<close>

datatype engine = DOCKER | PODMAN | OtherEngine string

record conf =
  conf_regex :: "string list"
  conf_profile :: "string list"
  conf_profiles :: "string \<Rightarrow> string list"
  conf_base :: string
  conf_base_arch :: string
  conf_debian_arch :: string
  conf_enable_unbuildable :: bool
  conf_skip_existing :: bool
  conf_skip_parents :: bool
  conf_push :: bool
  conf_retries :: nat
  conf_threads :: nat
  conf_push_threads :: nat
  conf_allowed_to_fail :: "string list"
  conf_engine :: engine
  conf_registry :: "string option"
  conf_keep :: bool
  conf_cache :: bool
  conf_pull :: bool
  conf_squash :: bool
  conf_squash_cleanup :: bool
  conf_squash_tmp_dir :: "string option"
  conf_network_mode :: string
  conf_platform :: "string option"
  conf_build_args :: "(string \<times> string) list"
  conf_logs_dir :: "string option"
  conf_format :: string
  conf_summary_json_file :: "string option"

section \<open>find_parents\<close>

text \<open>
  \<open>sort_images\<close> maps each canonical name to the last image that has it; then every pair of
  entries is compared, and a match links the two images.
\<close>

definition sort_images :: "store \<Rightarrow> (string, nat) dict" where
  "sort_images st = fold (\<lambda>i d. dict_set (canonical_name (st ! i)) i d) [0..<length st] []"

definition link_images :: "nat \<Rightarrow> nat \<Rightarrow> store \<Rightarrow> store" where
  "link_images p c st =
     (let st1 = st[p := (st ! p)\<lparr>img_children := img_children (st ! p) @ [c]\<rparr>]
      in st1[c := (st1 ! c)\<lparr>img_parent := Some p\<rparr>])"

definition adopt :: "string \<Rightarrow> nat \<Rightarrow> nat list \<Rightarrow> store \<Rightarrow> store" where
  "adopt pname p images st =
     fold (\<lambda>c st. if parent_name (st ! c) = pname then link_images p c st else st) images st"

definition find_parents :: "store \<Rightarrow> store" where
  "find_parents st =
     (let d = sort_images st
      in fold (\<lambda>(pname, p) st. adopt pname p (dict_values d) st) d st)"

end
