(* ===== verification/Py_Path.thy ===== *)
theory Py_Path
  imports Kolla_Prelude
begin

text \<open>
  \<open>os.path\<close> as the sources use it, on POSIX: paths are strings, and these functions never look
  at the file system.
\<close>

definition slash :: char where
  "slash = CHR ''/''"

definition path_join :: "string \<Rightarrow> string \<Rightarrow> string" where
  "path_join a b =
     (if py_startswith b ''/'' then b
      else if a = [] \<or> py_endswith a ''/'' then a @ b
      else a @ ''/'' @ b)"

definition path_basename :: "string \<Rightarrow> string" where
  "path_basename p = last (py_split slash p)"

text \<open>The head of \<open>os.path.split\<close>: what precedes the last slash, without trailing slashes unless it is all slashes.\<close>

definition path_dirname :: "string \<Rightarrow> string" where
  "path_dirname p =
     (let head = take (length p - length (path_basename p)) p
      in if set head \<subseteq> {slash} then head else rev (dropWhile (\<lambda>c. c = slash) (rev head)))"

text \<open>
  \<open>os.path.normpath\<close>: one pass over the components that drops empty ones and dots, and lets a
  double dot cancel the component before it.
\<close>

fun norm_step :: "bool \<Rightarrow> string list \<Rightarrow> string list \<Rightarrow> string list" where
  "norm_step absolute new [] = new"
| "norm_step absolute new (c # cs) =
     (if c = [] \<or> c = ''.'' then norm_step absolute new cs
      else if c \<noteq> ''..'' \<or> (\<not> absolute \<and> new = []) \<or> (new \<noteq> [] \<and> last new = ''..'')
      then norm_step absolute (new @ [c]) cs
      else if new \<noteq> [] then norm_step absolute (butlast new) cs
      else norm_step absolute new cs)"

definition initial_slashes :: "string \<Rightarrow> string" where
  "initial_slashes p =
     (if py_startswith p ''//'' \<and> \<not> py_startswith p ''///'' then ''//''
      else if py_startswith p ''/'' then ''/''
      else [])"

definition path_normpath :: "string \<Rightarrow> string" where
  "path_normpath p =
     (let r = initial_slashes p @
          py_join ''/'' (norm_step (initial_slashes p \<noteq> []) [] (py_split slash p))
      in if r = [] then ''.'' else r)"

definition path_abspath :: "string \<Rightarrow> string \<Rightarrow> string" where
  "path_abspath cwd p =
     path_normpath (if py_startswith p ''/'' then p else path_join cwd p)"

lemma path_basename_no_slash: "slash \<notin> set (path_basename p)"
  unfolding path_basename_def by (rule py_split_no_sep_inside [of _ slash p]) simp

lemma path_basename_append:
  "slash \<notin> set b \<Longrightarrow> path_basename (a @ ''/'' @ b) = b"
  using py_split_last [of slash a b] by (simp add: path_basename_def slash_def py_split_nosep)

text \<open>Components of an absolute normalised path never hold an empty name, a dot or a double dot.\<close>

definition plain_component :: "string \<Rightarrow> bool" where
  "plain_component c \<longleftrightarrow> c \<noteq> [] \<and> c \<noteq> ''.'' \<and> c \<noteq> ''..''"

lemma norm_step_plain:
  "\<forall>c \<in> set new. plain_component c \<Longrightarrow> \<forall>c \<in> set (norm_step True new cs). plain_component c"
proof (induction cs arbitrary: new)
  case (Cons c cs)
  have l: "last new \<noteq> ''..''" if "new \<noteq> []"
    using Cons.prems that last_in_set plain_component_def by blast
  have b: "\<forall>c \<in> set (butlast new). plain_component c"
    using Cons.prems by (meson in_set_butlastD)
  consider (skip) "c = [] \<or> c = ''.''" | (up) "c = ''..''" | (add) "plain_component c"
    by (auto simp: plain_component_def)
  then show ?case
  proof cases
    case skip
    with Cons show ?thesis by simp
  next
    case up
    have "norm_step True new (c # cs) = norm_step True (if new = [] then [] else butlast new) cs"
      using up l by simp
    moreover have "\<forall>c \<in> set (if new = [] then [] else butlast new). plain_component c"
      using b by simp
    ultimately show ?thesis using Cons.IH by metis
  next
    case add
    then have "norm_step True new (c # cs) = norm_step True (new @ [c]) cs"
      by (simp add: plain_component_def)
    moreover have "\<forall>c \<in> set (new @ [c]). plain_component c"
      using Cons.prems add by simp
    ultimately show ?thesis using Cons.IH by metis
  qed
qed simp

end
