(* ===== verification/Build_Task.thy ===== *)
theory Build_Task
  imports Image_Model Py_Path
begin

text \<open>
  The tasks of \<open>kolla/image/tasks.py\<close>: building an image (\<open>BuildTask\<close>, with
  \<open>process\_source\<close>, the plugins and additions archives, the call of the engine and the squash),
  pushing it (\<open>PushTask\<close>) and putting the push into its queue (\<open>PushIntoQueueTask\<close>).

  A run of a task reads and writes the statuses of the images and acts on the world outside:
  files, archives, git, the container engine. The state keeps the store of images and the
  sequence of those actions (\<open>effect\<close>); what the world answers during one run is the record
  \<open>env\<close>, an argument of the run. The libraries behind it (requests, GitPython, the engine's
  client) are only known by their answers.
\<close>

section \<open>The world\<close>

datatype http_reply = HttpTimeout | HttpRaises py_exn | HttpReply nat string

text \<open>
  Git: where the sequence clone, checkout, rev-parse, remote remove fails. A failed clone may
  leave its directory behind or not.
\<close>

datatype git_reply = GitCloneFails bool | GitCheckoutFails | GitRevParseFails | GitRemoteFails | GitDone

datatype mkdir_reply = MkdirDone | MkdirExists | MkdirFails

text \<open>
  What the engine yields while it builds: a message with text, a message with an error, or an
  exception out of the stream (\<open>True\<close>: one of the engine's own exceptions).
\<close>

datatype stream_msg = StreamText string | StreamError string | StreamRaises bool

datatype build_reply = BuildRaises bool | BuildStream "stream_msg list"

datatype push_msg = PushText string | PushErrorDetail string | PushOther

datatype push_reply = PushConnectionError | PushRaises | PushStream "push_msg list"

record layer =
  layer_tags :: "string list option"
  layer_id :: string

record build_args =
  ba_path :: string
  ba_tag :: string
  ba_nocache :: bool
  ba_rm :: bool
  ba_network_mode :: string
  ba_pull :: bool
  ba_forcerm :: bool
  ba_platform :: "string option"
  ba_buildargs :: "(string \<times> string) list option"
  ba_dockerfile :: "string option"
  ba_squash :: "bool option"
  ba_layers :: "bool option"

datatype effect =
    WriteFile string string
  | RmTree string
  | GitClone "string option" string
  | GitCheckout string string
  | GitRemoveOrigin string
  | TarDirectory string string string
  | CopyFile string string
  | SetTimeZero string
  | MakeDir string
  | ExtractTar string string
  | EngineBuild build_args
  | EnginePush string bool
  | DockerSquash "string list"

record env =
  env_http :: "string option \<Rightarrow> http_reply"
  env_sha256 :: "string \<Rightarrow> string"
  env_git :: "string option \<Rightarrow> string \<Rightarrow> git_reply"
  env_exists :: "string \<Rightarrow> bool"
  env_isdir :: "string \<Rightarrow> bool"
  env_writable :: "string \<Rightarrow> bool"
  env_copyfile :: "string \<Rightarrow> string \<Rightarrow> bool"
  env_mkdir :: "string \<Rightarrow> mkdir_reply"
  env_is_tarfile :: "string \<Rightarrow> bool"
  env_tar_names :: "string \<Rightarrow> string list option"
  env_extracts :: "string \<Rightarrow> string \<Rightarrow> bool"
  env_cwd :: string
  env_environ :: "(string \<times> string) list"
  env_build :: "build_args \<Rightarrow> build_reply"
  env_auth_known :: "string option \<Rightarrow> bool"
  env_push :: "string \<Rightarrow> push_reply"
  env_image_id :: "string \<Rightarrow> string option"
  env_history :: "string \<Rightarrow> layer list option"
  env_squash :: "string list \<Rightarrow> bool"

record tstate =
  ts_images :: store
  ts_effects :: "effect list"

type_synonym 'a task_prog = "(py_exn, tstate, 'a) prog"

definition write_status :: "nat \<Rightarrow> status \<Rightarrow> unit task_prog" where
  "write_status i s = p_modify (\<lambda>ts. ts\<lparr>ts_images := set_status i s (ts_images ts)\<rparr>)"

definition perform :: "effect \<Rightarrow> unit task_prog" where
  "perform e = p_modify (\<lambda>ts. ts\<lparr>ts_effects := ts_effects ts @ [e]\<rparr>)"

definition read_image :: "nat \<Rightarrow> image task_prog" where
  "read_image i = p_gets (\<lambda>ts. ts_images ts ! i)"

text \<open>Opening a file for writing or copying into it can fail with an \<open>OSError\<close>.\<close>

definition perform_if :: "bool \<Rightarrow> string \<Rightarrow> effect \<Rightarrow> unit task_prog" where
  "perform_if possible path e = (if possible then perform e else p_raise (OSError path))"

section \<open>process\_source\<close>

text \<open>Each kind of source returns whether \<open>process\_source\<close> goes on to its last lines.\<close>

definition fetch_url :: "conf \<Rightarrow> env \<Rightarrow> nat \<Rightarrow> source_rec \<Rightarrow> string \<Rightarrow> bool task_prog" where
  "fetch_url c env i s dest =
     (case env_http env (src_source s) of
        HttpTimeout \<Rightarrow> p_then (write_status i ERROR) (p_return False)
      | HttpRaises e \<Rightarrow> p_raise e
      | HttpReply code content \<Rightarrow>
          if code = 200
          then let store_it = p_then (perform_if (env_writable env dest) dest (WriteFile dest content))
                                (p_return True)
               in if src_sha256 s \<noteq> []
                  then (case map_of (src_sha256 s) (conf_debian_arch c) of
                          None \<Rightarrow> p_raise (KeyError (conf_debian_arch c))
                        | Some conf_sha \<Rightarrow>
                            if conf_sha \<noteq> env_sha256 env content
                            then p_then (write_status i ERROR) (p_return False)
                            else store_it)
                  else store_it
          else p_then (write_status i ERROR) (p_return False))"

text \<open>The exception handler of the git branch: the clone is removed, and only then the status set.\<close>

definition git_failed :: "nat \<Rightarrow> string \<Rightarrow> bool \<Rightarrow> bool task_prog" where
  "git_failed i clone_dir present =
     p_then (perform_if present clone_dir (RmTree clone_dir))
       (p_then (write_status i ERROR) (p_return False))"

definition fetch_git :: "env \<Rightarrow> nat \<Rightarrow> source_rec \<Rightarrow> string \<Rightarrow> bool task_prog" where
  "fetch_git env i s dest =
     (case src_reference s of
        None \<Rightarrow> p_raise AttributeError
      | Some ref \<Rightarrow>
          let clone_dir = dest @ ''-'' @ py_replace_char CHR ''/'' CHR ''-'' ref;
              clone = perform (GitClone (src_source s) clone_dir);
              checkout = perform (GitCheckout clone_dir ref)
          in p_then (if env_exists env clone_dir then perform (RmTree clone_dir) else p_return ())
               (case env_git env (src_source s) clone_dir of
                  GitCloneFails left \<Rightarrow> git_failed i clone_dir left
                | GitCheckoutFails \<Rightarrow> p_then clone (git_failed i clone_dir True)
                | GitRevParseFails \<Rightarrow> p_then clone (p_then checkout (git_failed i clone_dir True))
                | GitRemoteFails \<Rightarrow> p_then clone (p_then checkout (git_failed i clone_dir True))
                | GitDone \<Rightarrow>
                    p_then clone (p_then checkout (p_then (perform (GitRemoveOrigin clone_dir))
                      (p_then (perform_if (env_writable env dest) dest
                                (TarDirectory dest clone_dir (path_basename clone_dir)))
                        (p_return True))))))"

definition fetch_local :: "env \<Rightarrow> source_rec \<Rightarrow> string \<Rightarrow> bool task_prog" where
  "fetch_local env s dest =
     (case src_source s of
        None \<Rightarrow> p_raise (TypeError ''stat: path should be string'')
      | Some src \<Rightarrow>
          p_then
            (if env_isdir env src
             then perform_if (env_writable env dest) dest (TarDirectory dest src (path_basename src))
             else perform_if (env_copyfile env src dest) src (CopyFile src dest))
            (p_return True))"

definition process_source :: "conf \<Rightarrow> env \<Rightarrow> nat \<Rightarrow> source_dict \<Rightarrow> string option task_prog" where
  "process_source c env i source =
     (case source of
        None \<Rightarrow> p_raise (KeyError ''enabled'')
      | Some s \<Rightarrow>
          if \<not> src_enabled s then p_return None
          else p_bind (read_image i) (\<lambda>im.
            let dest = path_join (img_path im) (src_name s @ ''-archive'')
            in p_bind
                 (if src_type s = ''url'' then fetch_url c env i s dest
                  else if src_type s = ''git'' then fetch_git env i s dest
                  else if src_type s = ''local'' then fetch_local env s dest
                  else p_then (write_status i ERROR) (p_return False))
                 (\<lambda>go_on. if go_on then p_then (perform (SetTimeZero dest)) (p_return (Some dest))
                          else p_return None)))"

section \<open>update\_buildargs\<close>

definition proxy_vars :: "string list" where
  "proxy_vars = [''HTTP_PROXY'', ''http_proxy'', ''HTTPS_PROXY'', ''https_proxy'', ''FTP_PROXY'',
     ''ftp_proxy'', ''NO_PROXY'', ''no_proxy'']"

definition add_proxy :: "(string \<times> string) list \<Rightarrow> string \<Rightarrow> (string, string) dict \<Rightarrow> (string, string) dict" where
  "add_proxy environ var args =
     (case map_of environ var of
        Some value \<Rightarrow> if dict_get args var = None then dict_set var value args else args
      | None \<Rightarrow> args)"

definition update_buildargs :: "conf \<Rightarrow> env \<Rightarrow> (string \<times> string) list option" where
  "update_buildargs c env =
     (let args = fold (add_proxy (env_environ env)) proxy_vars (conf_build_args c)
      in if args = [] then None else Some args)"

section \<open>make\_an\_archive\<close>

text \<open>\<open>\_test\_malicious\_tarball\<close>: the check, then the walk over the names of the archive.\<close>

definition unsafe_name :: "string \<Rightarrow> string \<Rightarrow> string \<Rightarrow> bool" where
  "unsafe_name cwd path n \<longleftrightarrow> \<not> py_startswith (path_abspath cwd (path_join path n)) path"

definition test_malicious_tarball :: "env \<Rightarrow> string \<Rightarrow> string \<Rightarrow> unit task_prog" where
  "test_malicious_tarball env archive path =
     (case env_tar_names env archive of
        None \<Rightarrow> p_raise (LibraryException ''tarfile.ReadError'')
      | Some names \<Rightarrow>
          if \<exists>n \<in> set names. unsafe_name (env_cwd env) path n then p_raise ArchivingError
          else p_return ())"

fun collect_archives :: "conf \<Rightarrow> env \<Rightarrow> nat \<Rightarrow> source_dict list \<Rightarrow> string list \<Rightarrow> string list task_prog" where
  "collect_archives c env i [] archives = p_return archives"
| "collect_archives c env i (item # items) archives =
     p_bind (process_source c env i item) (\<lambda>archive.
       p_bind (read_image i) (\<lambda>im.
         if img_status im \<in> set STATUS_ERRORS then p_raise ArchivingError
         else collect_archives c env i items
                (case archive of Some a \<Rightarrow> if a \<noteq> [] then archives @ [a] else archives | None \<Rightarrow> archives)))"

text \<open>
  \<open>extractall\<close> writes into the directory, and may give up on the way (a full disk, a damaged member,
  a file that is in the way): then it raises.
\<close>

definition extract_archive :: "env \<Rightarrow> string \<Rightarrow> string \<Rightarrow> unit task_prog" where
  "extract_archive env items_path archive =
     (if env_is_tarfile env archive
      then p_then (test_malicious_tarball env archive items_path)
             (p_then (perform (ExtractTar archive items_path))
                (if env_extracts env archive items_path then p_return ()
                 else p_raise (LibraryException ''tarfile.extractall'')))
      else p_raise ArchivingError)"

definition make_an_archive :: "conf \<Rightarrow> env \<Rightarrow> nat \<Rightarrow> source_dict list \<Rightarrow> string \<Rightarrow> unit task_prog" where
  "make_an_archive c env i items arcname =
     p_bind (read_image i) (\<lambda>im.
       let items_path = path_join (img_path im) arcname;
           arc_path = path_join (img_path im) (arcname @ ''-archive'')
       in p_bind (collect_archives c env i items []) (\<lambda>archives.
            p_then
              (if archives \<noteq> [] then p_for archives (extract_archive env items_path)
               else (case env_mkdir env items_path of
                       MkdirDone \<Rightarrow> perform (MakeDir items_path)
                     | MkdirExists \<Rightarrow> p_return ()
                     | MkdirFails \<Rightarrow> p_then (write_status i CONNECTION_ERROR) (p_raise ArchivingError)))
              (perform_if (env_writable env arc_path) arc_path
                (TarDirectory arc_path items_path arcname))))"

section \<open>squash\<close>

text \<open>The command line of \<open>utils.squash\<close> (\<open>kolla/common/utils.py\<close>).\<close>

definition squash_command :: "string \<Rightarrow> string \<Rightarrow> string \<Rightarrow> bool \<Rightarrow> string option \<Rightarrow> string list" where
  "squash_command old_img new_img from_layer cleanup tmp_dir =
     [''docker-squash'', ''--tag'', new_img, old_img] @
     (if cleanup then [''--cleanup''] else []) @
     (if from_layer \<noteq> [] then [''--from-layer'', from_layer] else []) @
     (case tmp_dir of Some d \<Rightarrow> if d \<noteq> [] then [''--tmp-dir'', d] else [] | None \<Rightarrow> [])"

fun parent_last_layer :: "string \<Rightarrow> layer list \<Rightarrow> string" where
  "parent_last_layer pname [] = []"
| "parent_last_layer pname (l # ls) =
     (case layer_tags l of
        Some tags \<Rightarrow> if pname \<in> set tags then layer_id l else parent_last_layer pname ls
      | None \<Rightarrow> parent_last_layer pname ls)"

definition squash :: "conf \<Rightarrow> env \<Rightarrow> nat \<Rightarrow> unit task_prog" where
  "squash c env i =
     p_bind (read_image i) (\<lambda>im.
       case env_image_id env (canonical_name im) of
         None \<Rightarrow> p_raise EngineException
       | Some image_id \<Rightarrow>
           (case env_history env (parent_name im) of
              None \<Rightarrow> p_raise EngineException
            | Some history \<Rightarrow>
                let layer = parent_last_layer (parent_name im) history
                in if layer = [] then write_status i ERROR
                   else let cmds = squash_command image_id (canonical_name im) layer
                                     (conf_squash_cleanup c) (conf_squash_tmp_dir c)
                        in if env_squash env cmds then perform (DockerSquash cmds)
                           else p_raise (LibraryException ''CalledProcessError'')))"

section \<open>builder\<close>

definition engine_build_args :: "conf \<Rightarrow> env \<Rightarrow> image \<Rightarrow> build_args" where
  "engine_build_args c env im =
     \<lparr>ba_path = img_path im, ba_tag = canonical_name im, ba_nocache = (\<not> conf_cache c),
      ba_rm = True, ba_network_mode = conf_network_mode c,
      ba_pull = (if img_parent im = None then conf_pull c else False),
      ba_forcerm = (\<not> conf_keep c), ba_platform = conf_platform c,
      ba_buildargs = update_buildargs c env,
      ba_dockerfile = (if conf_engine c = PODMAN then Some (img_path im @ ''/Dockerfile'') else None),
      ba_squash = (if conf_engine c = PODMAN \<and> conf_squash c then Some False else None),
      ba_layers = (if conf_engine c = PODMAN then Some (\<not> conf_squash c) else None)\<rparr>"

text \<open>
  How the loop over the engine's messages ends: it ran through, it returned at an error message
  (after setting the status), or something was raised.
\<close>

datatype stream_end = StreamDone | StreamReturned | StreamRaised

fun read_stream :: "stream_msg list \<Rightarrow> stream_end" where
  "read_stream [] = StreamDone"
| "read_stream (StreamText t # ms) = read_stream ms"
| "read_stream (StreamError e # ms) = StreamReturned"
| "read_stream (StreamRaises engine_error # ms) = StreamRaised"

text \<open>
  The two \<open>except\<close> clauses set the status to ERROR; with an engine the configuration does not
  know, looking up the engine's exceptions raises instead.
\<close>

definition build_failed :: "conf \<Rightarrow> nat \<Rightarrow> unit task_prog" where
  "build_failed c i =
     (case conf_engine c of
        OtherEngine e \<Rightarrow> p_raise (UnsupportedEngineError e)
      | _ \<Rightarrow> write_status i ERROR)"

definition engine_build :: "conf \<Rightarrow> env \<Rightarrow> nat \<Rightarrow> unit task_prog" where
  "engine_build c env i =
     p_bind (read_image i) (\<lambda>im.
       let args = engine_build_args c env im
       in case conf_engine c of
            OtherEngine e \<Rightarrow> p_raise (UnsupportedEngineError e)
          | _ \<Rightarrow>
            p_then (perform (EngineBuild args))
              (case env_build env args of
                 BuildRaises engine_error \<Rightarrow> build_failed c i
               | BuildStream msgs \<Rightarrow>
                   (case read_stream msgs of
                      StreamReturned \<Rightarrow> write_status i ERROR
                    | StreamRaised \<Rightarrow> build_failed c i
                    | StreamDone \<Rightarrow>
                        p_bind (read_image i) (\<lambda>im'.
                          p_bind
                            (p_catch
                              (p_then
                                (if img_status im' \<noteq> ERROR \<and> conf_squash c \<and> conf_engine c = DOCKER
                                 then squash c env i else p_return ())
                                (p_return True))
                              (\<lambda>e. p_then (build_failed c i) (p_return False)))
                            (\<lambda>no_exception.
                               if no_exception then write_status i BUILT else p_return ())))))"

text \<open>\<open>try: make\_an\_archive(...) except ArchivingError: return\<close>; the result says whether to go on.\<close>

definition try_archive :: "conf \<Rightarrow> env \<Rightarrow> nat \<Rightarrow> source_dict list \<Rightarrow> string \<Rightarrow> bool task_prog" where
  "try_archive c env i items arcname =
     p_catch (p_then (make_an_archive c env i items arcname) (p_return True))
       (\<lambda>e. if e = ArchivingError then p_return False else p_raise e)"

definition build_archives :: "conf \<Rightarrow> env \<Rightarrow> nat \<Rightarrow> unit task_prog" where
  "build_archives c env i =
     p_bind (read_image i) (\<lambda>im.
       p_bind (try_archive c env i (img_plugins im) ''plugins'') (\<lambda>plugins_done.
         if \<not> plugins_done then p_return ()
         else p_bind (try_archive c env i (img_additions im) ''additions'') (\<lambda>additions_done.
           if \<not> additions_done then p_return () else engine_build c env i)))"

definition parent_failed :: "store \<Rightarrow> nat \<Rightarrow> bool" where
  "parent_failed st i \<longleftrightarrow>
     (case parent_at st i of None \<Rightarrow> False | Some p \<Rightarrow> status_at st p \<in> set STATUS_ERRORS)"

definition builder :: "conf \<Rightarrow> env \<Rightarrow> nat \<Rightarrow> unit task_prog" where
  "builder c env i =
     p_bind (p_gets ts_images) (\<lambda>st.
       if status_at st i \<in> {SKIPPED, UNBUILDABLE} then p_return ()
       else if status_at st i = UNMATCHED then p_return ()
       else if parent_failed st i
       then write_status i PARENT_ERROR
       else p_then (write_status i BUILDING)
         (case img_source (st ! i) of
            None \<Rightarrow> build_archives c env i
          | Some s \<Rightarrow>
              p_then (process_source c env i (Some s))
                (p_bind (read_image i) (\<lambda>im.
                   if img_status im \<in> set STATUS_ERRORS then p_return ()
                   else build_archives c env i))))"

section \<open>push\_image\<close>

fun read_push :: "push_msg list \<Rightarrow> string option" where
  "read_push [] = None"
| "read_push (PushText t # ms) = read_push ms"
| "read_push (PushErrorDetail e # ms) = Some e"
| "read_push (PushOther # ms) = read_push ms"

definition push_image :: "conf \<Rightarrow> env \<Rightarrow> nat \<Rightarrow> unit task_prog" where
  "push_image c env i =
     p_bind (read_image i) (\<lambda>im.
       case conf_engine c of
         OtherEngine e \<Rightarrow> p_raise (UnsupportedEngineError e)
       | _ \<Rightarrow>
         p_then (perform (EnginePush (canonical_name im)
                   (conf_engine c = DOCKER \<and> \<not> env_auth_known env (conf_registry c))))
           (case env_push env (canonical_name im) of
              PushConnectionError \<Rightarrow> p_raise RequestsConnectionError
            | PushRaises \<Rightarrow> p_raise EngineException
            | PushStream msgs \<Rightarrow>
                (case read_push msgs of
                   Some e \<Rightarrow> p_raise (PushError e)
                 | None \<Rightarrow> write_status i BUILT)))"

text \<open>\<open>PushTask.run\<close>, with the success it computes in its \<open>finally\<close> clause.\<close>

definition push_run :: "conf \<Rightarrow> env \<Rightarrow> nat \<Rightarrow> bool task_prog" where
  "push_run c env i =
     p_then
       (p_catch (push_image c env i)
          (\<lambda>e. if e = RequestsConnectionError then write_status i CONNECTION_ERROR
               else write_status i PUSH_ERROR))
       (p_bind (read_image i) (\<lambda>im.
          p_return (img_status im \<notin> set STATUS_ERRORS \<and> img_status im \<noteq> UNPROCESSED)))"

section \<open>Tasks\<close>

text \<open>
  A task is one of the three classes, for an image, with the field \<open>success\<close> that \<open>Task\<close>
  (\<open>kolla/common/task.py\<close>) gives all of them. The push task inside a \<open>PushIntoQueueTask\<close> is new.
\<close>

datatype task =
    BuildTask (t_image: nat) (t_success: bool)
  | PushTask (t_image: nat) (t_success: bool)
  | PushIntoQueueTask (t_image: nat) (t_success: bool)

fun set_success :: "bool \<Rightarrow> task \<Rightarrow> task" where
  "set_success b (BuildTask i _) = BuildTask i b"
| "set_success b (PushTask i _) = PushTask i b"
| "set_success b (PushIntoQueueTask i _) = PushIntoQueueTask i b"

definition task_reset :: "task \<Rightarrow> task" where
  "task_reset t = set_success False t"

text \<open>
  \<open>run\<close>: the result of the call (an exception or not), the state, the task with its success, and
  what was put into the push queue.
\<close>

fun task_run :: "conf \<Rightarrow> env \<Rightarrow> task \<Rightarrow> tstate \<Rightarrow> (py_exn + unit) \<times> tstate \<times> task \<times> task list" where
  "task_run c env (BuildTask i s) ts =
     (case builder c env i ts of
        (Inl e, ts') \<Rightarrow> (Inl e, ts', BuildTask i s, [])
      | (Inr _, ts') \<Rightarrow>
          (Inr (), ts',
           BuildTask i (if status_at (ts_images ts') i \<in> {BUILT, SKIPPED} then True else s), []))"
| "task_run c env (PushTask i s) ts =
     (case push_run c env i ts of
        (Inl e, ts') \<Rightarrow> (Inl e, ts', PushTask i s, [])
      | (Inr ok, ts') \<Rightarrow> (Inr (), ts', PushTask i ok, []))"
| "task_run c env (PushIntoQueueTask i s) ts =
     (Inr (), ts, PushIntoQueueTask i True, [PushTask i False])"

definition child_queued :: "store \<Rightarrow> nat \<Rightarrow> bool" where
  "child_queued st i \<longleftrightarrow> status_at st i \<notin> {UNMATCHED, SKIPPED, UNBUILDABLE}"

fun task_followups :: "conf \<Rightarrow> store \<Rightarrow> task \<Rightarrow> task list" where
  "task_followups c st (BuildTask i s) =
     (if conf_push c \<and> s then [PushIntoQueueTask i False] else []) @
     (if children_at st i \<noteq> [] \<and> s
      then map (\<lambda>ch. BuildTask ch False) (filter (child_queued st) (children_at st i))
      else [])"
| "task_followups c st (PushTask i s) = []"
| "task_followups c st (PushIntoQueueTask i s) = []"

end
