(* ===== verification/Image_Forest.thy ===== *)
theory Image_Forest
  imports Image_Model
begin

text \<open>
  What \<open>find_parents\<close> establishes: the parent of every image is the image registered under the
  canonical name its Dockerfile starts from, and parent and children agree (\<open>forest_links\<close>).
  Then the vocabulary of ancestors that the filters use, and the depth functions that say that no
  image is its own ancestor (\<open>ranked\<close>).
\<close>

section \<open>The dictionary of canonical names\<close>

lemma sort_images_insert_all:
  "sort_images st = alist_dict.insert_all (map (\<lambda>i. (canonical_name (st ! i), i)) [0..<length st]) []"
  by (simp add: sort_images_def alist_dict.insert_all_def fold_map comp_def)

lemma sort_images_distinct: "distinct (dict_keys (sort_images st))"
  by (simp add: sort_images_insert_all alist_dict.insert_all_distinct_keys)

lemma sort_images_get:
  assumes "dict_get (sort_images st) k = Some i"
  shows "i < length st" and "canonical_name (st ! i) = k"
proof -
  have "map_of (rev (map (\<lambda>i. (canonical_name (st ! i), i)) [0..<length st])) k = Some i"
    using assms by (simp add: sort_images_insert_all alist_dict.lookup_insert_all split: option.splits)
  then have "(k, i) \<in> set (map (\<lambda>i. (canonical_name (st ! i), i)) [0..<length st])"
    by (metis map_of_SomeD set_rev)
  then show "i < length st" and "canonical_name (st ! i) = k" by auto
qed

lemma sort_images_keys: "set (dict_keys (sort_images st)) = canonical_name ` set st"
proof -
  have "set (dict_keys (sort_images st)) = (\<lambda>i. canonical_name (st ! i)) ` {0..<length st}"
    unfolding sort_images_insert_all alist_dict.keys_insert_all by (simp add: image_image)
  also have "\<dots> = canonical_name ` set st"
    by (metis image_image list.set_map map_nth set_upt)
  finally show ?thesis .
qed

lemma sort_images_entry:
  assumes "(k, i) \<in> set (sort_images st)"
  shows "i < length st" and "canonical_name (st ! i) = k" and "dict_get (sort_images st) k = Some i"
proof -
  show *: "dict_get (sort_images st) k = Some i"
    using assms sort_images_distinct by (simp add: map_of_is_SomeI)
  show "i < length st" and "canonical_name (st ! i) = k"
    using * by (rule sort_images_get)+
qed

lemma sort_images_values_lt: "i \<in> set (dict_values (sort_images st)) \<Longrightarrow> i < length st"
  using sort_images_entry(1) by fastforce

lemma sort_images_values_distinct: "distinct (dict_values (sort_images st))"
proof -
  have "map (\<lambda>i. canonical_name (st ! i)) (dict_values (sort_images st)) = dict_keys (sort_images st)"
    using sort_images_entry(2) by (auto simp: comp_def)
  then show ?thesis using sort_images_distinct [of st] by (metis distinct_map)
qed

text \<open>
  With canonical names that differ, the dictionary is the list of images itself.
\<close>

lemma sort_images_all:
  assumes "distinct (map canonical_name st)"
  shows "sort_images st = map (\<lambda>i. (canonical_name (st ! i), i)) [0..<length st]"
proof -
  have "n \<le> length st \<Longrightarrow>
      fold (\<lambda>i d. dict_set (canonical_name (st ! i)) i d) [0..<n] [] =
      map (\<lambda>i. (canonical_name (st ! i), i)) [0..<n]" for n
  proof (induction n)
    case (Suc n)
    have "canonical_name (st ! n) \<notin> (\<lambda>i. canonical_name (st ! i)) ` {0..<n}"
    proof
      assume "canonical_name (st ! n) \<in> (\<lambda>i. canonical_name (st ! i)) ` {0..<n}"
      then obtain i where "i < n" and "canonical_name (st ! i) = canonical_name (st ! n)" by auto
      with assms Suc.prems show False
        by (auto simp: distinct_conv_nth)
    qed
    with Suc show ?case by (simp add: dict_set_fresh comp_def)
  qed simp
  then show ?thesis by (simp add: sort_images_def)
qed

section \<open>Linking\<close>

lemma length_link_images [simp]: "length (link_images p c st) = length st"
  by (simp add: link_images_def Let_def)

lemma link_images_fields [store_simps]:
  assumes "i < length st" "p < length st" "c < length st"
  shows "img_children (link_images p c st ! i) =
      (if i = p then img_children (st ! p) @ [c] else img_children (st ! i))"
    and "img_parent (link_images p c st ! i) = (if i = c then Some p else img_parent (st ! i))"
    and "parent_name (link_images p c st ! i) = parent_name (st ! i)"
    and "canonical_name (link_images p c st ! i) = canonical_name (st ! i)"
    and "img_status (link_images p c st ! i) = img_status (st ! i)"
    and "img_name (link_images p c st ! i) = img_name (st ! i)"
    and "img_path (link_images p c st ! i) = img_path (st ! i)"
  using assms by (auto simp: link_images_def Let_def nth_list_update)

text \<open>What one or more passes of linking leave alone.\<close>

definition links_only :: "store \<Rightarrow> store \<Rightarrow> bool" where
  "links_only st st' \<longleftrightarrow> length st' = length st \<and>
     (\<forall>i < length st. parent_name (st' ! i) = parent_name (st ! i) \<and>
        canonical_name (st' ! i) = canonical_name (st ! i) \<and>
        img_name (st' ! i) = img_name (st ! i) \<and> img_path (st' ! i) = img_path (st ! i) \<and>
        img_status (st' ! i) = img_status (st ! i))"

lemma links_only_refl [simp]: "links_only st st"
  by (simp add: links_only_def)

lemma links_only_trans: "links_only a b \<Longrightarrow> links_only b c \<Longrightarrow> links_only a c"
  by (simp add: links_only_def)

lemma links_only_link: "p < length st \<Longrightarrow> c < length st \<Longrightarrow> links_only st (link_images p c st)"
  by (simp add: links_only_def store_simps)

lemma adopt_Nil [simp]: "adopt pn p [] st = st"
  by (simp add: adopt_def)

lemma adopt_Cons:
  "adopt pn p (c # cs) st =
     adopt pn p cs (if parent_name (st ! c) = pn then link_images p c st else st)"
  by (simp add: adopt_def)

lemma adopt_spec:
  assumes "p < length st" and "\<forall>c \<in> set cs. c < length st" and "distinct cs"
  shows "links_only st (adopt pn p cs st) \<and>
    (\<forall>i < length st.
       img_children (adopt pn p cs st ! i) =
         (if i = p then img_children (st ! p) @ filter (\<lambda>c. parent_name (st ! c) = pn) cs
          else img_children (st ! i)) \<and>
       img_parent (adopt pn p cs st ! i) =
         (if i \<in> set cs \<and> parent_name (st ! i) = pn then Some p else img_parent (st ! i)))"
  using assms
proof (induction cs arbitrary: st)
  case (Cons c cs)
  let ?st = "if parent_name (st ! c) = pn then link_images p c st else st"
  have lo: "links_only st ?st"
    using Cons.prems by (simp add: links_only_link)
  have len: "length ?st = length st" using lo by (simp add: links_only_def)
  have IH: "links_only ?st (adopt pn p cs ?st) \<and>
    (\<forall>i < length ?st.
       img_children (adopt pn p cs ?st ! i) =
         (if i = p then img_children (?st ! p) @ filter (\<lambda>c. parent_name (?st ! c) = pn) cs
          else img_children (?st ! i)) \<and>
       img_parent (adopt pn p cs ?st ! i) =
         (if i \<in> set cs \<and> parent_name (?st ! i) = pn then Some p else img_parent (?st ! i)))"
    by (rule Cons.IH) (use Cons.prems len in auto)
  have pn: "parent_name (?st ! i) = parent_name (st ! i)" if "i < length st" for i
    using lo that by (simp add: links_only_def)
  have fil: "filter (\<lambda>c. parent_name (?st ! c) = pn) cs = filter (\<lambda>c. parent_name (st ! c) = pn) cs"
    using Cons.prems(2) pn by (intro filter_cong) auto
  have lo2: "links_only st (adopt pn p (c # cs) st)"
    unfolding adopt_Cons using IH lo links_only_trans by blast
  have "img_children (adopt pn p (c # cs) st ! i) =
         (if i = p then img_children (st ! p) @ filter (\<lambda>c. parent_name (st ! c) = pn) (c # cs)
          else img_children (st ! i)) \<and>
       img_parent (adopt pn p (c # cs) st ! i) =
         (if i \<in> set (c # cs) \<and> parent_name (st ! i) = pn then Some p else img_parent (st ! i))"
    if i: "i < length st" for i
    using IH i len pn [OF i] fil Cons.prems
    unfolding adopt_Cons by (cases "parent_name (st ! c) = pn") (auto simp: store_simps)
  with lo2 show ?case by blast
qed simp

definition link_all :: "nat list \<Rightarrow> (string, nat) dict \<Rightarrow> store \<Rightarrow> store" where
  "link_all vals d st = fold (\<lambda>(pname, p) st. adopt pname p vals st) d st"

lemma link_all_spec:
  assumes "\<forall>c \<in> set vals. c < length st" and "distinct vals"
    and "\<forall>(k, p) \<in> set d. p < length st" and "distinct (dict_keys d)" and "distinct (dict_values d)"
  shows "links_only st (link_all vals d st) \<and>
    (\<forall>i < length st.
       img_children (link_all vals d st ! i) =
         img_children (st ! i) @
           (case map_of (map prod.swap d) i of None \<Rightarrow> []
            | Some k \<Rightarrow> filter (\<lambda>c. parent_name (st ! c) = k) vals) \<and>
       img_parent (link_all vals d st ! i) =
         (if i \<in> set vals then
            (case map_of d (parent_name (st ! i)) of Some p \<Rightarrow> Some p | None \<Rightarrow> img_parent (st ! i))
          else img_parent (st ! i)))"
  using assms
proof (induction d arbitrary: st)
  case Nil
  then show ?case by (simp add: link_all_def)
next
  case (Cons kp d)
  obtain k p where kp: "kp = (k, p)" by (cases kp)
  let ?st = "adopt k p vals st"
  have A: "links_only st ?st \<and>
    (\<forall>i < length st.
       img_children (?st ! i) =
         (if i = p then img_children (st ! p) @ filter (\<lambda>c. parent_name (st ! c) = k) vals
          else img_children (st ! i)) \<and>
       img_parent (?st ! i) =
         (if i \<in> set vals \<and> parent_name (st ! i) = k then Some p else img_parent (st ! i)))"
    by (rule adopt_spec) (use Cons.prems kp in auto)
  then have len: "length ?st = length st" by (simp add: links_only_def)
  have unfold: "link_all vals (kp # d) st = link_all vals d ?st"
    by (simp add: link_all_def kp)
  have IH: "links_only ?st (link_all vals d ?st) \<and>
    (\<forall>i < length ?st.
       img_children (link_all vals d ?st ! i) =
         img_children (?st ! i) @
           (case map_of (map prod.swap d) i of None \<Rightarrow> []
            | Some k \<Rightarrow> filter (\<lambda>c. parent_name (?st ! c) = k) vals) \<and>
       img_parent (link_all vals d ?st ! i) =
         (if i \<in> set vals then
            (case map_of d (parent_name (?st ! i)) of Some p \<Rightarrow> Some p | None \<Rightarrow> img_parent (?st ! i))
          else img_parent (?st ! i)))"
    by (rule Cons.IH) (use Cons.prems len in auto)
  have fil: "filter (\<lambda>c. parent_name (?st ! c) = k') vals = filter (\<lambda>c. parent_name (st ! c) = k') vals" for k'
    using A Cons.prems(1) by (intro filter_cong) (auto simp: links_only_def)
  have notin: "map_of d k = None" "map_of (map prod.swap d) p = None"
    using Cons.prems(4,5) kp by (auto simp: map_of_eq_None_iff image_image)
  have main: "img_children (link_all vals (kp # d) st ! i) =
         img_children (st ! i) @
           (case map_of (map prod.swap (kp # d)) i of None \<Rightarrow> []
            | Some k \<Rightarrow> filter (\<lambda>c. parent_name (st ! c) = k) vals) \<and>
       img_parent (link_all vals (kp # d) st ! i) =
         (if i \<in> set vals then
            (case map_of (kp # d) (parent_name (st ! i)) of
               Some p \<Rightarrow> Some p | None \<Rightarrow> img_parent (st ! i))
          else img_parent (st ! i))" if i: "i < length st" for i
  proof -
    have pn: "parent_name (?st ! i) = parent_name (st ! i)"
      using A i by (simp add: links_only_def)
    show ?thesis
      using IH A i len notin fil unfolding unfold pn
      by (auto simp: kp pn split: option.splits)
  qed
  have "links_only st (link_all vals (kp # d) st)"
    unfolding unfold using A IH links_only_trans by blast
  with main show ?case by blast
qed

lemma find_parents_link_all:
  "find_parents st = link_all (dict_values (sort_images st)) (sort_images st) st"
  by (simp add: find_parents_def link_all_def Let_def)

section \<open>What find\_parents returns\<close>

text \<open>A store as \<open>build_image_list\<close> leaves it.\<close>

definition fresh_store :: "store \<Rightarrow> bool" where
  "fresh_store st \<longleftrightarrow>
     (\<forall>im \<in> set st. img_status im = UNPROCESSED \<and> img_parent im = None \<and> img_children im = [])"

lemma fresh_storeD:
  "fresh_store st \<Longrightarrow> i < length st \<Longrightarrow> img_status (st ! i) = UNPROCESSED"
  "fresh_store st \<Longrightarrow> i < length st \<Longrightarrow> img_parent (st ! i) = None"
  "fresh_store st \<Longrightarrow> i < length st \<Longrightarrow> img_children (st ! i) = []"
  by (auto simp: fresh_store_def)

lemma swap_map_of:
  assumes "distinct (map snd d)"
  shows "map_of (map prod.swap d) p = Some k \<longleftrightarrow> (k, p) \<in> set d"
proof -
  have "distinct (map fst (map prod.swap d))" using assms by (simp add: comp_def)
  then show ?thesis by (force simp: map_of_eq_Some_iff image_iff)
qed

lemma find_parents_raw:
  fixes st :: store
  defines "d \<equiv> sort_images st"
  shows "links_only st (find_parents st)"
    and "i < length st \<Longrightarrow> img_children (find_parents st ! i) =
      img_children (st ! i) @
        (case map_of (map prod.swap d) i of None \<Rightarrow> []
         | Some k \<Rightarrow> filter (\<lambda>c. parent_name (st ! c) = k) (dict_values d))"
    and "i < length st \<Longrightarrow> img_parent (find_parents st ! i) =
      (if i \<in> set (dict_values d) then
         (case map_of d (parent_name (st ! i)) of Some p \<Rightarrow> Some p | None \<Rightarrow> img_parent (st ! i))
       else img_parent (st ! i))"
proof -
  have *: "links_only st (link_all (dict_values d) d st) \<and>
    (\<forall>i < length st.
       img_children (link_all (dict_values d) d st ! i) =
         img_children (st ! i) @
           (case map_of (map prod.swap d) i of None \<Rightarrow> []
            | Some k \<Rightarrow> filter (\<lambda>c. parent_name (st ! c) = k) (dict_values d)) \<and>
       img_parent (link_all (dict_values d) d st ! i) =
         (if i \<in> set (dict_values d) then
            (case map_of d (parent_name (st ! i)) of Some p \<Rightarrow> Some p | None \<Rightarrow> img_parent (st ! i))
          else img_parent (st ! i)))"
    unfolding d_def
    by (rule link_all_spec)
      (use sort_images_values_lt sort_images_values_distinct sort_images_distinct
         sort_images_entry(1) in \<open>auto simp: image_iff\<close>)
  show "links_only st (find_parents st)"
    and "i < length st \<Longrightarrow> img_children (find_parents st ! i) =
      img_children (st ! i) @
        (case map_of (map prod.swap d) i of None \<Rightarrow> []
         | Some k \<Rightarrow> filter (\<lambda>c. parent_name (st ! c) = k) (dict_values d))"
    and "i < length st \<Longrightarrow> img_parent (find_parents st ! i) =
      (if i \<in> set (dict_values d) then
         (case map_of d (parent_name (st ! i)) of Some p \<Rightarrow> Some p | None \<Rightarrow> img_parent (st ! i))
       else img_parent (st ! i))"
    using * unfolding find_parents_link_all d_def by blast+
qed

text \<open>Parent and children agree, stay inside the store, and no child is listed twice.\<close>

definition forest_links :: "store \<Rightarrow> bool" where
  "forest_links st \<longleftrightarrow>
     (\<forall>i < length st.
        (\<forall>p. img_parent (st ! i) = Some p \<longrightarrow> p < length st \<and> i \<in> set (img_children (st ! p))) \<and>
        (\<forall>c \<in> set (img_children (st ! i)). c < length st \<and> img_parent (st ! c) = Some i) \<and>
        distinct (img_children (st ! i)))"

lemma forest_linksD:
  assumes "forest_links st" "i < length st"
  shows "img_parent (st ! i) = Some p \<Longrightarrow> p < length st"
    and "img_parent (st ! i) = Some p \<Longrightarrow> i \<in> set (img_children (st ! p))"
    and "c \<in> set (img_children (st ! i)) \<Longrightarrow> c < length st"
    and "c \<in> set (img_children (st ! i)) \<Longrightarrow> img_parent (st ! c) = Some i"
    and "distinct (img_children (st ! i))"
  using assms unfolding forest_links_def by blast+

lemma forest_links_same_shape:
  assumes "same_shape st st'" and "forest_links st"
  shows "forest_links st'"
proof -
  have len: "length st' = length st" using assms(1) by (rule same_shape_length)
  note f = same_shape_fields(3,4) [OF assms(1)]
  show ?thesis
    unfolding forest_links_def
  proof (intro allI impI conjI ballI)
    fix i p assume i: "i < length st'" and p: "img_parent (st' ! i) = Some p"
    then have "img_parent (st ! i) = Some p" using f len by simp
    then have "p < length st" "i \<in> set (img_children (st ! p))"
      using forest_linksD(1,2) [OF assms(2), of i p] i len by simp_all
    then show "p < length st'" "i \<in> set (img_children (st' ! p))" using f len by auto
  next
    fix i c assume i: "i < length st'" and c: "c \<in> set (img_children (st' ! i))"
    then have "c \<in> set (img_children (st ! i))" using f len by simp
    then have "c < length st" "img_parent (st ! c) = Some i"
      using forest_linksD(3,4) [OF assms(2), of i c] i len by simp_all
    then show "c < length st'" "img_parent (st' ! c) = Some i" using f len by auto
  next
    fix i assume i: "i < length st'"
    then show "distinct (img_children (st' ! i))"
      using f len forest_linksD(5) [OF assms(2)] by simp
  qed
qed

lemma find_parents_fields:
  assumes "fresh_store st" and i: "i < length st"
  shows "img_parent (find_parents st ! i) =
      (if i \<in> set (dict_values (sort_images st)) then dict_get (sort_images st) (parent_name (st ! i))
       else None)"
    and "img_children (find_parents st ! i) =
      (if i \<in> set (dict_values (sort_images st)) then
         filter (\<lambda>c. parent_name (st ! c) = canonical_name (st ! i)) (dict_values (sort_images st))
       else [])"
proof -
  show "img_parent (find_parents st ! i) =
      (if i \<in> set (dict_values (sort_images st)) then dict_get (sort_images st) (parent_name (st ! i))
       else None)"
    using find_parents_raw(3) [OF i] fresh_storeD [OF assms] by (auto split: option.splits)
  show "img_children (find_parents st ! i) =
      (if i \<in> set (dict_values (sort_images st)) then
         filter (\<lambda>c. parent_name (st ! c) = canonical_name (st ! i)) (dict_values (sort_images st))
       else [])"
  proof (cases "i \<in> set (dict_values (sort_images st))")
    case True
    then obtain k where k: "(k, i) \<in> set (sort_images st)" by auto
    then have "canonical_name (st ! i) = k" by (rule sort_images_entry)
    moreover have "map_of (map prod.swap (sort_images st)) i = Some k"
      using k by (simp add: swap_map_of sort_images_values_distinct)
    ultimately show ?thesis
      using find_parents_raw(2) [OF i] fresh_storeD [OF assms] True by simp
  next
    case False
    then have "map_of (map prod.swap (sort_images st)) i = None"
      by (auto simp: map_of_eq_None_iff image_iff)
    with find_parents_raw(2) [OF i] fresh_storeD [OF assms] False show ?thesis by simp
  qed
qed

lemma find_parents_length [simp]: "length (find_parents st) = length st"
  using find_parents_raw(1) by (simp add: links_only_def)

lemma find_parents_status: "i < length st \<Longrightarrow> status_at (find_parents st) i = status_at st i"
  using find_parents_raw(1) by (simp add: links_only_def)

lemma find_parents_forest:
  assumes "fresh_store st"
  shows "forest_links (find_parents st)"
  unfolding forest_links_def
proof (intro allI impI conjI ballI)
  note f = find_parents_fields [OF assms]
  fix i p assume i: "i < length (find_parents st)" and p: "img_parent (find_parents st ! i) = Some p"
  then have iv: "i \<in> set (dict_values (sort_images st))"
    and get: "dict_get (sort_images st) (parent_name (st ! i)) = Some p"
    using f(1) by (auto split: if_splits)
  show "p < length (find_parents st)" using sort_images_get [OF get] by simp
  moreover have "p \<in> set (dict_values (sort_images st))" using get by (force dest: map_of_SomeD)
  ultimately show "i \<in> set (img_children (find_parents st ! p))"
    using f(2) [of p] iv sort_images_get(2) [OF get] by simp
next
  note f = find_parents_fields [OF assms]
  fix i c assume i: "i < length (find_parents st)" and c: "c \<in> set (img_children (find_parents st ! i))"
  then have iv: "i \<in> set (dict_values (sort_images st))"
    and cv: "c \<in> set (dict_values (sort_images st))"
    and pn: "parent_name (st ! c) = canonical_name (st ! i)"
    using f(2) by (auto split: if_splits)
  from cv have "c < length st" by (rule sort_images_values_lt)
  then show "c < length (find_parents st)" by simp
  obtain k where k: "(k, i) \<in> set (sort_images st)" using iv by auto
  then have "dict_get (sort_images st) (parent_name (st ! c)) = Some i"
    using pn sort_images_entry(2,3) by metis
  then show "img_parent (find_parents st ! c) = Some i" using f(1) cv \<open>c < length st\<close> by simp
next
  fix i assume "i < length (find_parents st)"
  then show "distinct (img_children (find_parents st ! i))"
    using find_parents_fields(2) [OF assms] sort_images_values_distinct [of st] by simp
qed

section \<open>Ancestors and depth\<close>

text \<open>
  \<open>ancestor st i j\<close>: \<open>j\<close> is \<open>i\<close> or one of its ancestors. \<open>ranked st depth\<close>: every parent is
  strictly less deep than its child, so that no image is its own ancestor.
\<close>

inductive ancestor :: "store \<Rightarrow> nat \<Rightarrow> nat \<Rightarrow> bool" for st where
  anc_self: "ancestor st i i"
| anc_parent: "img_parent (st ! i) = Some p \<Longrightarrow> ancestor st p j \<Longrightarrow> ancestor st i j"

inductive_cases ancestor_cases: "ancestor st i j"

definition ranked :: "store \<Rightarrow> (nat \<Rightarrow> nat) \<Rightarrow> bool" where
  "ranked st depth \<longleftrightarrow>
     (\<forall>i < length st. \<forall>p. img_parent (st ! i) = Some p \<longrightarrow> p < length st \<and> depth p < depth i)"

lemma ancestor_unfold:
  "ancestor st i j \<longleftrightarrow> i = j \<or> (\<exists>p. img_parent (st ! i) = Some p \<and> ancestor st p j)"
  by (auto intro: ancestor.intros elim: ancestor_cases)

lemma ancestor_trans: "ancestor st i j \<Longrightarrow> ancestor st j k \<Longrightarrow> ancestor st i k"
  by (induction rule: ancestor.induct) (auto intro: ancestor.intros)

lemma ancestor_step: "ancestor st i j \<Longrightarrow> img_parent (st ! j) = Some p \<Longrightarrow> ancestor st i p"
  by (rule ancestor_trans) (auto intro: ancestor.intros)

lemma ancestor_lt:
  "ancestor st i j \<Longrightarrow> i < length st \<Longrightarrow>
   (\<And>i p. i < length st \<Longrightarrow> img_parent (st ! i) = Some p \<Longrightarrow> p < length st) \<Longrightarrow> j < length st"
  by (induction rule: ancestor.induct) auto

lemma rankedD: "ranked st depth \<Longrightarrow> i < length st \<Longrightarrow> img_parent (st ! i) = Some p \<Longrightarrow> depth p < depth i"
  "ranked st depth \<Longrightarrow> i < length st \<Longrightarrow> img_parent (st ! i) = Some p \<Longrightarrow> p < length st"
  by (auto simp: ranked_def)

lemma ancestor_ranked_lt: "ranked st depth \<Longrightarrow> ancestor st i j \<Longrightarrow> i < length st \<Longrightarrow> j < length st"
  using ancestor_lt rankedD(2) by blast

lemma same_shape_parent: "same_shape st st' \<Longrightarrow> i < length st \<Longrightarrow> img_parent (st' ! i) = img_parent (st ! i)"
  by (rule same_shape_fields(3))

lemma ranked_same_shape: "same_shape st st' \<Longrightarrow> ranked st depth \<Longrightarrow> ranked st' depth"
  by (auto simp: ranked_def same_shape_parent same_shape_length)

lemma ancestor_same_shape_1:
  assumes "same_shape st st'" and "ranked st depth"
  shows "ancestor st i j \<Longrightarrow> i < length st \<Longrightarrow> ancestor st' i j"
proof (induction rule: ancestor.induct)
  case (anc_parent i p j)
  then have "img_parent (st' ! i) = Some p" using assms same_shape_parent by metis
  moreover have "ancestor st' p j" using anc_parent assms(2) rankedD(2) by blast
  ultimately show ?case by (rule ancestor.anc_parent)
qed (rule ancestor.anc_self)

lemma ancestor_same_shape:
  assumes "same_shape st st'" and "ranked st depth" and "i < length st"
  shows "ancestor st' i j \<longleftrightarrow> ancestor st i j"
  using ancestor_same_shape_1 [OF assms(1,2)] assms(3)
    ancestor_same_shape_1 [OF same_shape_sym [OF assms(1)] ranked_same_shape [OF assms(1,2)]]
    same_shape_length [OF assms(1)]
  by metis

end
