(* ===== verification/Py_Regex.thy ===== *)
theory Py_Regex
  imports Kolla_Prelude
begin

text \<open>
  The part of Python's \<open>re\<close> that the sources' own patterns use, as an executable matcher by
  derivatives with its correctness against the language of a pattern. Patterns that come from
  the user (the regular expressions on the command line, the \<open>exclude\<close> lists) are not
  translated; the functions that use them take the search function as a parameter.
\<close>

datatype rx =
    RNone
  | REps
  | RClass "char \<Rightarrow> bool"
  | RSeq rx rx
  | RAlt rx rx
  | RStar rx

inductive rx_in :: "rx \<Rightarrow> string \<Rightarrow> bool" where
  in_eps: "rx_in REps []"
| in_class: "P c \<Longrightarrow> rx_in (RClass P) [c]"
| in_seq: "rx_in r u \<Longrightarrow> rx_in s v \<Longrightarrow> rx_in (RSeq r s) (u @ v)"
| in_left: "rx_in r u \<Longrightarrow> rx_in (RAlt r s) u"
| in_right: "rx_in s u \<Longrightarrow> rx_in (RAlt r s) u"
| in_star_nil: "rx_in (RStar r) []"
| in_star_step: "rx_in r u \<Longrightarrow> rx_in (RStar r) v \<Longrightarrow> rx_in (RStar r) (u @ v)"

inductive_simps rx_in_simps:
  "rx_in RNone u" "rx_in REps u" "rx_in (RClass P) u" "rx_in (RSeq r s) u" "rx_in (RAlt r s) u"

inductive_cases rx_in_star_cases: "rx_in (RStar r) u"

fun nullable :: "rx \<Rightarrow> bool" where
  "nullable RNone = False"
| "nullable REps = True"
| "nullable (RClass P) = False"
| "nullable (RSeq r s) = (nullable r \<and> nullable s)"
| "nullable (RAlt r s) = (nullable r \<or> nullable s)"
| "nullable (RStar r) = True"

fun deriv :: "char \<Rightarrow> rx \<Rightarrow> rx" where
  "deriv c RNone = RNone"
| "deriv c REps = RNone"
| "deriv c (RClass P) = (if P c then REps else RNone)"
| "deriv c (RSeq r s) =
     (if nullable r then RAlt (RSeq (deriv c r) s) (deriv c s) else RSeq (deriv c r) s)"
| "deriv c (RAlt r s) = RAlt (deriv c r) (deriv c s)"
| "deriv c (RStar r) = RSeq (deriv c r) (RStar r)"

fun rx_full :: "rx \<Rightarrow> string \<Rightarrow> bool" where
  "rx_full r [] = nullable r"
| "rx_full r (c # cs) = rx_full (deriv c r) cs"

lemma nullable_iff: "nullable r \<longleftrightarrow> rx_in r []"
  by (induction r) (auto simp: rx_in_simps intro: rx_in.intros)

lemma star_cons:
  assumes "rx_in (RStar r) (c # w)"
  shows "\<exists>u v. w = u @ v \<and> rx_in r (c # u) \<and> rx_in (RStar r) v"
proof -
  have "rx_in q x \<Longrightarrow> q = RStar r \<Longrightarrow> x = c # w \<Longrightarrow>
      \<exists>u v. w = u @ v \<and> rx_in r (c # u) \<and> rx_in (RStar r) v" for q x
    by (induction arbitrary: w rule: rx_in.induct) (auto simp: append_eq_Cons_conv)
  with assms show ?thesis by blast
qed

lemma deriv_iff: "rx_in (deriv c r) w \<longleftrightarrow> rx_in r (c # w)"
proof (induction r arbitrary: w)
  case (RSeq r s)
  have seq: "rx_in (RSeq r s) (c # w) \<longleftrightarrow>
      (\<exists>u v. w = u @ v \<and> rx_in r (c # u) \<and> rx_in s v) \<or> (nullable r \<and> rx_in s (c # w))"
    by (auto simp: rx_in_simps Cons_eq_append_conv nullable_iff)
  have "rx_in (deriv c (RSeq r s)) w \<longleftrightarrow>
      (\<exists>u v. w = u @ v \<and> rx_in r (c # u) \<and> rx_in s v) \<or> (nullable r \<and> rx_in s (c # w))"
    by (auto simp: rx_in_simps RSeq)
  with seq show ?case by blast
next
  case (RStar r)
  show ?case
  proof
    assume "rx_in (deriv c (RStar r)) w"
    then obtain u v where "w = u @ v" "rx_in r (c # u)" "rx_in (RStar r) v"
      by (auto simp: rx_in_simps RStar)
    then show "rx_in (RStar r) (c # w)"
      using in_star_step [of r "c # u" v] by simp
  next
    assume "rx_in (RStar r) (c # w)"
    then show "rx_in (deriv c (RStar r)) w"
      using star_cons [of r c w] by (auto simp: rx_in_simps RStar)
  qed
qed (auto simp: rx_in_simps)

theorem rx_full_iff: "rx_full r w \<longleftrightarrow> rx_in r w"
  by (induction w arbitrary: r) (auto simp: nullable_iff deriv_iff)

text \<open>Literal text; \<open>^r$\<close>, where \<open>$\<close> also matches before a final newline.\<close>

fun rx_str :: "string \<Rightarrow> rx" where
  "rx_str [] = REps"
| "rx_str (c # cs) = RSeq (RClass (\<lambda>x. x = c)) (rx_str cs)"

definition rx_line :: "rx \<Rightarrow> string \<Rightarrow> bool" where
  "rx_line r s \<longleftrightarrow>
     rx_full r s \<or> (s \<noteq> [] \<and> last s = CHR 0x0A \<and> rx_full r (butlast s))"

lemma rx_in_str: "rx_in (rx_str s) w \<longleftrightarrow> w = s"
  by (induction s arbitrary: w) (auto simp: rx_in_simps)

declare rx_str.simps [simp del]

text \<open>A star over a class of strings that all start with the same separator.\<close>

lemma rx_in_star_iff:
  "rx_in (RStar r) w \<longleftrightarrow> (\<exists>us. w = concat us \<and> (\<forall>u \<in> set us. rx_in r u))"
proof
  have "rx_in q w \<Longrightarrow> q = RStar r \<Longrightarrow> \<exists>us. w = concat us \<and> (\<forall>u \<in> set us. rx_in r u)" for q
  proof (induction rule: rx_in.induct)
    case (in_star_step r' u v)
    then obtain us where "v = concat us" "\<forall>u \<in> set us. rx_in r u" by auto
    with in_star_step show ?case by (intro exI [of _ "u # us"]) auto
  qed (auto intro: exI [of _ "[]"])
  then show "rx_in (RStar r) w \<Longrightarrow> \<exists>us. w = concat us \<and> (\<forall>u \<in> set us. rx_in r u)" by blast
next
  assume "\<exists>us. w = concat us \<and> (\<forall>u \<in> set us. rx_in r u)"
  then obtain us where "w = concat us" "\<forall>u \<in> set us. rx_in r u" by blast
  then show "rx_in (RStar r) w"
    by (induction us arbitrary: w) (auto intro: in_star_nil in_star_step)
qed

end
