(* ===== verification/Unbuildable_Images.thy ===== *)
theory Unbuildable_Images
  imports Py_Regex Image_Model
begin

text \<open>
  \<open>kolla/image/unbuildable.py\<close>: the images that cannot be built on a distribution or an
  architecture, and the choice of the entries that apply to a configuration (the first part of
  \<open>KollaWorker.filter\_images\<close>).
\<close>

definition UNBUILDABLE_IMAGES :: "(string, string list) dict" where
  "UNBUILDABLE_IMAGES =
    [(''aarch64'', [''bifrost-base'']),
     (''centos'',
       [''collectd'', ''hacluster-pcs'', ''nova-spicehtml5proxy'', ''ovsdpdk'', ''redis-base'',
        ''telegraf'', ''tgtd'']),
     (''debian'', [''openvswitch-netcontrold'']),
     (''rocky'',
       [''collectd'', ''hacluster-pcs'', ''nova-spicehtml5proxy'', ''ovsdpdk'', ''redis-base'',
        ''telegraf'', ''tgtd'']),
     (''ubuntu'', []),
     (''ubuntu+aarch64'', []),
     (''centos+aarch64'', [])]"

text \<open>
  \<open>tag\_re\<close>: the distribution or the architecture, then any number of them after a plus sign.
  The two names go into the pattern as they are; the option parser only admits names without
  characters that are special in a pattern.
\<close>

definition tag_element :: "string \<Rightarrow> string \<Rightarrow> rx" where
  "tag_element base arch = RAlt (rx_str base) (rx_str arch)"

definition tag_re :: "string \<Rightarrow> string \<Rightarrow> rx" where
  "tag_re base arch =
     RSeq (tag_element base arch) (RStar (RSeq (rx_str ''+'') (tag_element base arch)))"

definition tag_re_match :: "string \<Rightarrow> string \<Rightarrow> string \<Rightarrow> bool" where
  "tag_re_match base arch tag = rx_line (tag_re base arch) tag"

definition unbuildable_names :: "conf \<Rightarrow> string list" where
  "unbuildable_names c =
     (if conf_enable_unbuildable c then []
      else concat (map snd (filter (\<lambda>(tag, _). tag_re_match (conf_base c) (conf_base_arch c) tag)
                              UNBUILDABLE_IMAGES)))"

lemma tag_element_in: "rx_in (tag_element base arch) w \<longleftrightarrow> w = base \<or> w = arch"
  by (auto simp: tag_element_def rx_in_simps rx_in_str)

lemma join_plus: "py_join ''+'' (w # ws) = w @ concat (map (\<lambda>v. CHR ''+'' # v) ws)"
  by (induction ws arbitrary: w) auto

lemma tag_re_in:
  "rx_in (tag_re base arch) s \<longleftrightarrow>
     (\<exists>ws. ws \<noteq> [] \<and> set ws \<subseteq> {base, arch} \<and> s = py_join ''+'' ws)"
proof
  assume "rx_in (tag_re base arch) s"
  then obtain w us where s: "s = w @ concat us" and w: "w = base \<or> w = arch"
    and us: "\<forall>u \<in> set us. \<exists>v. u = CHR ''+'' # v \<and> (v = base \<or> v = arch)"
    unfolding tag_re_def by (auto simp: rx_in_simps rx_in_star_iff tag_element_in rx_in_str)
  have "CHR ''+'' # tl u = u" if "u \<in> set us" for u
    using us that by (metis list.sel(3))
  then have "map (\<lambda>v. CHR ''+'' # v) (map tl us) = us"
    by (simp add: map_idI)
  then have "s = py_join ''+'' (w # map tl us)"
    unfolding s join_plus by simp
  moreover have "tl u \<in> {base, arch}" if "u \<in> set us" for u
    using us that by (metis insertCI list.sel(3))
  then have "set (w # map tl us) \<subseteq> {base, arch}" using w by auto
  ultimately show "\<exists>ws. ws \<noteq> [] \<and> set ws \<subseteq> {base, arch} \<and> s = py_join ''+'' ws"
    by (intro exI [of _ "w # map tl us"]) simp
next
  assume "\<exists>ws. ws \<noteq> [] \<and> set ws \<subseteq> {base, arch} \<and> s = py_join ''+'' ws"
  then obtain w ws where "set (w # ws) \<subseteq> {base, arch}" and "s = py_join ''+'' (w # ws)"
    by (metis neq_Nil_conv)
  have "rx_in (RSeq (rx_str ''+'') (tag_element base arch)) (CHR ''+'' # v)"
    if "v \<in> set ws" for v
    using in_seq [of "rx_str ''+''" "''+''" "tag_element base arch" v] that
      \<open>set (w # ws) \<subseteq> {base, arch}\<close>
    by (auto simp: rx_in_str tag_element_in)
  then have "rx_in (RStar (RSeq (rx_str ''+'') (tag_element base arch)))
      (concat (map (\<lambda>v. CHR ''+'' # v) ws))"
    unfolding rx_in_star_iff by (intro exI [of _ "map (\<lambda>v. CHR ''+'' # v) ws"]) auto
  moreover have "rx_in (tag_element base arch) w"
    using \<open>set (w # ws) \<subseteq> {base, arch}\<close> by (auto simp: tag_element_in)
  ultimately show "rx_in (tag_re base arch) s"
    unfolding tag_re_def \<open>s = _\<close> join_plus by (rule in_seq [rotated])
qed

lemma tag_full_iff:
  assumes "CHR ''+'' \<notin> set base" and "CHR ''+'' \<notin> set arch"
  shows "rx_full (tag_re base arch) s \<longleftrightarrow> set (py_split CHR ''+'' s) \<subseteq> {base, arch}"
proof
  assume "rx_full (tag_re base arch) s"
  then obtain ws where "ws \<noteq> []" "set ws \<subseteq> {base, arch}" "s = py_join ''+'' ws"
    by (auto simp: rx_full_iff tag_re_in)
  moreover from this have "py_split CHR ''+'' s = ws"
    using assms by (auto intro!: py_split_join)
  ultimately show "set (py_split CHR ''+'' s) \<subseteq> {base, arch}" by simp
next
  assume "set (py_split CHR ''+'' s) \<subseteq> {base, arch}"
  moreover have "s = py_join ''+'' (py_split CHR ''+'' s)" by (simp add: py_join_split)
  ultimately show "rx_full (tag_re base arch) s"
    unfolding rx_full_iff tag_re_in
    by (intro exI [of _ "py_split CHR ''+'' s"]) simp
qed

end
