(* ===== verification/Image_Filter.thy ===== *)
theory Image_Filter
  imports Image_Forest Unbuildable_Images
begin

text \<open>
  \<open>KollaWorker.filter\_images\<close> (\<open>kolla/image/kolla\_worker.py\<close>): which images to build. Three
  passes over the images write their statuses: unbuildable images and everything built on them,
  then the images the patterns select together with all their ancestors, then the images to
  skip. The two walks up the parents are loops; they are partial functions whose result \<open>None\<close>
  means that the loop does not end.
\<close>

section \<open>The patterns\<close>

fun profile_patterns :: "(string \<Rightarrow> string list) \<Rightarrow> string list \<Rightarrow> string list \<Rightarrow> py_exn + string list" where
  "profile_patterns profiles [] acc = Inr acc"
| "profile_patterns profiles (p # ps) acc =
     (if length (profiles p) = 0 then Inl (ValueError (''Profile: '' @ p @ '' does not exist''))
      else profile_patterns profiles ps (acc @ profiles p))"

definition filter_patterns :: "conf \<Rightarrow> py_exn + string list" where
  "filter_patterns c =
     (if conf_regex c \<noteq> [] then Inr (conf_regex c)
      else if conf_profile c \<noteq> [] then profile_patterns (conf_profiles c) (conf_profile c) []
      else Inr [])"

text \<open>\<open>r"|".join(filter\_).join('()')\<close>: the alternatives between the two characters of \<open>'()'\<close>.\<close>

definition joined_pattern :: "string list \<Rightarrow> string" where
  "joined_pattern fs = py_join (py_join ''|'' fs) [''('', '')'']"

section \<open>Unbuildable images\<close>

partial_function (option) unbuildable_walk ::
    "string list \<Rightarrow> store \<Rightarrow> nat \<Rightarrow> (bool \<times> store) option" where
  "unbuildable_walk names st a =
     (case parent_at st a of
        None \<Rightarrow> Some (True, st)
      | Some p \<Rightarrow>
          if name_at st p \<in> set names \<or> status_at st p = UNBUILDABLE
          then Some (False, set_status p UNBUILDABLE st)
          else unbuildable_walk names st p)"

definition unbuildable_image :: "string list \<Rightarrow> nat \<Rightarrow> store \<Rightarrow> store option" where
  "unbuildable_image names i st =
     (if name_at st i \<in> set names then Some (set_status i UNBUILDABLE st)
      else (case unbuildable_walk names st i of
              None \<Rightarrow> None
            | Some (build, st') \<Rightarrow> Some (if build then st' else set_status i UNBUILDABLE st')))"

section \<open>Matching images\<close>

partial_function (option) match_ancestors :: "store \<Rightarrow> nat \<Rightarrow> store option" where
  "match_ancestors st a =
     (case parent_at st a of
        None \<Rightarrow> Some st
      | Some p \<Rightarrow>
          if status_at st p \<noteq> MATCHED then match_ancestors (set_status p MATCHED st) p
          else Some st)"

definition match_image :: "(string \<Rightarrow> bool) \<Rightarrow> nat \<Rightarrow> store \<Rightarrow> store option" where
  "match_image hit i st =
     (if status_at st i \<in> {MATCHED, UNBUILDABLE} then Some st
      else if hit (name_at st i) then match_ancestors (set_status i MATCHED st) i
      else Some (set_status i UNMATCHED st))"

definition match_any_image :: "nat \<Rightarrow> store \<Rightarrow> store" where
  "match_any_image i st =
     (if status_at st i \<noteq> UNBUILDABLE then set_status i MATCHED st else st)"

section \<open>Skipped images\<close>

text \<open>
  \<open>Image.in\_engine\_cache\<close>: the engine lists the images of a name; \<open>engine\_list\<close> is the engine's
  answer.
\<close>

definition in_engine_cache :: "(string \<Rightarrow> string list) \<Rightarrow> image \<Rightarrow> bool" where
  "in_engine_cache engine_list im \<longleftrightarrow> length (engine_list (canonical_name im)) \<ge> 1"

definition skip_image :: "conf \<Rightarrow> (string \<Rightarrow> string list) \<Rightarrow> nat \<Rightarrow> store \<Rightarrow> store" where
  "skip_image c engine_list i st =
     (if status_at st i \<noteq> MATCHED then st
      else if conf_skip_existing c \<and> in_engine_cache engine_list (st ! i) then set_status i SKIPPED st
      else if conf_skip_parents c \<and> children_at st i \<noteq> [] then set_status i SKIPPED st
      else st)"

section \<open>The method\<close>

fun for_images :: "(nat \<Rightarrow> store \<Rightarrow> store option) \<Rightarrow> nat list \<Rightarrow> store \<Rightarrow> store option" where
  "for_images f [] st = Some st"
| "for_images f (i # is) st = (case f i st of None \<Rightarrow> None | Some st' \<Rightarrow> for_images f is st')"

definition filter_images ::
    "(string \<Rightarrow> string \<Rightarrow> bool) \<Rightarrow> (string \<Rightarrow> string list) \<Rightarrow> conf \<Rightarrow> store \<Rightarrow> (py_exn + store) option" where
  "filter_images re_search engine_list c st =
     (case filter_patterns c of
        Inl e \<Rightarrow> Some (Inl e)
      | Inr filter_ \<Rightarrow>
          let ids = [0..<length st]; names = unbuildable_names c
          in case (if names \<noteq> [] then for_images (unbuildable_image names) ids st else Some st) of
               None \<Rightarrow> None
             | Some st1 \<Rightarrow>
                 (case (if filter_ \<noteq> []
                        then for_images (match_image (re_search (joined_pattern filter_))) ids st1
                        else Some (fold match_any_image ids st1)) of
                    None \<Rightarrow> None
                  | Some st2 \<Rightarrow> Some (Inr (fold (skip_image c engine_list) ids st2))))"

text \<open>
  The specification: an image is not buildable when it or an ancestor is in the list; it is
  wanted when it or something built on it matches (and is buildable itself).
\<close>

definition not_buildable :: "string list \<Rightarrow> store \<Rightarrow> nat \<Rightarrow> bool" where
  "not_buildable names st i \<longleftrightarrow> (\<exists>j. ancestor st i j \<and> name_at st j \<in> set names)"

definition wanted :: "string list \<Rightarrow> (string \<Rightarrow> bool) \<Rightarrow> store \<Rightarrow> nat \<Rightarrow> bool" where
  "wanted names hit st i \<longleftrightarrow>
     (\<exists>d < length st. ancestor st d i \<and> hit (name_at st d) \<and> \<not> not_buildable names st d)"

definition status_spec ::
    "string list \<Rightarrow> (string \<Rightarrow> bool) \<Rightarrow> conf \<Rightarrow> (string \<Rightarrow> string list) \<Rightarrow> store \<Rightarrow> nat \<Rightarrow> status" where
  "status_spec names hit c engine_list st i =
     (if not_buildable names st i then UNBUILDABLE
      else if \<not> wanted names hit st i then UNMATCHED
      else if conf_skip_existing c \<and> in_engine_cache engine_list (st ! i) then SKIPPED
      else if conf_skip_parents c \<and> children_at st i \<noteq> [] then SKIPPED
      else MATCHED)"

section \<open>The walk to an unbuildable ancestor\<close>

lemma not_buildable_unfold:
  "not_buildable names st i \<longleftrightarrow>
     name_at st i \<in> set names \<or>
     (\<exists>p. parent_at st i = Some p \<and> not_buildable names st p)" (is "_ \<longleftrightarrow> ?R")
proof
  assume "not_buildable names st i"
  then obtain j where j: "ancestor st i j" "name_at st j \<in> set names"
    unfolding not_buildable_def by blast
  from j(1) show ?R
    by (cases rule: ancestor.cases) (use j(2) in \<open>auto simp: not_buildable_def\<close>)
next
  assume ?R
  then show "not_buildable names st i"
    unfolding not_buildable_def using anc_self anc_parent by metis
qed

lemma not_buildable_ancestor:
  "ancestor st i j \<Longrightarrow> not_buildable names st j \<Longrightarrow> not_buildable names st i"
  unfolding not_buildable_def using ancestor_trans by blast

lemma not_buildable_same_shape:
  assumes "same_shape st st'" "ranked st depth" "i < length st"
  shows "not_buildable names st' i \<longleftrightarrow> not_buildable names st i"
proof -
  have "ancestor st' i j \<and> name_at st' j \<in> set names \<longleftrightarrow>
      ancestor st i j \<and> name_at st j \<in> set names" for j
    using ancestor_same_shape [OF assms, of j] same_shape_fields(1) [OF assms(1), of j]
      ancestor_ranked_lt [OF assms(2) _ assms(3), of j] by auto
  then show ?thesis by (simp add: not_buildable_def)
qed

lemma unbuildable_walk_spec:
  assumes "ranked st depth" and "a < length st"
    and "\<And>j. j < length st \<Longrightarrow> status_at st j = UNBUILDABLE \<Longrightarrow> not_buildable names st j"
  shows "\<exists>b st'. unbuildable_walk names st a = Some (b, st') \<and> same_shape st st' \<and>
    (b \<longleftrightarrow> \<not> (\<exists>p. parent_at st a = Some p \<and> not_buildable names st p)) \<and>
    (\<forall>j < length st. status_at st' j = status_at st j \<or>
       status_at st' j = UNBUILDABLE \<and> not_buildable names st j)"
  using assms(2)
proof (induction "depth a" arbitrary: a rule: less_induct)
  case less
  show ?case
  proof (cases "parent_at st a")
    case None
    then show ?thesis
      by (subst unbuildable_walk.simps) (auto intro!: exI)
  next
    case (Some p)
    with assms(1) less.prems have p: "p < length st" "depth p < depth a"
      using rankedD by blast+
    show ?thesis
    proof (cases "name_at st p \<in> set names \<or> status_at st p = UNBUILDABLE")
      case True
      then have nb: "not_buildable names st p"
        using assms(3) p(1) not_buildable_unfold by blast
      from True have "unbuildable_walk names st a = Some (False, set_status p UNBUILDABLE st)"
        by (subst unbuildable_walk.simps) (simp add: Some)
      with nb Some p(1) show ?thesis
        by (intro exI [of _ False] exI [of _ "set_status p UNBUILDABLE st"])
          (auto simp: store_simps)
    next
      case False
      then have walk: "unbuildable_walk names st a = unbuildable_walk names st p"
        by (subst unbuildable_walk.simps) (simp add: Some)
      have "not_buildable names st p \<longleftrightarrow>
          (\<exists>q. parent_at st p = Some q \<and> not_buildable names st q)"
        using False not_buildable_unfold [of names st p] by blast
      with less.hyps [OF p(2,1)] show ?thesis
        unfolding walk by (simp add: Some)
    qed
  qed
qed

text \<open>
  Where parents form a cycle with no unbuildable image on it, the walk does not end.
\<close>

lemma unbuildable_walk_diverges:
  assumes "\<And>a. a \<in> C \<Longrightarrow> \<exists>p \<in> C. parent_at st a = Some p"
    and "\<And>a. a \<in> C \<Longrightarrow> name_at st a \<notin> set names \<and> status_at st a \<noteq> UNBUILDABLE"
    and "a \<in> C"
  shows "unbuildable_walk names st a = None"
proof (rule ccontr)
  assume "unbuildable_walk names st a \<noteq> None"
  then obtain r where ret: "unbuildable_walk names st a = Some r" by blast
  have "\<not> (names' = names \<and> st' = st \<and> a' \<in> C)" if "unbuildable_walk names' st' a' = Some r'"
    for names' st' a' r'
  proof (rule unbuildable_walk.raw_induct
      [where P = "\<lambda>names' st' a' r'. \<not> (names' = names \<and> st' = st \<and> a' \<in> C)", OF _ that])
    fix f names' st' a' r'
    assume IH: "\<And>names' st' a' r'. f names' st' a' = Some r' \<Longrightarrow> \<not> (names' = names \<and> st' = st \<and> a' \<in> C)"
      and eq: "(case parent_at st' a' of
          None \<Rightarrow> Some (True, st')
        | Some p \<Rightarrow>
            if name_at st' p \<in> set names' \<or> status_at st' p = UNBUILDABLE
            then Some (False, set_status p UNBUILDABLE st')
            else f names' st' p) = Some r'"
    show "\<not> (names' = names \<and> st' = st \<and> a' \<in> C)"
    proof
      assume *: "names' = names \<and> st' = st \<and> a' \<in> C"
      with assms(1) obtain p where "p \<in> C" "parent_at st a' = Some p" by blast
      with eq * assms(2) [of p] have "f names st p = Some r'" by simp
      with IH [of names st p r'] \<open>p \<in> C\<close> show False by blast
    qed
  qed
  with ret assms(3) show False by blast
qed

lemma unbuildable_image_spec:
  assumes "ranked st depth" and i: "i < length st"
    and unb: "\<And>j. j < length st \<Longrightarrow> status_at st j = UNBUILDABLE \<Longrightarrow> not_buildable names st j"
  shows "\<exists>st'. unbuildable_image names i st = Some st' \<and> same_shape st st' \<and>
    (not_buildable names st i \<longrightarrow> status_at st' i = UNBUILDABLE) \<and>
    (\<forall>j < length st. status_at st' j = status_at st j \<or>
       status_at st' j = UNBUILDABLE \<and> not_buildable names st j)"
proof (cases "name_at st i \<in> set names")
  case True
  then have "not_buildable names st i" using not_buildable_unfold by blast
  with True i show ?thesis by (auto simp: unbuildable_image_def store_simps)
next
  case False
  obtain b st' where w: "unbuildable_walk names st i = Some (b, st')" "same_shape st st'"
      "b \<longleftrightarrow> \<not> (\<exists>p. parent_at st i = Some p \<and> not_buildable names st p)"
    and ch: "\<forall>j < length st. status_at st' j = status_at st j \<or>
       status_at st' j = UNBUILDABLE \<and> not_buildable names st j"
    using unbuildable_walk_spec [OF assms] by blast
  have b: "b \<longleftrightarrow> \<not> not_buildable names st i"
    using w(3) False not_buildable_unfold [of names st i] by blast
  have len: "length st' = length st" using w(2) by (rule same_shape_length)
  show ?thesis
  proof (cases b)
    case True
    with w ch b False show ?thesis by (auto simp: unbuildable_image_def)
  next
    case nb: False
    with w ch b False i len show ?thesis
      by (auto simp: unbuildable_image_def store_simps same_shape_set_status_right)
  qed
qed

lemma unbuildable_pass:
  assumes "ranked st depth" and "\<forall>i \<in> set is. i < length st"
    and "\<And>j. j < length st \<Longrightarrow> status_at st j = UNBUILDABLE \<Longrightarrow> not_buildable names st j"
  shows "\<exists>st'. for_images (unbuildable_image names) is st = Some st' \<and> same_shape st st' \<and>
    (\<forall>i \<in> set is. not_buildable names st i \<longrightarrow> status_at st' i = UNBUILDABLE) \<and>
    (\<forall>j < length st. status_at st' j = status_at st j \<or>
       status_at st' j = UNBUILDABLE \<and> not_buildable names st j)"
  using assms
proof (induction "is" arbitrary: st)
  case (Cons i "is")
  obtain st1 where s1: "unbuildable_image names i st = Some st1" "same_shape st st1"
      "not_buildable names st i \<longrightarrow> status_at st1 i = UNBUILDABLE"
      "\<forall>j < length st. status_at st1 j = status_at st j \<or>
        status_at st1 j = UNBUILDABLE \<and> not_buildable names st j"
    using unbuildable_image_spec [of st depth i names] Cons.prems by auto
  have len: "length st1 = length st" using s1(2) by (rule same_shape_length)
  have nb: "not_buildable names st1 j \<longleftrightarrow> not_buildable names st j" if "j < length st" for j
    using not_buildable_same_shape [OF s1(2) Cons.prems(1) that] .
  have "\<exists>st'. for_images (unbuildable_image names) is st1 = Some st' \<and> same_shape st1 st' \<and>
    (\<forall>i \<in> set is. not_buildable names st1 i \<longrightarrow> status_at st' i = UNBUILDABLE) \<and>
    (\<forall>j < length st1. status_at st' j = status_at st1 j \<or>
       status_at st' j = UNBUILDABLE \<and> not_buildable names st1 j)"
  proof (rule Cons.IH)
    show "ranked st1 depth" using s1(2) Cons.prems(1) by (rule ranked_same_shape)
    show "\<forall>i \<in> set is. i < length st1" using Cons.prems(2) len by simp
    show "not_buildable names st1 j" if "j < length st1" "status_at st1 j = UNBUILDABLE" for j
      using that s1(4) Cons.prems(3) nb len by metis
  qed
  then obtain st' where s': "for_images (unbuildable_image names) is st1 = Some st'" "same_shape st1 st'"
      "\<forall>i \<in> set is. not_buildable names st1 i \<longrightarrow> status_at st' i = UNBUILDABLE"
      "\<forall>j < length st1. status_at st' j = status_at st1 j \<or>
       status_at st' j = UNBUILDABLE \<and> not_buildable names st1 j" by blast
  show ?case
  proof (intro exI conjI)
    show "for_images (unbuildable_image names) (i # is) st = Some st'" using s1(1) s'(1) by simp
    show "same_shape st st'" using s1(2) s'(2) by (rule same_shape_trans)
    show "\<forall>j < length st. status_at st' j = status_at st j \<or>
       status_at st' j = UNBUILDABLE \<and> not_buildable names st j"
      using s1(4) s'(4) nb len by metis
    show "\<forall>j \<in> set (i # is). not_buildable names st j \<longrightarrow> status_at st' j = UNBUILDABLE"
      using s1(3) s'(3,4) nb len Cons.prems(2) by (metis set_ConsD)
  qed
qed auto

section \<open>The walk that selects the ancestors\<close>

text \<open>
  Matched images are closed under parents, but for the image \<open>a\<close> whose ancestors are still to be
  marked.
\<close>

definition matched_closed :: "nat set \<Rightarrow> store \<Rightarrow> bool" where
  "matched_closed E st \<longleftrightarrow>
     (\<forall>i < length st. i \<notin> E \<longrightarrow> status_at st i = MATCHED \<longrightarrow>
        (\<forall>p. parent_at st i = Some p \<longrightarrow> status_at st p = MATCHED))"

lemma match_ancestors_spec:
  assumes "ranked st depth" and "a < length st" and "matched_closed {a} st"
  shows "\<exists>st'. match_ancestors st a = Some st' \<and> same_shape st st' \<and>
    (status_at st a = MATCHED \<longrightarrow> matched_closed {} st') \<and>
    (\<forall>j < length st. status_at st' j = status_at st j \<or>
       status_at st' j = MATCHED \<and> ancestor st a j)"
  using assms
proof (induction "depth a" arbitrary: a st rule: less_induct)
  case less
  show ?case
  proof (cases "parent_at st a")
    case None
    then have "matched_closed {} st"
      using less.prems(3) unfolding matched_closed_def by (metis option.distinct(1) singletonD)
    with None show ?thesis by (subst match_ancestors.simps) (auto intro!: exI)
  next
    case (Some p)
    have p: "p < length st" "depth p < depth a"
      using rankedD less.prems Some by blast+
    show ?thesis
    proof (cases "status_at st p = MATCHED")
      case True
      then have "matched_closed {} st"
        using less.prems(3) Some unfolding matched_closed_def
        by (metis option.inject singletonD)
      with True Some show ?thesis by (subst match_ancestors.simps) (auto intro!: exI)
    next
      case False
      let ?st = "set_status p MATCHED st"
      have closed: "matched_closed {p} ?st"
        using less.prems(3) Some p(1) rankedD(2) [OF less.prems(1)]
        unfolding matched_closed_def by (auto simp: store_simps)
      obtain st' where IH: "match_ancestors ?st p = Some st'" "same_shape ?st st'"
          "status_at ?st p = MATCHED \<longrightarrow> matched_closed {} st'"
          "\<forall>j < length ?st. status_at st' j = status_at ?st j \<or>
             status_at st' j = MATCHED \<and> ancestor ?st p j"
        using less.hyps [OF p(2), of ?st] ranked_same_shape [OF same_shape_set_status less.prems(1)]
          p(1) closed by auto
      have unfold: "match_ancestors st a = Some st'"
        using IH(1) False by (subst match_ancestors.simps) (simp add: Some)
      have "matched_closed {} st'" using IH(3) p(1) by (simp add: store_simps)
      moreover have "same_shape st st'" using IH(2) same_shape_set_status same_shape_trans by blast
      moreover have "status_at st' j = status_at st j \<or> status_at st' j = MATCHED \<and> ancestor st a j"
        if "j < length st" for j
        using IH(4) that p(1) Some ancestor_same_shape [OF same_shape_set_status less.prems(1) p(1), of p MATCHED]
        by (auto simp: store_simps intro: ancestor.intros split: if_splits)
      ultimately show ?thesis using unfold by blast
    qed
  qed
qed

text \<open>
  The walk always ends, on any store whose parents are images of the store, cycles included: every
  round marks one more image as matched.
\<close>

lemma match_ancestors_ends:
  assumes "\<forall>i < length st. \<forall>p. parent_at st i = Some p \<longrightarrow> p < length st" and "a < length st"
  shows "\<exists>st'. match_ancestors st a = Some st'"
  using assms
proof (induction "card {i. i < length st \<and> status_at st i \<noteq> MATCHED}" arbitrary: a st rule: less_induct)
  case less
  show ?case
  proof (cases "parent_at st a")
    case None
    then show ?thesis by (subst match_ancestors.simps) simp
  next
    case (Some p)
    show ?thesis
    proof (cases "status_at st p = MATCHED")
      case True
      with Some show ?thesis by (subst match_ancestors.simps) simp
    next
      case False
      let ?st = "set_status p MATCHED st"
      have p: "p < length st" using less.prems Some by blast
      have "{i. i < length ?st \<and> status_at ?st i \<noteq> MATCHED} =
          {i. i < length st \<and> status_at st i \<noteq> MATCHED} - {p}"
        by (auto simp: store_simps split: if_splits)
      then have "card {i. i < length ?st \<and> status_at ?st i \<noteq> MATCHED} <
          card {i. i < length st \<and> status_at st i \<noteq> MATCHED}"
        using p False card_Diff1_less [of "{i. i < length st \<and> status_at st i \<noteq> MATCHED}" p] by simp
      then have "\<exists>st'. match_ancestors ?st p = Some st'"
        by (rule less.hyps) (use less.prems p in auto)
      with Some False show ?thesis by (subst match_ancestors.simps) simp
    qed
  qed
qed

section \<open>The pass that matches\<close>

text \<open>
  The invariant of the pass over the images: \<open>done\<close> are the images already visited, \<open>nb\<close> and \<open>w\<close>
  what the specification says of an image in the original store.
\<close>

definition match_inv :: "(nat \<Rightarrow> bool) \<Rightarrow> (nat \<Rightarrow> bool) \<Rightarrow> (nat \<Rightarrow> bool) \<Rightarrow> nat set \<Rightarrow> store \<Rightarrow> bool" where
  "match_inv nb w hit visited st \<longleftrightarrow> matched_closed {} st \<and>
     (\<forall>i < length st.
        (status_at st i = UNBUILDABLE \<longleftrightarrow> nb i) \<and>
        (status_at st i = MATCHED \<longrightarrow> w i \<and> \<not> nb i) \<and>
        (i \<in> visited \<and> \<not> nb i \<longrightarrow> status_at st i \<in> {MATCHED, UNMATCHED} \<and>
           (hit i \<longrightarrow> status_at st i = MATCHED)))"

lemma match_image_inv:
  assumes "ranked st depth" and i: "i < length st"
    and inv: "match_inv nb w (\<lambda>i. hit (name_at st i)) visited st"
    and nb_up: "\<And>i j. i < length st \<Longrightarrow> ancestor st i j \<Longrightarrow> nb j \<Longrightarrow> nb i"
    and w_hit: "\<And>i j. i < length st \<Longrightarrow> hit (name_at st i) \<Longrightarrow> \<not> nb i \<Longrightarrow> ancestor st i j \<Longrightarrow> w j"
  shows "\<exists>st'. match_image hit i st = Some st' \<and> same_shape st st' \<and>
    match_inv nb w (\<lambda>i. hit (name_at st i)) (insert i visited) st'"
proof (cases "status_at st i \<in> {MATCHED, UNBUILDABLE}")
  case True
  with inv i show ?thesis by (auto simp: match_image_def match_inv_def)
next
  case False
  have closed: "matched_closed {} st" using inv by (simp add: match_inv_def)
  have nnb: "\<not> nb i" using inv i False unfolding match_inv_def by auto
  show ?thesis
  proof (cases "hit (name_at st i)")
    case True
    let ?st = "set_status i MATCHED st"
    have "matched_closed {i} ?st"
      using closed rankedD(2) [OF assms(1)] unfolding matched_closed_def
      by (auto simp: store_simps)
    moreover have "ranked ?st depth" using same_shape_set_status assms(1) by (rule ranked_same_shape)
    ultimately obtain st' where st': "match_ancestors ?st i = Some st'" "same_shape ?st st'"
        "status_at ?st i = MATCHED \<longrightarrow> matched_closed {} st'"
        "\<forall>j < length ?st. status_at st' j = status_at ?st j \<or>
           status_at st' j = MATCHED \<and> ancestor ?st i j"
      using match_ancestors_spec [of ?st depth i] i by auto
    have len: "length st' = length st" using st'(2) same_shape_length by fastforce
    have ch: "status_at st' j = status_at st j \<or> status_at st' j = MATCHED \<and> ancestor st i j"
      if "j < length st" for j
      using st'(4) that i ancestor_same_shape [OF same_shape_set_status assms(1) i, of i MATCHED]
      by (auto simp: store_simps intro: anc_self split: if_splits)
    have self: "status_at st' i = MATCHED"
      using st'(4) i by (auto simp: store_simps)
    have "match_inv nb w (\<lambda>i. hit (name_at st i)) (insert i visited) st'"
      unfolding match_inv_def
    proof (intro conjI allI impI)
      show "matched_closed {} st'" using st'(3) i by (simp add: store_simps)
      fix j assume j: "j < length st'"
      then have jl: "j < length st" using len by simp
      have anc: "ancestor st i j \<Longrightarrow> w j \<and> \<not> nb j"
        using nb_up [OF i] w_hit [OF i True nnb] nnb by blast
      have old: "(status_at st j = UNBUILDABLE \<longleftrightarrow> nb j) \<and> (status_at st j = MATCHED \<longrightarrow> w j \<and> \<not> nb j) \<and>
          (j \<in> visited \<and> \<not> nb j \<longrightarrow> status_at st j \<in> {MATCHED, UNMATCHED} \<and>
           (hit (name_at st j) \<longrightarrow> status_at st j = MATCHED))"
        using inv jl unfolding match_inv_def by blast
      show "status_at st' j = UNBUILDABLE \<longleftrightarrow> nb j" using ch [OF jl] anc old by auto
      show "w j" "\<not> nb j" if "status_at st' j = MATCHED" using ch [OF jl] anc old that by auto
      show "status_at st' j \<in> {MATCHED, UNMATCHED}" if "j \<in> insert i visited \<and> \<not> nb j"
        using ch [OF jl] old that self by auto
      show "status_at st' j = MATCHED" if "j \<in> insert i visited \<and> \<not> nb j" "hit (name_at st j)"
        using ch [OF jl] old that self by auto
    qed
    moreover have "same_shape st st'" using same_shape_set_status st'(2) by (rule same_shape_trans)
    ultimately show ?thesis using False True st'(1) by (auto simp: match_image_def)
  next
    case nohit: False
    have "matched_closed {} (set_status i UNMATCHED st)"
      unfolding matched_closed_def
    proof (intro allI impI)
      fix j p assume j: "j < length (set_status i UNMATCHED st)" "j \<notin> {}"
        "status_at (set_status i UNMATCHED st) j = MATCHED"
        "parent_at (set_status i UNMATCHED st) j = Some p"
      then have "status_at st j = MATCHED" "parent_at st j = Some p" "j < length st"
        by (auto simp: store_simps split: if_splits)
      with closed rankedD(2) [OF assms(1)] have "status_at st p = MATCHED" "p < length st"
        unfolding matched_closed_def by auto
      then show "status_at (set_status i UNMATCHED st) p = MATCHED"
        using False by (auto simp: store_simps)
    qed
    with inv nnb i False nohit have "match_inv nb w (\<lambda>i. hit (name_at st i)) (insert i visited)
        (set_status i UNMATCHED st)"
      unfolding match_inv_def by (auto simp: store_simps)
    with False nohit show ?thesis by (auto simp: match_image_def)
  qed
qed

text \<open>The invariant only reads the images of the store.\<close>

lemma match_inv_cong:
  "(\<And>i. i < length st \<Longrightarrow> h i = h' i) \<Longrightarrow> match_inv nb w h visited st = match_inv nb w h' visited st"
  unfolding match_inv_def by simp

lemma match_pass:
  assumes "ranked st depth" and "\<forall>i \<in> set is. i < length st"
    and "match_inv nb w (\<lambda>i. hit (name_at st i)) visited st"
    and "\<And>i j. i < length st \<Longrightarrow> ancestor st i j \<Longrightarrow> nb j \<Longrightarrow> nb i"
    and "\<And>i j. i < length st \<Longrightarrow> hit (name_at st i) \<Longrightarrow> \<not> nb i \<Longrightarrow> ancestor st i j \<Longrightarrow> w j"
  shows "\<exists>st'. for_images (match_image hit) is st = Some st' \<and> same_shape st st' \<and>
    match_inv nb w (\<lambda>i. hit (name_at st i)) (set is \<union> visited) st'"
  using assms
proof (induction "is" arbitrary: st visited)
  case (Cons i "is")
  obtain st1 where s1: "match_image hit i st = Some st1" "same_shape st st1"
      "match_inv nb w (\<lambda>i. hit (name_at st i)) (insert i visited) st1"
    using match_image_inv [of st depth i nb w hit visited] Cons.prems by auto
  have len: "length st1 = length st" using s1(2) by (rule same_shape_length)
  have nm: "name_at st1 j = name_at st j" if "j < length st" for j
    using same_shape_fields(1) [OF s1(2) that] .
  have anc: "ancestor st1 j k \<longleftrightarrow> ancestor st j k" if "j < length st" for j k
    using ancestor_same_shape [OF s1(2) Cons.prems(1) that] .
  have "\<exists>st'. for_images (match_image hit) is st1 = Some st' \<and> same_shape st1 st' \<and>
    match_inv nb w (\<lambda>i. hit (name_at st1 i)) (set is \<union> insert i visited) st'"
  proof (rule Cons.IH)
    show "ranked st1 depth" using s1(2) Cons.prems(1) by (rule ranked_same_shape)
    show "\<forall>i \<in> set is. i < length st1" using Cons.prems(2) len by simp
    show "match_inv nb w (\<lambda>i. hit (name_at st1 i)) (insert i visited) st1"
      using s1(3) match_inv_cong [of st1 "\<lambda>i. hit (name_at st1 i)" "\<lambda>i. hit (name_at st i)"] nm len
      by simp
    show "nb j" if "j < length st1" "ancestor st1 j k" "nb k" for j k
      using Cons.prems(4) that anc len by metis
    show "w k" if "j < length st1" "hit (name_at st1 j)" "\<not> nb j" "ancestor st1 j k" for j k
      using Cons.prems(5) that anc nm len by metis
  qed
  then obtain st' where s': "for_images (match_image hit) is st1 = Some st'" "same_shape st1 st'"
      "match_inv nb w (\<lambda>i. hit (name_at st1 i)) (set is \<union> insert i visited) st'" by blast
  have len': "length st' = length st1" using s'(2) by (rule same_shape_length)
  have "match_inv nb w (\<lambda>i. hit (name_at st i)) (set (i # is) \<union> visited) st'"
    using s'(3) match_inv_cong [of st' "\<lambda>i. hit (name_at st1 i)" "\<lambda>i. hit (name_at st i)"] nm len len'
    by simp
  then show ?case using s1 s' same_shape_trans by auto
qed auto

section \<open>Passes that write each image from its own fields\<close>

locale pointwise_pass =
  fixes body :: "nat \<Rightarrow> store \<Rightarrow> store"
    and new_status :: "image \<Rightarrow> status"
  assumes body_eq: "body i st = set_status i (new_status (st ! i)) st"
begin

lemma pass_shape: "same_shape st (fold body is st)"
proof (induction "is" arbitrary: st)
  case (Cons i "is")
  have "same_shape st (body i st)" by (simp add: body_eq [of i st])
  then show ?case using Cons [of "body i st"] same_shape_trans by simp
qed simp

lemma pass_status:
  assumes "distinct is" and "\<forall>i \<in> set is. i < length st" and "j < length st"
  shows "status_at (fold body is st) j = (if j \<in> set is then new_status (st ! j) else status_at st j)"
  using assms
proof (induction "is" arbitrary: st)
  case (Cons i "is")
  have b: "body i st = set_status i (new_status (st ! i)) st" by (rule body_eq)
  have "status_at (fold body is (body i st)) j =
      (if j \<in> set is then new_status (body i st ! j) else status_at (body i st) j)"
    by (rule Cons.IH) (use Cons.prems b in auto)
  then show ?case
    using Cons.prems by (auto simp: b nth_set_status)
qed simp

lemma pass_all:
  "j < length st \<Longrightarrow> status_at (fold body [0..<length st] st) j = new_status (st ! j)"
  by (simp add: pass_status)

end

lemma set_status_same: "status_at st i = s \<Longrightarrow> set_status i s st = st"
  by (cases "i < length st") (auto simp: set_status_def list_update_beyond)

interpretation any_pass:
  pointwise_pass match_any_image "\<lambda>im. if img_status im \<noteq> UNBUILDABLE then MATCHED else UNBUILDABLE"
  by unfold_locales (simp add: match_any_image_def set_status_same)

definition skipped_status :: "conf \<Rightarrow> (string \<Rightarrow> string list) \<Rightarrow> image \<Rightarrow> status" where
  "skipped_status c engine_list im =
     (if img_status im = MATCHED \<and>
         (conf_skip_existing c \<and> in_engine_cache engine_list im \<or>
          conf_skip_parents c \<and> img_children im \<noteq> [])
      then SKIPPED else img_status im)"

interpretation skip_pass:
  pointwise_pass "skip_image c engine_list" "skipped_status c engine_list" for c engine_list
  by unfold_locales (auto simp: skip_image_def skipped_status_def set_status_same)

section \<open>filter\_images meets its specification\<close>

lemma unbuildable_phase:
  assumes "ranked st depth" and "\<forall>i < length st. status_at st i = UNPROCESSED"
  shows "\<exists>st1. (if names \<noteq> [] then for_images (unbuildable_image names) [0..<length st] st else Some st)
      = Some st1 \<and> same_shape st st1 \<and>
    (\<forall>i < length st. status_at st1 i = (if not_buildable names st i then UNBUILDABLE else UNPROCESSED))"
proof (cases "names = []")
  case True
  then show ?thesis using assms(2) by (auto simp: not_buildable_def)
next
  case False
  obtain st1 where "for_images (unbuildable_image names) [0..<length st] st = Some st1" "same_shape st st1"
      "\<forall>i \<in> set [0..<length st]. not_buildable names st i \<longrightarrow> status_at st1 i = UNBUILDABLE"
      "\<forall>j < length st. status_at st1 j = status_at st j \<or>
         status_at st1 j = UNBUILDABLE \<and> not_buildable names st j"
    using unbuildable_pass [OF assms(1), of "[0..<length st]" names] assms(2) by auto
  with False assms(2) show ?thesis by (intro exI [of _ st1]) auto
qed

lemma wanted_self: "hit (name_at st i) \<Longrightarrow> i < length st \<Longrightarrow> \<not> not_buildable names st i \<Longrightarrow> wanted names hit st i"
  unfolding wanted_def using anc_self by blast

lemma matched_closed_ancestor:
  assumes "matched_closed {} st" and "ranked st depth"
  shows "ancestor st i j \<Longrightarrow> i < length st \<Longrightarrow> status_at st i = MATCHED \<Longrightarrow> status_at st j = MATCHED"
proof (induction rule: ancestor.induct)
  case (anc_parent i p j)
  then show ?case using assms rankedD(2) unfolding matched_closed_def by blast
qed

lemma match_phase:
  assumes "ranked st depth"
    and st1: "same_shape st st1"
      "\<forall>i < length st. status_at st1 i = (if not_buildable names st i then UNBUILDABLE else UNPROCESSED)"
  shows "\<exists>st2. for_images (match_image hit) [0..<length st] st1 = Some st2 \<and> same_shape st st2 \<and>
    (\<forall>i < length st. status_at st2 i =
       (if not_buildable names st i then UNBUILDABLE
        else if wanted names hit st i then MATCHED else UNMATCHED))"
proof -
  have len: "length st1 = length st" using st1(1) by (rule same_shape_length)
  have anc: "ancestor st1 j k \<longleftrightarrow> ancestor st j k" if "j < length st" for j k
    using ancestor_same_shape [OF st1(1) assms(1) that] .
  have nm: "name_at st1 j = name_at st j" if "j < length st" for j
    using same_shape_fields(1) [OF st1(1) that] .
  have rk1: "ranked st1 depth" using st1(1) assms(1) by (rule ranked_same_shape)
  let ?nb = "not_buildable names st" and ?w = "wanted names hit st"
  have inv1: "match_inv ?nb ?w (\<lambda>i. hit (name_at st1 i)) {} st1"
    unfolding match_inv_def matched_closed_def using st1(2) len by auto
  have up: "?nb i" if "i < length st1" "ancestor st1 i j" "?nb j" for i j
    using that anc not_buildable_ancestor len by simp
  have wh: "?w j" if "i < length st1" "hit (name_at st1 i)" "\<not> ?nb i" "ancestor st1 i j" for i j
    unfolding wanted_def using that anc nm len by (intro exI [of _ i]) simp
  have ids: "\<forall>i \<in> set [0..<length st]. i < length st1" using len by simp
  have "\<exists>st2. for_images (match_image hit) [0..<length st] st1 = Some st2 \<and> same_shape st1 st2 \<and>
      match_inv ?nb ?w (\<lambda>i. hit (name_at st1 i)) (set [0..<length st] \<union> {}) st2"
    by (rule match_pass [OF rk1 ids inv1]) (blast intro: up wh)+
  then obtain st2 where st2: "for_images (match_image hit) [0..<length st] st1 = Some st2" "same_shape st1 st2"
      and inv2: "match_inv ?nb ?w (\<lambda>i. hit (name_at st1 i)) (set [0..<length st] \<union> {}) st2"
    by blast
  have len2: "length st2 = length st" using st2(2) len same_shape_length by metis
  have shape: "same_shape st st2" using st1(1) st2(2) by (rule same_shape_trans)
  have rk2: "ranked st2 depth" using shape assms(1) by (rule ranked_same_shape)
  have "status_at st2 i = (if ?nb i then UNBUILDABLE else if ?w i then MATCHED else UNMATCHED)"
    if i: "i < length st" for i
  proof -
    have I: "(status_at st2 i = UNBUILDABLE \<longleftrightarrow> ?nb i) \<and> (status_at st2 i = MATCHED \<longrightarrow> ?w i \<and> \<not> ?nb i) \<and>
        (\<not> ?nb i \<longrightarrow> status_at st2 i \<in> {MATCHED, UNMATCHED} \<and> (hit (name_at st1 i) \<longrightarrow> status_at st2 i = MATCHED))"
      if "i < length st" for i
      using inv2 that len2 unfolding match_inv_def by auto
    have "status_at st2 i = MATCHED" if w: "?w i"
    proof -
      obtain d where d: "d < length st" "ancestor st d i" "hit (name_at st d)" "\<not> ?nb d"
        using w unfolding wanted_def by blast
      then have "status_at st2 d = MATCHED" using I [OF d(1)] nm [OF d(1)] by simp
      moreover have "ancestor st2 d i"
        using d ancestor_same_shape [OF shape assms(1), of d i] by simp
      moreover have "matched_closed {} st2" using inv2 by (simp add: match_inv_def)
      ultimately show ?thesis using matched_closed_ancestor [OF _ rk2, of d i] d(1) len2 by simp
    qed
    then show ?thesis
      using I [OF i] by (cases "?nb i"; cases "?w i") (blast | simp)+
  qed
  with st2(1) shape show ?thesis by blast
qed

definition pattern_hit :: "(string \<Rightarrow> string \<Rightarrow> bool) \<Rightarrow> string list \<Rightarrow> string \<Rightarrow> bool" where
  "pattern_hit re_search fs name \<longleftrightarrow> fs = [] \<or> re_search (joined_pattern fs) name"

lemma filter_images_meets_spec:
  assumes rk: "ranked st depth" and un: "\<forall>i < length st. status_at st i = UNPROCESSED"
    and pats: "filter_patterns c = Inr fs"
  shows "\<exists>st'. filter_images re_search engine_list c st = Some (Inr st') \<and> same_shape st st' \<and>
    (\<forall>i < length st. status_at st' i =
       status_spec (unbuildable_names c) (pattern_hit re_search fs) c engine_list st i)"
proof -
  let ?names = "unbuildable_names c" and ?hit = "pattern_hit re_search fs"
  let ?ids = "[0..<length st]"
  obtain st1 where ph1: "(if ?names \<noteq> [] then for_images (unbuildable_image ?names) ?ids st else Some st) = Some st1"
      and st1: "same_shape st st1"
        "\<forall>i < length st. status_at st1 i = (if not_buildable ?names st i then UNBUILDABLE else UNPROCESSED)"
    using unbuildable_phase [OF rk un] by blast
  have len1: "length st1 = length st" using st1(1) by (rule same_shape_length)
  have "\<exists>st2. (if fs \<noteq> [] then for_images (match_image (re_search (joined_pattern fs))) ?ids st1
        else Some (fold match_any_image ?ids st1)) = Some st2 \<and> same_shape st st2 \<and>
      (\<forall>i < length st. status_at st2 i =
       (if not_buildable ?names st i then UNBUILDABLE
        else if wanted ?names ?hit st i then MATCHED else UNMATCHED))"
  proof (cases "fs = []")
    case True
    have hit: "?hit = (\<lambda>_. True)" using True by (simp add: pattern_hit_def fun_eq_iff)
    have "status_at (fold match_any_image ?ids st1) i =
        (if not_buildable ?names st i then UNBUILDABLE
         else if wanted ?names ?hit st i then MATCHED else UNMATCHED)" if "i < length st" for i
      using any_pass.pass_all [of i st1] that st1(2) len1 wanted_self [of ?hit st i ?names] by (simp add: hit)
    moreover have "same_shape st (fold match_any_image ?ids st1)"
      using st1(1) any_pass.pass_shape by (rule same_shape_trans)
    ultimately show ?thesis using True by simp
  next
    case False
    then have "?hit = re_search (joined_pattern fs)" by (simp add: pattern_hit_def fun_eq_iff)
    with False match_phase [OF rk st1, of "re_search (joined_pattern fs)"] show ?thesis
      by (simp only: if_True not_False_eq_True simp_thms)
  qed
  then obtain st2 where ph2: "(if fs \<noteq> [] then for_images (match_image (re_search (joined_pattern fs))) ?ids st1
        else Some (fold match_any_image ?ids st1)) = Some st2"
      and st2: "same_shape st st2"
      "\<forall>i < length st. status_at st2 i =
       (if not_buildable ?names st i then UNBUILDABLE
        else if wanted ?names ?hit st i then MATCHED else UNMATCHED)" by blast
  have len2: "length st2 = length st" using st2(1) by (rule same_shape_length)
  let ?st3 = "fold (skip_image c engine_list) ?ids st2"
  have run: "filter_images re_search engine_list c st = Some (Inr ?st3)"
    using ph1 ph2 by (simp add: filter_images_def pats Let_def)
  have "status_at ?st3 i = status_spec ?names ?hit c engine_list st i" if i: "i < length st" for i
  proof -
    have "status_at ?st3 i = skipped_status c engine_list (st2 ! i)"
      using skip_pass.pass_all [of i st2] i len2 by simp
    then show ?thesis
      using st2(2) i same_shape_fields(2,4) [OF st2(1) i]
      by (auto simp: skipped_status_def status_spec_def in_engine_cache_def)
  qed
  moreover have "same_shape st ?st3" using st2(1) skip_pass.pass_shape by (rule same_shape_trans)
  ultimately show ?thesis using run by blast
qed

lemma not_buildable_child:
  "parent_at st i = Some p \<Longrightarrow> not_buildable names st p \<Longrightarrow> not_buildable names st i"
  unfolding not_buildable_def using anc_parent by blast

lemma wanted_parent:
  "parent_at st i = Some p \<Longrightarrow> wanted names hit st i \<Longrightarrow> wanted names hit st p"
  unfolding wanted_def using ancestor_step by blast

text \<open>Whenever the filter returns, it has changed nothing but statuses.\<close>

lemma unbuildable_walk_shape: "unbuildable_walk names st a = Some r \<Longrightarrow> same_shape st (snd r)"
  by (rule unbuildable_walk.raw_induct [of "\<lambda>names st a r. same_shape st (snd r)"])
    (auto simp: same_shape_set_status split: option.splits if_splits)

lemma match_ancestors_shape: "match_ancestors st a = Some st' \<Longrightarrow> same_shape st st'"
  by (rule match_ancestors.raw_induct [of "\<lambda>st a st'. same_shape st st'"])
    (auto intro: same_shape_trans [OF same_shape_set_status] split: option.splits if_splits)

lemma unbuildable_image_shape: "unbuildable_image names i st = Some st' \<Longrightarrow> same_shape st st'"
  by (auto simp: unbuildable_image_def same_shape_set_status split: if_splits option.splits prod.splits
      dest!: unbuildable_walk_shape intro: same_shape_set_status_right)

lemma match_image_shape: "match_image hit i st = Some st' \<Longrightarrow> same_shape st st'"
  by (auto simp: match_image_def same_shape_refl same_shape_set_status split: if_splits
      dest!: match_ancestors_shape intro: same_shape_trans [OF same_shape_set_status])

lemma for_images_shape:
  assumes "\<And>i st st'. f i st = Some st' \<Longrightarrow> same_shape st st'"
  shows "for_images f is st = Some st' \<Longrightarrow> same_shape st st'"
proof (induction "is" arbitrary: st)
  case (Cons i "is")
  then obtain st1 where "f i st = Some st1" "for_images f is st1 = Some st'"
    by (auto split: option.splits)
  with assms Cons.IH show ?case using same_shape_trans by blast
qed simp

lemma filter_images_shape:
  assumes "filter_images re_search engine_list c st = Some (Inr st')"
  shows "same_shape st st'"
proof -
  let ?ids = "[0..<length st]"
  obtain fs st1 st2 where
      st1: "(if unbuildable_names c \<noteq> [] then for_images (unbuildable_image (unbuildable_names c)) ?ids st else Some st) = Some st1"
    and st2: "(if fs \<noteq> [] then for_images (match_image (re_search (joined_pattern fs))) ?ids st1
        else Some (fold match_any_image ?ids st1)) = Some st2"
    and st': "st' = fold (skip_image c engine_list) ?ids st2"
    using assms by (auto simp: filter_images_def Let_def split: sum.splits option.splits)
  have "same_shape st st1"
    using st1 for_images_shape [OF unbuildable_image_shape] by (auto split: if_splits)
  moreover have "same_shape st1 st2"
    using st2 for_images_shape [OF match_image_shape] by (auto simp: any_pass.pass_shape split: if_splits)
  ultimately show ?thesis using st' skip_pass.pass_shape same_shape_trans by blast
qed

end
