(* ===== verification/Sample_Data.thy ===== *)
theory Sample_Data
  imports Build_Task Image_Filter
begin

text \<open>
  A small build, on which the properties are applied: five images (one of them built on an
  external image, one listed as unbuildable on Debian), a configuration and a world in which
  everything succeeds.
\<close>

definition sample_conf :: conf where
  "sample_conf =
     \<lparr>conf_regex = [], conf_profile = [''compute''],
      conf_profiles = (\<lambda>p. if p = ''compute'' then [''nova''] else []),
      conf_base = ''debian'', conf_base_arch = ''x86_64'', conf_debian_arch = ''amd64'',
      conf_enable_unbuildable = False, conf_skip_existing = False, conf_skip_parents = False,
      conf_push = True, conf_retries = 1, conf_threads = 2, conf_push_threads = 1,
      conf_allowed_to_fail = [''etcd''], conf_engine = DOCKER, conf_registry = None,
      conf_keep = False, conf_cache = True, conf_pull = True, conf_squash = False,
      conf_squash_cleanup = True, conf_squash_tmp_dir = None, conf_network_mode = ''host'',
      conf_platform = None, conf_build_args = [(''http_proxy'', ''p'')], conf_logs_dir = None,
      conf_format = ''json'', conf_summary_json_file = None\<rparr>"

definition sample_images :: store where
  "sample_images =
     [new_image ''base'' ''k/base'' ''/w/base'' ''debian:12'',
      new_image ''openstack-base'' ''k/openstack-base'' ''/w/openstack-base'' ''k/base'',
      new_image ''nova'' ''k/nova'' ''/w/nova'' ''k/openstack-base'',
      new_image ''etcd'' ''k/etcd'' ''/w/etcd'' ''k/base'',
      new_image ''hacluster-pcs'' ''k/hacluster-pcs'' ''/w/hacluster-pcs'' ''k/base'']"

definition sample_search :: "string \<Rightarrow> string \<Rightarrow> bool" where
  "sample_search pattern s \<longleftrightarrow> pattern = ''('' @ s @ '')''"

definition sample_source :: source_rec where
  "sample_source = \<lparr>src_type = ''url'', src_source = Some ''http://x'', src_name = ''nova'',
     src_reference = None, src_enabled = True, src_sha256 = [(''amd64'', ''d'')]\<rparr>"

definition sample_env :: env where
  "sample_env =
     \<lparr>env_http = (\<lambda>_. HttpReply 200 ''data''), env_sha256 = (\<lambda>_. ''d''),
      env_git = (\<lambda>_ _. GitDone), env_exists = (\<lambda>_. False), env_isdir = (\<lambda>_. False),
      env_writable = (\<lambda>_. True), env_copyfile = (\<lambda>_ _. True), env_mkdir = (\<lambda>_. MkdirDone),
      env_is_tarfile = (\<lambda>_. True), env_tar_names = (\<lambda>_. Some [''nova/setup.py'']),
      env_extracts = (\<lambda>_ _. True), env_cwd = ''/'',
      env_environ = [(''no_proxy'', ''n''), (''http_proxy'', ''q'')],
      env_build = (\<lambda>_. BuildStream [StreamText ''Step 1'']), env_auth_known = (\<lambda>_. False),
      env_push = (\<lambda>_. PushStream [PushText ''pushed'']), env_image_id = (\<lambda>_. Some ''id''),
      env_history = (\<lambda>_. Some []), env_squash = (\<lambda>_. True)\<rparr>"

text \<open>The forest of the sample, evaluated.\<close>

lemma sample_forest:
  "map img_parent (find_parents sample_images) = [None, Some 0, Some 1, Some 0, Some 0]"
  "map img_children (find_parents sample_images) = [[1, 3, 4], [2], [], [], []]"
  "map img_name (find_parents sample_images) = [''base'', ''openstack-base'', ''nova'', ''etcd'', ''hacluster-pcs'']"
  "map img_status (find_parents sample_images) = replicate 5 UNPROCESSED"
  by code_simp+

lemma sample_length: "length (find_parents sample_images) = 5"
  by (simp add: sample_images_def)

lemma sample_fresh: "fresh_store sample_images"
  by (simp add: fresh_store_def sample_images_def new_image_def)

lemma nth_of_map: "map f xs = ys \<Longrightarrow> i < length xs \<Longrightarrow> f (xs ! i) = ys ! i"
  by auto

lemma less_five: "(i::nat) < 5 \<Longrightarrow> i = 0 \<or> i = 1 \<or> i = 2 \<or> i = 3 \<or> i = 4"
  by linarith

lemma sample_ranked: "ranked (find_parents sample_images) (\<lambda>i. i)"
proof -
  have "p < 5 \<and> p < i" if i: "i < 5" and p: "img_parent (find_parents sample_images ! i) = Some p" for i p
    using nth_of_map [OF sample_forest(1), of i] less_five [OF i] p sample_length by auto
  then show ?thesis unfolding ranked_def sample_length by blast
qed

lemma sample_unprocessed:
  "\<forall>i < length (find_parents sample_images). status_at (find_parents sample_images) i = UNPROCESSED"
  by (simp add: find_parents_status fresh_storeD(1) [OF sample_fresh])

lemma sample_patterns: "filter_patterns sample_conf = Inr [''nova'']"
  by (simp add: filter_patterns_def sample_conf_def)

end
