(* ===== verification/Json_Text.thy ===== *)
theory Json_Text
  imports Kolla_Prelude
begin

text \<open>
  JSON as the standard library reads and writes it: the strings and the indented documents that
  \<open>json.dump\<close> writes, and the reader \<open>json.loads\<close> with the values it returns. There strings are
  lists of code points, for an escape can name any of them. A number is kept as its text, of which
  Python makes an \<open>int\<close> or a \<open>float\<close>. Lists and objects that are nested deeper than the stack allows raise
  a \<open>RecursionError\<close>, which is no \<open>ValueError\<close>.
\<close>

section \<open>Writing\<close>

text \<open>A string with \<open>ensure\_ascii\<close>: all but the printable characters of ASCII are escaped.\<close>

definition hex_digit :: "nat \<Rightarrow> char" where
  "hex_digit n = (if n < 10 then char_of (n + 48) else char_of (n + 87))"

definition json_char :: "char \<Rightarrow> string" where
  "json_char c =
     (let n = of_char c :: nat in
      if c = CHR 0x22 then [CHR 0x5C, c]
      else if c = CHR 0x5C then [CHR 0x5C, c]
      else if n = 10 then [CHR 0x5C, CHR ''n'']
      else if n = 13 then [CHR 0x5C, CHR ''r'']
      else if n = 9 then [CHR 0x5C, CHR ''t'']
      else if n = 12 then [CHR 0x5C, CHR ''f'']
      else if n = 8 then [CHR 0x5C, CHR ''b'']
      else if n < 32 \<or> 126 < n then [CHR 0x5C, CHR ''u'', CHR ''0'', CHR ''0'', hex_digit (n div 16), hex_digit (n mod 16)]
      else [c])"

definition json_string :: "string \<Rightarrow> string" where
  "json_string s = [CHR 0x22] @ concat (map json_char s) @ [CHR 0x22]"

text \<open>An object or a list in the depth of an indented document, of the items' texts.\<close>

definition indent :: "nat \<Rightarrow> string" where
  "indent depth = CHR 0x0A # replicate (4 * depth) (CHR '' '')"

definition json_block :: "nat \<Rightarrow> char \<Rightarrow> char \<Rightarrow> string list \<Rightarrow> string" where
  "json_block depth opening closing items =
     (if items = [] then [opening, closing]
      else [opening] @ indent (depth + 1) @ py_join ('','' @ indent (depth + 1)) items @ indent depth @ [closing])"

section \<open>Values\<close>

datatype json =
    JNull | JTruth bool | JNumber string | JText "nat list" | JArray "json list"
  | JObject "(nat list \<times> json) list"

datatype json_error = DecodeError | TooDeep

text \<open>What a reader returns: a value and the text that follows, or an error.\<close>

type_synonym 'a json_read = "json_error + 'a \<times> string"

definition read_bind :: "'a json_read \<Rightarrow> ('a \<Rightarrow> string \<Rightarrow> 'b json_read) \<Rightarrow> 'b json_read" where
  "read_bind m k = (case m of Inl e \<Rightarrow> Inl e | Inr (x, r) \<Rightarrow> k x r)"

definition read_map :: "('a \<Rightarrow> 'b) \<Rightarrow> 'a json_read \<Rightarrow> 'b json_read" where
  "read_map f m = read_bind m (\<lambda>x r. Inr (f x, r))"

section \<open>Characters and strings\<close>

definition json_blank :: "char \<Rightarrow> bool" where
  "json_blank c \<longleftrightarrow> c = CHR '' '' \<or> c = CHR 0x09 \<or> c = CHR 0x0A \<or> c = CHR 0x0D"

definition skip_blanks :: "string \<Rightarrow> string" where
  "skip_blanks s = dropWhile json_blank s"

definition json_digit :: "char \<Rightarrow> bool" where
  "json_digit c \<longleftrightarrow> c \<in> set ''0123456789''"

definition json_hex :: "char \<Rightarrow> bool" where
  "json_hex c \<longleftrightarrow> c \<in> set ''0123456789abcdefABCDEF''"

definition hex_value :: "char \<Rightarrow> nat" where
  "hex_value c =
     (let n = of_char c :: nat in if n < 58 then n - 48 else if n < 71 then n - 55 else n - 87)"

definition hex_number :: "string \<Rightarrow> nat" where
  "hex_number ds = fold (\<lambda>c n. 16 * n + hex_value c) ds 0"

text \<open>The escapes of one letter.\<close>

definition json_escape :: "char \<Rightarrow> nat option" where
  "json_escape c =
     map_of [(CHR 0x22, 34), (CHR 0x5C, 92), (CHR ''/'', 47), (CHR ''b'', 8), (CHR ''f'', 12), (CHR ''n'', 10),
       (CHR ''r'', 13), (CHR ''t'', 9)] c"

text \<open>The code units of a string, from its opening quote to the closing one.\<close>

fun json_units :: "string \<Rightarrow> nat list json_read" where
  "json_units [] = Inl DecodeError"
| "json_units (c # cs) =
     (if c = CHR 0x22 then Inr ([], cs)
      else if c = CHR 0x5C
      then (case cs of
              [] \<Rightarrow> Inl DecodeError
            | d # ds \<Rightarrow>
                if d = CHR ''u''
                then (if 4 \<le> length ds \<and> list_all json_hex (take 4 ds)
                      then read_map ((#) (hex_number (take 4 ds))) (json_units (drop 4 ds)) else Inl DecodeError)
                else (case json_escape d of Some n \<Rightarrow> read_map ((#) n) (json_units ds) | None \<Rightarrow> Inl DecodeError))
      else if (of_char c :: nat) < 32 then Inl DecodeError
      else read_map ((#) (of_char c)) (json_units cs))"

text \<open>Two escapes that are a pair of surrogates name one code point.\<close>

definition high_surrogate :: "nat \<Rightarrow> bool" where
  "high_surrogate n \<longleftrightarrow> 55296 \<le> n \<and> n < 56320"

definition low_surrogate :: "nat \<Rightarrow> bool" where
  "low_surrogate n \<longleftrightarrow> 56320 \<le> n \<and> n < 57344"

fun join_surrogates :: "nat list \<Rightarrow> nat list" where
  "join_surrogates (h # l # ns) =
     (if high_surrogate h \<and> low_surrogate l then (65536 + 1024 * (h - 55296) + (l - 56320)) # join_surrogates ns
      else h # join_surrogates (l # ns))"
| "join_surrogates ns = ns"

definition json_text :: "string \<Rightarrow> nat list json_read" where
  "json_text s = read_map join_surrogates (json_units s)"

section \<open>Numbers and words\<close>

text \<open>What follows a fraction or an exponent, if there is one.\<close>

definition json_fraction :: "string \<Rightarrow> string" where
  "json_fraction s =
     (case s of
        c # d # cs \<Rightarrow> if c = CHR ''.'' \<and> json_digit d then dropWhile json_digit cs else s
      | _ \<Rightarrow> s)"

definition json_exponent :: "string \<Rightarrow> string" where
  "json_exponent s =
     (case s of
        c # cs \<Rightarrow>
          (let ds = (if cs \<noteq> [] \<and> (hd cs = CHR ''+'' \<or> hd cs = CHR ''-'') then tl cs else cs)
           in if (c = CHR ''e'' \<or> c = CHR ''E'') \<and> ds \<noteq> [] \<and> json_digit (hd ds) then dropWhile json_digit ds else s)
      | _ \<Rightarrow> s)"

definition after_number :: "string \<Rightarrow> string option" where
  "after_number s =
     (let t = (if py_startswith s ''-'' then tl s else s)
      in case t of
           [] \<Rightarrow> None
         | c # cs \<Rightarrow>
             if c = CHR ''0'' then Some (json_exponent (json_fraction cs))
             else if json_digit c then Some (json_exponent (json_fraction (dropWhile json_digit cs)))
             else None)"

definition json_number :: "string \<Rightarrow> json json_read" where
  "json_number s =
     (case after_number s of
        Some r \<Rightarrow> Inr (JNumber (take (length s - length r) s), r)
      | None \<Rightarrow> Inl DecodeError)"

fun json_word :: "(string \<times> json) list \<Rightarrow> string \<Rightarrow> json json_read" where
  "json_word [] s = json_number s"
| "json_word ((w, v) # ws) s = (if py_startswith s w then Inr (v, drop (length w) s) else json_word ws s)"

definition json_words :: "(string \<times> json) list" where
  "json_words = [(''null'', JNull), (''true'', JTruth True), (''false'', JTruth False), (''NaN'', JNumber ''NaN''),
     (''Infinity'', JNumber ''Infinity''), (''-Infinity'', JNumber ''-Infinity'')]"

section \<open>Lists and objects\<close>

text \<open>After an opening bracket: the closing one, or the parts of the list or object.\<close>

definition json_open :: "char \<Rightarrow> (string \<Rightarrow> 'a list json_read) \<Rightarrow> string \<Rightarrow> 'a list json_read" where
  "json_open close parts s =
     (case skip_blanks s of
        d # ds \<Rightarrow> if d = close then Inr ([], ds) else parts (d # ds)
      | [] \<Rightarrow> Inl DecodeError)"

text \<open>After a part: the closing bracket, or a comma and more parts.\<close>

definition json_next :: "char \<Rightarrow> (string \<Rightarrow> 'a list json_read) \<Rightarrow> string \<Rightarrow> 'a list json_read" where
  "json_next close parts s =
     (case skip_blanks s of
        d # ds \<Rightarrow> if d = close then Inr ([], ds) else if d = CHR '','' then parts (skip_blanks ds) else Inl DecodeError
      | [] \<Rightarrow> Inl DecodeError)"

text \<open>The name of a pair and its colon.\<close>

definition json_name :: "string \<Rightarrow> nat list json_read" where
  "json_name s =
     (case s of
        q # qs \<Rightarrow> if q = CHR 0x22
                  then read_bind (json_text qs) (\<lambda>name r. case skip_blanks r of
                         e # es \<Rightarrow> if e = CHR '':'' then Inr (name, skip_blanks es) else Inl DecodeError
                       | [] \<Rightarrow> Inl DecodeError)
                  else Inl DecodeError
      | [] \<Rightarrow> Inl DecodeError)"

text \<open>
  A value, the items of a list and the pairs of an object. The fuel bounds the length of the text,
  the depth is how many more lists and objects may be opened one inside another.
\<close>

fun json_value :: "nat \<Rightarrow> nat \<Rightarrow> string \<Rightarrow> json json_read"
  and json_items :: "nat \<Rightarrow> nat \<Rightarrow> string \<Rightarrow> json list json_read"
  and json_pairs :: "nat \<Rightarrow> nat \<Rightarrow> string \<Rightarrow> (nat list \<times> json) list json_read" where
  "json_value 0 depth s = Inl DecodeError"
| "json_value (Suc k) depth s =
     (case s of
        [] \<Rightarrow> Inl DecodeError
      | c # cs \<Rightarrow>
          if c = CHR 0x22 then read_map JText (json_text cs)
          else if c = CHR ''{''
          then (if depth = 0 then Inl TooDeep
                else read_map (\<lambda>ps. JObject (dict_update [] ps)) (json_open (CHR ''}'') (json_pairs k (depth - 1)) cs))
          else if c = CHR ''[''
          then (if depth = 0 then Inl TooDeep
                else read_map JArray (json_open (CHR '']'') (json_items k (depth - 1)) cs))
          else json_word json_words s)"
| "json_items 0 depth s = Inl DecodeError"
| "json_items (Suc k) depth s =
     read_bind (json_value k depth s) (\<lambda>v r. read_map ((#) v) (json_next (CHR '']'') (json_items k depth) r))"
| "json_pairs 0 depth s = Inl DecodeError"
| "json_pairs (Suc k) depth s =
     read_bind (json_name s) (\<lambda>name r. read_bind (json_value k depth r) (\<lambda>v t.
       read_map ((#) (name, v)) (json_next (CHR ''}'') (json_pairs k depth) t)))"

definition json_fuel :: "string \<Rightarrow> nat" where
  "json_fuel s = 2 * length s + 2"

fun json_exn :: "json_error \<Rightarrow> py_exn" where
  "json_exn DecodeError = ValueError ''no JSON''"
| "json_exn TooDeep = RecursionError"

definition json_loads :: "nat \<Rightarrow> string \<Rightarrow> py_exn + json" where
  "json_loads depth s =
     (case json_value (json_fuel s) depth (skip_blanks s) of
        Inl e \<Rightarrow> Inl (json_exn e)
      | Inr (v, r) \<Rightarrow> if skip_blanks r = [] then Inr v else Inl (ValueError ''extra data''))"

section \<open>Every reader consumes\<close>

text \<open>A reader that returns a value has read at least one character.\<close>

definition consumes :: "(string \<Rightarrow> 'a json_read) \<Rightarrow> bool" where
  "consumes f \<longleftrightarrow> (\<forall>s x r. f s = Inr (x, r) \<longrightarrow> length r < length s)"

lemma consumesD: "consumes f \<Longrightarrow> f s = Inr (x, r) \<Longrightarrow> length r < length s"
  unfolding consumes_def by blast

lemma read_bind_Inr:
  "read_bind m k = Inr (y, r) \<longleftrightarrow> (\<exists>x t. m = Inr (x, t) \<and> k x t = Inr (y, r))"
  by (auto simp: read_bind_def split: sum.splits)

lemma read_map_Inr: "read_map f m = Inr (y, r) \<longleftrightarrow> (\<exists>x. m = Inr (x, r) \<and> y = f x)"
  by (auto simp: read_map_def read_bind_Inr)

lemma read_map_simps [simp]: "read_map f (Inr (x, r)) = Inr (f x, r)" "read_map f (Inl e) = Inl e"
  by (simp_all add: read_map_def read_bind_def)

lemma read_bind_simps [simp]: "read_bind (Inr (x, r)) k = k x r" "read_bind (Inl e) k = Inl e"
  by (simp_all add: read_bind_def)

lemma read_bind_cong:
  "m = m' \<Longrightarrow> (\<And>x r. m' = Inr (x, r) \<Longrightarrow> k x r = k' x r) \<Longrightarrow> read_bind m k = read_bind m' k'"
  by (cases m') (auto simp: read_bind_def)

lemma skip_blanks_length: "length (skip_blanks s) \<le> length s"
  by (simp add: skip_blanks_def length_dropWhile_le)

lemma json_units_length: "json_units s = Inr (x, r) \<Longrightarrow> length r < length s"
proof (induction s arbitrary: x rule: json_units.induct)
  case (2 c cs)
  consider "c = CHR 0x22" | (esc) "c = CHR 0x5C" "c \<noteq> CHR 0x22" | (plain) "c \<noteq> CHR 0x5C" "c \<noteq> CHR 0x22" by blast
  then show ?case
  proof cases
    case esc
    then obtain d ds where cs: "cs = d # ds" using "2.prems" by (cases cs) auto
    with esc "2.prems" "2.IH"(1,2) [OF _ _ cs] show ?thesis
      by (fastforce simp: read_map_Inr split: if_splits option.splits)
  next
    case plain
    with "2.prems" "2.IH"(3) show ?thesis by (fastforce simp: read_map_Inr split: if_splits)
  qed (use "2.prems" in simp)
qed simp

lemma json_text_length: "json_text s = Inr (x, r) \<Longrightarrow> length r < length s"
  by (auto simp: json_text_def read_map_Inr json_units_length)

lemma json_fraction_length: "length (json_fraction s) \<le> length s"
  using length_dropWhile_le [of json_digit]
  by (auto simp: json_fraction_def split: list.splits intro: le_trans le_SucI)

lemma json_exponent_length: "length (json_exponent s) \<le> length s"
proof (cases s)
  case (Cons c cs)
  have "length (dropWhile json_digit cs) \<le> length cs" "length (dropWhile json_digit (tl cs)) \<le> length cs"
    using length_dropWhile_le [of json_digit "tl cs"] by (auto simp: length_dropWhile_le)
  then show ?thesis by (simp add: json_exponent_def Cons Let_def)
qed (simp add: json_exponent_def)

lemma after_number_length:
  assumes "after_number s = Some r"
  shows "length r < length s"
proof -
  have e: "length (json_exponent (json_fraction cs)) \<le> length cs" for cs
    using json_exponent_length json_fraction_length le_trans by blast
  obtain c cs where t: "(if py_startswith s ''-'' then tl s else s) = c # cs"
    using assms by (auto simp: after_number_def split: list.splits)
  have "length (c # cs) \<le> length s" unfolding t [symmetric] by simp
  moreover have "length r \<le> length cs"
    using assms e [of cs] e [of "dropWhile json_digit cs"] length_dropWhile_le [of json_digit cs]
    by (auto simp: after_number_def t split: if_splits)
  ultimately show ?thesis by simp
qed

lemma json_word_length:
  "list_all (\<lambda>(w, v). w \<noteq> []) ws \<Longrightarrow> json_word ws s = Inr (x, r) \<Longrightarrow> length r < length s"
  by (induction ws s rule: json_word.induct)
    (auto simp: json_number_def after_number_length py_startswith_prefix prefix_def split: if_splits option.splits)

lemma json_words_nonempty: "list_all (\<lambda>(w, v). w \<noteq> []) json_words"
  by (simp add: json_words_def)

lemma consumes_open:
  assumes "consumes parts"
  shows "consumes (json_open close parts)"
  unfolding consumes_def
proof (intro allI impI)
  fix s x r assume a: "json_open close parts s = Inr (x, r)"
  then obtain d ds where "skip_blanks s = d # ds" by (auto simp: json_open_def split: list.splits)
  with a consumesD [OF assms, of "d # ds" x r] skip_blanks_length [of s] show "length r < length s"
    by (auto simp: json_open_def split: if_splits)
qed

lemma consumes_next:
  assumes "consumes parts"
  shows "consumes (json_next close parts)"
  unfolding consumes_def
proof (intro allI impI)
  fix s x r assume a: "json_next close parts s = Inr (x, r)"
  then obtain d ds where s: "skip_blanks s = d # ds" by (auto simp: json_next_def split: list.splits)
  have "length r \<le> length ds"
    using a consumesD [OF assms, of "skip_blanks ds" x r] skip_blanks_length [of ds]
    by (auto simp: json_next_def s split: if_splits)
  then show "length r < length s" using skip_blanks_length [of s] by (simp add: s)
qed

lemma consumes_name: "consumes json_name"
  unfolding consumes_def
proof (intro allI impI)
  fix s x r assume a: "json_name s = Inr (x, r)"
  then obtain q qs where s: "s = q # qs" by (cases s) (auto simp: json_name_def)
  with a obtain name t where t: "json_text qs = Inr (name, t)"
      and rest: "(case skip_blanks t of e # es \<Rightarrow> if e = CHR '':'' then Inr (name, skip_blanks es) else Inl DecodeError
        | [] \<Rightarrow> Inl DecodeError) = Inr (x, r)"
    by (auto simp: json_name_def read_bind_Inr split: if_splits)
  then obtain e es where "skip_blanks t = e # es" "r = skip_blanks es" by (auto split: list.splits if_splits)
  with s t show "length r < length s"
    using json_text_length [of qs name t] skip_blanks_length [of t] skip_blanks_length [of es] by simp
qed

lemma json_consumes:
  "(\<forall>d. consumes (json_value k d)) \<and> (\<forall>d. consumes (json_items k d)) \<and> (\<forall>d. consumes (json_pairs k d))"
proof (induction k)
  case 0
  show ?case by (simp add: consumes_def)
next
  case (Suc k)
  then have v: "consumes (json_value k d)" and i: "consumes (json_items k d)" and p: "consumes (json_pairs k d)" for d
    by blast+
  have "length r < length s" if a: "json_value (Suc k) d s = Inr (x, r)" for d s x r
  proof (cases s)
    case (Cons c cs)
    show ?thesis
      using a json_word_length [OF json_words_nonempty, of s x r]
        consumesD [OF consumes_open [OF p]] consumesD [OF consumes_open [OF i]] json_text_length
      by (auto simp: Cons read_map_Inr split: if_splits intro: less_SucI)
  qed (use a in simp)
  then have "consumes (json_value (Suc k) d)" for d by (simp add: consumes_def del: json_value.simps)
  moreover have "length r < length s" if "json_items (Suc k) d s = Inr (x, r)" for d s x r
    using that consumesD [OF v] consumesD [OF consumes_next [OF i]]
    by (auto simp: read_bind_Inr read_map_Inr) (meson less_trans)
  then have "consumes (json_items (Suc k) d)" for d by (simp add: consumes_def del: json_items.simps)
  moreover have "length r < length s" if "json_pairs (Suc k) d s = Inr (x, r)" for d s x r
    using that consumesD [OF v] consumesD [OF consumes_next [OF p]] consumesD [OF consumes_name]
    by (auto simp: read_bind_Inr read_map_Inr) (meson less_trans)
  then have "consumes (json_pairs (Suc k) d)" for d by (simp add: consumes_def del: json_pairs.simps)
  ultimately show ?case by blast
qed

lemmas value_consumes = consumesD [OF json_consumes [THEN conjunct1, rule_format]]

lemmas name_consumes = consumesD [OF consumes_name]

section \<open>The fuel of the reader\<close>

lemma json_open_cong:
  assumes "\<And>t. length t \<le> length s \<Longrightarrow> p t = q t"
  shows "json_open close p s = json_open close q s"
  using assms skip_blanks_length [of s] by (auto simp: json_open_def split: list.splits)

lemma json_next_cong:
  assumes "\<And>t. length t < length s \<Longrightarrow> p t = q t"
  shows "json_next close p s = json_next close q s"
proof (cases "skip_blanks s")
  case (Cons d ds)
  have "length (skip_blanks ds) < length s"
    using skip_blanks_length [of s] skip_blanks_length [of ds] by (simp add: Cons)
  then show ?thesis by (simp add: json_next_def Cons assms)
qed (simp add: json_next_def)

text \<open>With twice the length of the text, more fuel changes nothing.\<close>

lemma json_fuel_step:
  "(\<forall>d s. 2 * length s + 1 \<le> k \<longrightarrow> json_value (Suc k) d s = json_value k d s) \<and>
   (\<forall>d s. 2 * length s + 2 \<le> k \<longrightarrow> json_items (Suc k) d s = json_items k d s) \<and>
   (\<forall>d s. 2 * length s + 1 \<le> k \<longrightarrow> json_pairs (Suc k) d s = json_pairs k d s)"
proof (induction k)
  case (Suc k)
  then have v: "2 * length s + 1 \<le> k \<Longrightarrow> json_value (Suc k) d s = json_value k d s"
    and i: "2 * length s + 2 \<le> k \<Longrightarrow> json_items (Suc k) d s = json_items k d s"
    and p: "2 * length s + 1 \<le> k \<Longrightarrow> json_pairs (Suc k) d s = json_pairs k d s" for d s by blast+
  have "json_value (Suc (Suc k)) d s = json_value (Suc k) d s" if "2 * length s + 1 \<le> Suc k" for d s
  proof (cases s)
    case (Cons c cs)
    have "json_open x (json_pairs (Suc k) e) cs = json_open x (json_pairs k e) cs"
      "json_open x (json_items (Suc k) e) cs = json_open x (json_items k e) cs" for x e
      using that by (auto simp: Cons intro!: json_open_cong p i simp del: json_items.simps json_pairs.simps)
    then show ?thesis by (simp add: Cons del: json_items.simps json_pairs.simps json_word.simps)
  qed simp
  moreover have "json_items (Suc (Suc k)) d s = json_items (Suc k) d s" if a: "2 * length s + 2 \<le> Suc k" for d s
  proof -
    have "json_value (Suc k) d s = json_value k d s" using a by (intro v) simp
    moreover have "json_next e (json_items (Suc k) d) r = json_next e (json_items k d) r"
      if "json_value k d s = Inr (x, r)" for x r e
      using a value_consumes [OF that] by (intro json_next_cong i) simp
    ultimately show ?thesis
      unfolding json_items.simps(2) [of "Suc k"] json_items.simps(2) [of k]
      by (intro read_bind_cong) (simp_all del: json_value.simps json_items.simps)
  qed
  moreover have "json_pairs (Suc (Suc k)) d s = json_pairs (Suc k) d s" if a: "2 * length s + 1 \<le> Suc k" for d s
  proof -
    have value_step: "json_value (Suc k) d r = json_value k d r" if "json_name s = Inr (name, r)" for name r
      using a name_consumes [OF that] by (intro v) simp
    have "json_next e (json_pairs (Suc k) d) t = json_next e (json_pairs k d) t"
      if "json_name s = Inr (name, r)" "json_value k d r = Inr (x, t)" for name r x t e
      using a name_consumes [OF that(1)] value_consumes [OF that(2)] by (intro json_next_cong p) simp
    then show ?thesis
      unfolding json_pairs.simps(2) [of "Suc k"] json_pairs.simps(2) [of k]
      by (intro read_bind_cong refl) (simp_all add: value_step del: json_value.simps json_pairs.simps)
  qed
  ultimately show ?case by blast
qed simp

lemma json_fuel_enough:
  "json_fuel s \<le> k \<Longrightarrow> json_value k d (skip_blanks s) = json_value (json_fuel s) d (skip_blanks s)"
proof (induction k rule: dec_induct)
  case (step n)
  then show ?case
    using json_fuel_step [of n] skip_blanks_length [of s] by (simp add: json_fuel_def del: json_value.simps)
qed simp

end
