(* ===== verification/Image_Report.thy ===== *)
theory Image_Report
  imports Json_Text Image_Model Py_Path "HOL-Library.List_Lexorder" "HOL-Library.Char_ord"
begin

text \<open>
  What the builder reports when it is done (\<open>kolla/image/kolla\_worker.py\<close>):
  \<open>get\_image\_statuses\<close> sorts the images by their status into six dictionaries, \<open>summary\<close> turns
  these into the lists of the final report, and \<open>main\<close> of \<open>kolla/cmd/build.py\<close> into the exit code.
\<close>

record statuses =
  st_bad :: "(string, status) dict"
  st_good :: "(string, status) dict"
  st_unmatched :: "(string, status) dict"
  st_skipped :: "(string, status) dict"
  st_unbuildable :: "(string, status) dict"
  st_allowed_to_fail :: "(string, status) dict"

definition no_statuses :: statuses where
  "no_statuses = \<lparr>st_bad = [], st_good = [], st_unmatched = [], st_skipped = [],
     st_unbuildable = [], st_allowed_to_fail = []\<rparr>"

definition any_statuses :: "statuses \<Rightarrow> bool" where
  "any_statuses ss \<longleftrightarrow> st_bad ss \<noteq> [] \<or> st_good ss \<noteq> [] \<or> st_unmatched ss \<noteq> [] \<or>
     st_skipped ss \<noteq> [] \<or> st_unbuildable ss \<noteq> [] \<or> st_allowed_to_fail ss \<noteq> []"

definition classify_image :: "conf \<Rightarrow> image \<Rightarrow> statuses \<Rightarrow> statuses" where
  "classify_image c im ss =
     (let name = img_name im; s = img_status im
      in if s = BUILT then ss\<lparr>st_good := dict_set name s (st_good ss)\<rparr>
         else if s = UNMATCHED then ss\<lparr>st_unmatched := dict_set name s (st_unmatched ss)\<rparr>
         else if s = SKIPPED then ss\<lparr>st_skipped := dict_set name s (st_skipped ss)\<rparr>
         else if s = UNBUILDABLE then ss\<lparr>st_unbuildable := dict_set name s (st_unbuildable ss)\<rparr>
         else if name \<in> set (conf_allowed_to_fail c)
         then ss\<lparr>st_allowed_to_fail := dict_set name s (st_allowed_to_fail ss)\<rparr>
         else ss\<lparr>st_bad := dict_set name s (st_bad ss)\<rparr>)"

text \<open>The six dictionaries are kept in the worker and filled once.\<close>

definition get_image_statuses :: "conf \<Rightarrow> store \<Rightarrow> statuses \<Rightarrow> statuses" where
  "get_image_statuses c st ss = (if any_statuses ss then ss else fold (classify_image c) st ss)"

section \<open>The summary\<close>

record results =
  res_built :: "string list"
  res_failed :: "(string \<times> string) list"
  res_not_matched :: "string list"
  res_skipped :: "string list"
  res_unbuildable :: "string list"

definition summary_results :: "statuses \<Rightarrow> results" where
  "summary_results ss =
     \<lparr>res_built = sort (dict_keys (st_good ss)),
      res_failed =
        map (\<lambda>(n, s). (n, status_value s))
          (sort_key fst (dict_update (st_bad ss) (st_allowed_to_fail ss))),
      res_not_matched = sort (dict_keys (st_unmatched ss)),
      res_skipped = sort (dict_keys (st_skipped ss)),
      res_unbuildable = sort (dict_keys (st_unbuildable ss))\<rparr>"

text \<open>
  The links to the logs of failed images that \<open>summary\<close> creates: the name of the link and its
  target, in the order of the report.
\<close>

definition failed_links :: "conf \<Rightarrow> statuses \<Rightarrow> (string \<times> string) list" where
  "failed_links c ss =
     (case conf_logs_dir c of
        None \<Rightarrow> []
      | Some dir \<Rightarrow>
          if dir = [] then []
          else map (\<lambda>(n, _). (path_join dir (''000_FAILED_'' @ n @ ''.log''), n @ ''.log''))
                 (filter (\<lambda>(_, s). s = ERROR)
                    (sort_key fst (dict_update (st_bad ss) (st_allowed_to_fail ss)))))"

datatype json_output = NoJson | JsonStdout | JsonFile string

definition summary_output :: "conf \<Rightarrow> json_output" where
  "summary_output c =
     (if conf_format c = ''json''
      then (case conf_summary_json_file c of
              None \<Rightarrow> JsonStdout
            | Some f \<Rightarrow> if f = [] then JsonStdout else JsonFile f)
      else NoJson)"

text \<open>The document of a report that is written to a file, with an indentation of four.\<close>

definition report_entries :: "results \<Rightarrow> (string \<times> (string \<times> string) list list) list" where
  "report_entries r =
     [(''built'', map (\<lambda>n. [(''name'', n)]) (res_built r)),
      (''failed'', map (\<lambda>(n, s). [(''name'', n), (''status'', s)]) (res_failed r)),
      (''not_matched'', map (\<lambda>n. [(''name'', n)]) (res_not_matched r)),
      (''skipped'', map (\<lambda>n. [(''name'', n)]) (res_skipped r)),
      (''unbuildable'', map (\<lambda>n. [(''name'', n)]) (res_unbuildable r))]"

definition dump_report :: "results \<Rightarrow> string" where
  "dump_report r =
     json_block 0 (CHR ''{'') (CHR ''}'') (map (\<lambda>(name, entries). json_string name @ '': '' @
       json_block 1 (CHR ''['') (CHR '']'') (map (\<lambda>entry.
         json_block 2 (CHR ''{'') (CHR ''}'') (map (\<lambda>(k, v). json_string k @ '': '' @ json_string v) entry)) entries))
       (report_entries r))"

section \<open>Listings\<close>

definition list_images :: "store \<Rightarrow> (nat \<times> string) list" where
  "list_images st =
     (let matched = filter (\<lambda>im. img_status im = MATCHED) st
      in map (\<lambda>k. (k + 1, img_name (matched ! k))) [0..<length matched])"

text \<open>\<open>save\_dependency\<close>: the nodes and the edges of the graph, in the order they are added.\<close>

definition dependency_nodes :: "store \<Rightarrow> string list" where
  "dependency_nodes st = map img_name (filter (\<lambda>im. img_status im = MATCHED) st)"

definition dependency_edges :: "store \<Rightarrow> (string \<times> string) list" where
  "dependency_edges st =
     concat (map (\<lambda>im. case img_parent im of None \<Rightarrow> [] | Some p \<Rightarrow> [(name_at st p, img_name im)])
       (filter (\<lambda>im. img_status im = MATCHED) st))"

section \<open>The exit code\<close>

text \<open>
  \<open>main\<close>: \<open>run\_build\<close> returns nothing, or the six dictionaries, or raises.
\<close>

fun cmd_main :: "py_exn + statuses option \<Rightarrow> py_exn + nat" where
  "cmd_main (Inr (Some ss)) = Inr (if st_bad ss \<noteq> [] then 1 else 0)"
| "cmd_main (Inr None) = Inr 0"
| "cmd_main (Inl TemplateSyntaxError) = Inr 1"
| "cmd_main (Inl e) = Inl e"

section \<open>Lemmas\<close>

definition status_class :: "conf \<Rightarrow> image \<Rightarrow> nat" where
  "status_class c im =
     (if img_status im = BUILT then 1 else if img_status im = UNMATCHED then 2
      else if img_status im = SKIPPED then 3 else if img_status im = UNBUILDABLE then 4
      else if img_name im \<in> set (conf_allowed_to_fail c) then 5 else 0)"

definition pick :: "nat \<Rightarrow> statuses \<Rightarrow> (string, status) dict" where
  "pick k ss = [st_bad ss, st_good ss, st_unmatched ss, st_skipped ss, st_unbuildable ss,
     st_allowed_to_fail ss] ! k"

lemma pick_simps [simp]:
  "pick 0 ss = st_bad ss" "pick (Suc 0) ss = st_good ss" "pick 2 ss = st_unmatched ss"
  "pick 3 ss = st_skipped ss" "pick 4 ss = st_unbuildable ss" "pick 5 ss = st_allowed_to_fail ss"
  by (simp_all add: pick_def)

lemma status_class_le: "status_class c im \<le> 5"
  by (simp add: status_class_def)

lemma status_class_cases: "k \<le> (5::nat) \<Longrightarrow> k = 0 \<or> k = Suc 0 \<or> k = 2 \<or> k = 3 \<or> k = 4 \<or> k = 5"
  by linarith

lemma pick_classify:
  "k \<le> 5 \<Longrightarrow> pick k (classify_image c im ss) =
     (if k = status_class c im then dict_set (img_name im) (img_status im) (pick k ss) else pick k ss)"
  by (drule status_class_cases)
    (auto simp: classify_image_def status_class_def Let_def)

lemma pick_classify_all:
  assumes "k \<le> 5"
  shows "pick k (fold (classify_image c) ims ss) =
    fold (\<lambda>im. dict_set (img_name im) (img_status im)) (filter (\<lambda>im. status_class c im = k) ims) (pick k ss)"
  by (induction ims arbitrary: ss) (auto simp: pick_classify [OF assms])

lemma any_no_statuses [simp]: "\<not> any_statuses no_statuses"
  by (simp add: any_statuses_def no_statuses_def)

lemma pick_no_statuses [simp]: "k \<le> 5 \<Longrightarrow> pick k no_statuses = []"
  by (drule status_class_cases) (auto simp: no_statuses_def)

lemma pick_get:
  assumes "k \<le> 5"
  shows "pick k (get_image_statuses c st no_statuses) =
    alist_dict.insert_all
      (map (\<lambda>im. (img_name im, img_status im)) (filter (\<lambda>im. status_class c im = k) st)) []"
  using assms
  by (simp add: get_image_statuses_def pick_classify_all alist_dict.insert_all_def fold_map comp_def)

lemma pick_get_keys:
  assumes "k \<le> 5"
  shows "set (dict_keys (pick k (get_image_statuses c st no_statuses))) =
    img_name ` {im \<in> set st. status_class c im = k}"
  unfolding pick_get [OF assms] alist_dict.keys_insert_all by (auto simp: image_iff)

lemma pick_get_distinct:
  "k \<le> 5 \<Longrightarrow> distinct (dict_keys (pick k (get_image_statuses c st no_statuses)))"
  by (simp add: pick_get alist_dict.insert_all_distinct_keys)

lemma pick_get_lookup:
  assumes "k \<le> 5" and "distinct (map img_name st)" and "im \<in> set st"
  shows "dict_get (pick k (get_image_statuses c st no_statuses)) (img_name im) =
    (if status_class c im = k then Some (img_status im) else None)"
proof -
  let ?ps = "map (\<lambda>im. (img_name im, img_status im)) (filter (\<lambda>im. status_class c im = k) st)"
  have d: "distinct (map fst ?ps)"
    using assms(2) by (simp add: comp_def distinct_map_filter)
  have get: "dict_get (pick k (get_image_statuses c st no_statuses)) (img_name im) = map_of ?ps (img_name im)"
    using d by (simp add: pick_get [OF assms(1)] alist_dict.lookup_insert_all map_of_rev_distinct
        split: option.splits)
  show ?thesis
  proof (cases "status_class c im = k")
    case True
    then have "(img_name im, img_status im) \<in> set ?ps" using assms(3) by auto
    with d True get show ?thesis by (simp add: map_of_is_SomeI)
  next
    case False
    have "img_name im \<notin> fst ` set ?ps"
      using False assms(2,3) by (auto dest: inj_onD [OF distinct_map [THEN iffD1, THEN conjunct2]])
    with False get show ?thesis by (metis map_of_eq_None_iff)
  qed
qed

end
