(* ===== verification/Image_Properties.thy ===== *)
theory Image_Properties
  imports Sample_Data Image_Report "HOL-Library.Multiset"
begin

text \<open>
  The properties of the images' side of the builder: the forest that \<open>find\_parents\<close> builds, the
  statuses that \<open>filter\_images\<close> writes and when it ends, and what the reports and the exit code
  say of the images. Each property is applied to the sample of \<open>Sample\_Data\<close>.
\<close>

section \<open>The forest\<close>

lemma map_of_indexed:
  assumes "distinct (map f xs)" and "p < length xs"
  shows "map_of (map (\<lambda>i. (f (xs ! i), i)) [0..<length xs]) k = Some p \<longleftrightarrow> f (xs ! p) = k"
proof -
  let ?ps = "map (\<lambda>i. (f (xs ! i), i)) [0..<length xs]"
  have "map fst ?ps = map f xs" by (rule nth_equalityI) simp_all
  then have "distinct (map fst ?ps)" using assms(1) by simp
  then have "map_of ?ps k = Some p \<longleftrightarrow> (k, p) \<in> set ?ps" by (rule map_of_eq_Some_iff)
  also have "\<dots> \<longleftrightarrow> f (xs ! p) = k" using assms(2) by (simp add: image_iff) blast
  finally show ?thesis .
qed

lemma sort_images_distinct_values:
  "distinct (map canonical_name st) \<Longrightarrow> dict_values (sort_images st) = [0..<length st]"
  by (simp add: sort_images_all comp_def)

text \<open>
  C14: Given images with distinct canonical names, the parent of an image after
  \<open>find\_parents\<close> is the image registered under the name its Dockerfile starts from, the
  children of an image are the images whose Dockerfiles start from it, in the order of the list,
  and parents and children agree.
\<close>

theorem find_parents_links:
  assumes "fresh_store st" and "distinct (map canonical_name st)" and "i < length st"
  shows "(\<forall>p. img_parent (find_parents st ! i) = Some p \<longleftrightarrow>
        p < length st \<and> canonical_name (st ! p) = parent_name (st ! i)) \<and>
    img_children (find_parents st ! i) =
      filter (\<lambda>c. parent_name (st ! c) = canonical_name (st ! i)) [0..<length st] \<and>
    forest_links (find_parents st)"
proof (intro conjI allI)
  have i: "i \<in> set (dict_values (sort_images st))"
    using assms by (simp add: sort_images_distinct_values)
  fix p
  have "img_parent (find_parents st ! i) = Some p \<longleftrightarrow>
      dict_get (sort_images st) (parent_name (st ! i)) = Some p"
    using find_parents_fields(1) [OF assms(1,3)] i by simp
  moreover have "p < length st" if "dict_get (sort_images st) (parent_name (st ! i)) = Some p"
    using that by (rule sort_images_get)
  ultimately show "img_parent (find_parents st ! i) = Some p \<longleftrightarrow>
      p < length st \<and> canonical_name (st ! p) = parent_name (st ! i)"
    using map_of_indexed [OF assms(2), of p "parent_name (st ! i)"]
    by (auto simp: sort_images_all [OF assms(2)])
  show "img_children (find_parents st ! i) =
      filter (\<lambda>c. parent_name (st ! c) = canonical_name (st ! i)) [0..<length st]"
    using find_parents_fields(2) [OF assms(1,3)] i by (simp add: sort_images_distinct_values [OF assms(2)])
  show "forest_links (find_parents st)" using assms(1) by (rule find_parents_forest)
qed

lemma sample_distinct: "distinct (map canonical_name sample_images)"
  by code_simp

theorem find_parents_links_witness:
  "img_children (find_parents sample_images ! 0) = [1, 3, 4] \<and>
   img_parent (find_parents sample_images ! 2) = Some 1"
proof -
  have len: "length sample_images = 5" by (simp add: sample_images_def)
  have "canonical_name (sample_images ! 1) = parent_name (sample_images ! 2)" by code_simp
  then have "img_parent (find_parents sample_images ! 2) = Some 1"
    using find_parents_links [OF sample_fresh sample_distinct, of 2] len by simp
  moreover have "filter (\<lambda>c. parent_name (sample_images ! c) = canonical_name (sample_images ! 0))
      [0..<length sample_images] = [1, 3, 4]" by code_simp
  then have "img_children (find_parents sample_images ! 0) = [1, 3, 4]"
    using find_parents_links [OF sample_fresh sample_distinct, of 0] len by simp
  ultimately show ?thesis by simp
qed

section \<open>The filter\<close>

text \<open>
  C3: On a forest of unprocessed images \<open>filter\_images\<close> returns, whatever the patterns, changes
  nothing but statuses, and gives every image the status of the specification: unbuildable when
  it or an ancestor is listed for this distribution and architecture, else unmatched unless it or
  something buildable built on it matches, else skipped when so configured, else matched.
\<close>

theorem filter_images_statuses:
  assumes "ranked st depth" and "\<forall>i < length st. status_at st i = UNPROCESSED"
    and "filter_patterns c = Inr fs"
  shows "\<exists>st'. filter_images re_search engine_list c st = Some (Inr st') \<and> same_shape st st' \<and>
    (\<forall>i < length st. status_at st' i =
       status_spec (unbuildable_names c) (pattern_hit re_search fs) c engine_list st i)"
  using assms by (rule filter_images_meets_spec)

theorem filter_images_statuses_witness:
  "\<exists>st'. filter_images sample_search (\<lambda>_. []) sample_conf (find_parents sample_images) = Some (Inr st') \<and>
     same_shape (find_parents sample_images) st' \<and>
     (\<forall>i < length (find_parents sample_images). status_at st' i =
       status_spec (unbuildable_names sample_conf) (pattern_hit sample_search [''nova'']) sample_conf
         (\<lambda>_. []) (find_parents sample_images) i)"
  by (rule filter_images_statuses [OF sample_ranked sample_unprocessed sample_patterns])

text \<open>
  The walk that marks the ancestors of a matching image ends on every store whose parents are
  images of the store, even when parents form a cycle.
\<close>

theorem match_ancestors_terminates:
  assumes "\<forall>i < length st. \<forall>p. parent_at st i = Some p \<longrightarrow> p < length st" and "a < length st"
  shows "\<exists>st'. match_ancestors st a = Some st'"
  using assms by (rule match_ancestors_ends)

definition cyclic_images :: store where
  "cyclic_images = find_parents
     [new_image ''a'' ''k/a'' ''/w/a'' ''k/b'', new_image ''b'' ''k/b'' ''/w/b'' ''k/a'']"

lemma cyclic_parents: "map img_parent cyclic_images = [Some 1, Some 0]"
  "map img_name cyclic_images = [''a'', ''b'']" "map img_status cyclic_images = replicate 2 UNPROCESSED"
  by code_simp+

lemma cyclic_length: "length cyclic_images = 2"
  by (simp add: cyclic_images_def)

theorem match_ancestors_terminates_witness: "\<exists>st'. match_ancestors cyclic_images 0 = Some st'"
proof (rule match_ancestors_terminates)
  show "\<forall>i < length cyclic_images. \<forall>p. parent_at cyclic_images i = Some p \<longrightarrow> p < length cyclic_images"
    using nth_of_map [OF cyclic_parents(1)] by (auto simp: cyclic_length less_2_cases_iff)
qed (simp add: cyclic_length)

text \<open>
  C30: The walk that looks for an unbuildable ancestor does not end on a cycle of parents with no
  unbuildable image on it: it has no result, where the walk of the matching pass has one.
\<close>

theorem unbuildable_walk_cycle:
  assumes "\<And>a. a \<in> C \<Longrightarrow> \<exists>p \<in> C. parent_at st a = Some p"
    and "\<And>a. a \<in> C \<Longrightarrow> name_at st a \<notin> set names \<and> status_at st a \<noteq> UNBUILDABLE"
    and "a \<in> C"
  shows "unbuildable_walk names st a = None"
  using assms by (rule unbuildable_walk_diverges)

theorem unbuildable_walk_cycle_witness: "unbuildable_walk [''x''] cyclic_images 0 = None"
proof (rule unbuildable_walk_cycle [where C = "{0, 1}"])
  fix a :: nat assume a: "a \<in> {0, 1}"
  show "\<exists>p \<in> {0, 1}. parent_at cyclic_images a = Some p"
    using a nth_of_map [OF cyclic_parents(1), of a] by (auto simp: cyclic_length)
  show "name_at cyclic_images a \<notin> set [''x''] \<and> status_at cyclic_images a \<noteq> UNBUILDABLE"
    using a nth_of_map [OF cyclic_parents(2), of a] nth_of_map [OF cyclic_parents(3), of a]
    by (auto simp: cyclic_length)
qed simp

text \<open>
  A key of \<open>UNBUILDABLE\_IMAGES\<close> matches the regular expression of \<open>filter\_images\<close> exactly
  when each of its parts between plus signs is the base distribution or the architecture.
\<close>

theorem tag_re_splits:
  assumes "CHR ''+'' \<notin> set base" and "CHR ''+'' \<notin> set arch"
  shows "rx_full (tag_re base arch) s = (set (py_split CHR ''+'' s) \<subseteq> {base, arch})"
  using tag_full_iff [OF assms] .

theorem tag_re_splits_witness:
  "rx_full (tag_re ''debian'' ''aarch64'') ''debian+aarch64'' =
     (set (py_split CHR ''+'' ''debian+aarch64'') \<subseteq> {''debian'', ''aarch64''})"
  by (rule tag_re_splits) simp_all

section \<open>The reports\<close>

text \<open>
  Of images with distinct names, every image is in exactly one of the six dictionaries of
  \<open>get\_image\_statuses\<close>, the one of its status and of \<open>allowed\_to\_fail\<close>, with its status.
\<close>

theorem image_statuses_partition:
  assumes "distinct (map img_name st)" and "im \<in> set st" and "k \<le> 5"
  shows "dict_get (pick k (get_image_statuses c st no_statuses)) (img_name im) =
    (if k = status_class c im then Some (img_status im) else None)"
  using pick_get_lookup [OF assms(3,1,2)] by auto

theorem image_statuses_partition_witness:
  "dict_get (pick 5 (get_image_statuses sample_conf
       [(new_image ''etcd'' ''k/etcd'' ''/w'' ''b'')\<lparr>img_status := ERROR\<rparr>] no_statuses)) ''etcd'' = Some ERROR"
  using image_statuses_partition [of "[(new_image ''etcd'' ''k/etcd'' ''/w'' ''b'')\<lparr>img_status := ERROR\<rparr>]"
      "(new_image ''etcd'' ''k/etcd'' ''/w'' ''b'')\<lparr>img_status := ERROR\<rparr>" 5 sample_conf]
  by (simp add: status_class_def sample_conf_def new_image_def)

text \<open>
  The exit code of \<open>kolla-build\<close> is 1 exactly when some image neither ended as built,
  unmatched, skipped or unbuildable nor is allowed to fail; an image left as building, unprocessed
  or matched counts as failed.
\<close>

theorem exit_code_of_images:
  "cmd_main (Inr (Some (get_image_statuses c st no_statuses))) =
     Inr (if \<exists>im \<in> set st. img_status im \<notin> {BUILT, UNMATCHED, SKIPPED, UNBUILDABLE} \<and>
            img_name im \<notin> set (conf_allowed_to_fail c) then 1 else 0)"
proof -
  have "set (dict_keys (st_bad (get_image_statuses c st no_statuses))) =
      img_name ` {im \<in> set st. status_class c im = 0}"
    using pick_get_keys [of 0 c st] by simp
  moreover have "d \<noteq> [] \<longleftrightarrow> set (dict_keys d) \<noteq> {}" for d :: "(string, status) dict" by simp
  ultimately have "st_bad (get_image_statuses c st no_statuses) \<noteq> [] \<longleftrightarrow>
      (\<exists>im \<in> set st. status_class c im = 0)"
    by (metis (mono_tags, lifting) empty_iff equals0I imageI image_is_empty mem_Collect_eq)
  then show ?thesis by (auto simp: status_class_def split: if_splits)
qed

definition reported_names :: "results \<Rightarrow> string list" where
  "reported_names r = res_built r @ map fst (res_failed r) @ res_not_matched r @ res_skipped r @ res_unbuildable r"

lemma insert_all_fresh:
  assumes "distinct (dict_keys d @ dict_keys e)"
  shows "alist_dict.insert_all e d = d @ e"
  using assms
proof (induction e arbitrary: d)
  case (Cons kv e)
  obtain k v where kv: "kv = (k, v)" by (cases kv)
  with Cons.prems have "dict_set k v d = d @ [(k, v)]" by (intro dict_set_fresh) auto
  moreover have "alist_dict.insert_all e (d @ [(k, v)]) = (d @ [(k, v)]) @ e"
    using Cons.prems kv by (intro Cons.IH) auto
  ultimately show ?case by (simp add: kv alist_dict.insert_all_def)
qed (simp add: alist_dict.insert_all_def)

lemma pick_get_eq:
  assumes "k \<le> 5" and "distinct (map img_name st)"
  shows "pick k (get_image_statuses c st no_statuses) =
    map (\<lambda>im. (img_name im, img_status im)) (filter (\<lambda>im. status_class c im = k) st)"
  using assms(2) by (simp add: pick_get [OF assms(1)] insert_all_fresh distinct_map_filter comp_def)

lemma mset_status_classes:
  "mset (concat (map (\<lambda>k. map img_name (filter (\<lambda>im. status_class c im = k) st)) [1, 0, 5, 2, 3, 4])) =
     mset (map img_name st)"
proof (induction st)
  case (Cons im st)
  have "status_class c im \<in> {0, 1, 2, 3, 4, 5}"
    using status_class_cases [OF status_class_le, of c im] by auto
  with Cons show ?case by auto
qed simp

text \<open>
  The summary of a build of images with distinct names names every image once and only once,
  and each of its five lists is sorted by name.
\<close>

theorem summary_names_every_image:
  assumes "distinct (map img_name st)"
  shows "mset (reported_names (summary_results (get_image_statuses c st no_statuses))) =
      mset (map img_name st) \<and>
    (let r = summary_results (get_image_statuses c st no_statuses)
     in sorted (res_built r) \<and> sorted (map fst (res_failed r)) \<and> sorted (res_not_matched r) \<and>
        sorted (res_skipped r) \<and> sorted (res_unbuildable r))"
proof
  let ?ss = "get_image_statuses c st no_statuses"
  let ?cl = "\<lambda>k. filter (\<lambda>im. status_class c im = k) st"
  let ?d = "\<lambda>k. map (\<lambda>im. (img_name im, img_status im)) (?cl k)"
  note eq = pick_get_eq [OF _ assms, of _ c]
  have parts: "st_bad ?ss = ?d 0" "st_good ?ss = ?d 1" "st_unmatched ?ss = ?d 2" "st_skipped ?ss = ?d 3"
      "st_unbuildable ?ss = ?d 4" "st_allowed_to_fail ?ss = ?d 5"
    using eq [of 0] eq [of 1] eq [of 2] eq [of 3] eq [of 4] eq [of 5] by simp_all
  have inj: "inj_on img_name (set st)" using assms by (simp add: distinct_map)
  then have "distinct (dict_keys (?d 0) @ dict_keys (?d 5))"
  proof -
    have keys: "dict_keys (?d k) = map img_name (?cl k)" for k by (simp add: comp_def)
    have "img_name im \<noteq> img_name im'" if "im \<in> set (?cl 0)" "im' \<in> set (?cl 5)" for im im'
      using that inj_onD [OF inj, of im im'] by auto
    then have "set (map img_name (?cl 0)) \<inter> set (map img_name (?cl 5)) = {}"
      unfolding set_map by blast
    then show ?thesis
      unfolding keys distinct_append by (simp only: distinct_map_filter [OF assms] simp_thms)
  qed
  then have upd: "dict_update (?d 0) (?d 5) = ?d 0 @ ?d 5"
    by (simp add: dict_update_insert_all insert_all_fresh)
  have failed: "map fst (res_failed (summary_results ?ss)) = map fst (sort_key fst (?d 0 @ ?d 5))"
    by (simp add: summary_results_def parts upd split_def comp_def)
  have "mset (reported_names (summary_results ?ss)) =
      mset (concat (map (\<lambda>k. map img_name (?cl k)) [1, 0, 5, 2, 3, 4]))"
    unfolding reported_names_def mset_append failed
    by (simp add: summary_results_def parts comp_def ac_simps multiset.map_comp)
  then show "mset (reported_names (summary_results ?ss)) = mset (map img_name st)"
    by (simp only: mset_status_classes)
  show "let r = summary_results ?ss
     in sorted (res_built r) \<and> sorted (map fst (res_failed r)) \<and> sorted (res_not_matched r) \<and>
        sorted (res_skipped r) \<and> sorted (res_unbuildable r)"
    unfolding Let_def failed by (simp add: summary_results_def)
qed

theorem summary_names_every_image_witness:
  "mset (reported_names (summary_results (get_image_statuses sample_conf sample_images no_statuses))) =
     mset (map img_name sample_images)"
proof -
  have "distinct (map img_name sample_images)" by code_simp
  from summary_names_every_image [OF this, where c = sample_conf] show ?thesis by (rule conjunct1)
qed

lemma dependency_nodes_iff:
  "n \<in> set (dependency_nodes st) \<longleftrightarrow> (\<exists>i < length st. status_at st i = MATCHED \<and> name_at st i = n)"
  by (auto simp: dependency_nodes_def in_set_conv_nth)

lemma dependency_edges_iff:
  "(a, b) \<in> set (dependency_edges st) \<longleftrightarrow>
     (\<exists>i < length st. status_at st i = MATCHED \<and> name_at st i = b \<and>
        (\<exists>p. parent_at st i = Some p \<and> name_at st p = a))"
proof -
  have "(a, b) \<in> set (dependency_edges st) \<longleftrightarrow>
      (\<exists>im \<in> set st. img_status im = MATCHED \<and> img_name im = b \<and>
        (\<exists>p. img_parent im = Some p \<and> name_at st p = a))"
    by (auto simp: dependency_edges_def split: option.splits) metis
  moreover have "(\<exists>im \<in> set st. Q im) \<longleftrightarrow> (\<exists>i < length st. Q (st ! i))" for Q
    by (metis in_set_conv_nth)
  ultimately show ?thesis by (simp only:)
qed

text \<open>
  When no image is skipped by configuration, the graph that \<open>save\_dependency\<close> writes after
  the filter is closed: both ends of every edge are nodes of the graph.
\<close>

theorem dependency_graph_closed:
  assumes "ranked st depth" and "\<forall>i < length st. status_at st i = UNPROCESSED"
    and "\<not> conf_skip_existing c" and "\<not> conf_skip_parents c"
    and "filter_images re_search engine_list c st = Some (Inr st')"
    and "(a, b) \<in> set (dependency_edges st')"
  shows "a \<in> set (dependency_nodes st') \<and> b \<in> set (dependency_nodes st')"
proof -
  obtain fs where fs: "filter_patterns c = Inr fs"
    using assms(5) by (cases "filter_patterns c") (auto simp: filter_images_def)
  let ?n = "unbuildable_names c" and ?h = "pattern_hit re_search fs"
  have shape: "same_shape st st'"
    and spec: "\<forall>i < length st. status_at st' i = status_spec ?n ?h c engine_list st i"
    using filter_images_meets_spec [OF assms(1,2) fs, of re_search engine_list] assms(5) by auto
  have len: "length st' = length st" using shape by (rule same_shape_length)
  obtain i p where i: "i < length st" "status_at st' i = MATCHED" "name_at st' i = b"
      and p: "parent_at st i = Some p" "name_at st' p = a"
    using assms(6) same_shape_fields(3) [OF shape] by (auto simp: dependency_edges_iff len)
  have pl: "p < length st" using rankedD(2) [OF assms(1) i(1) p(1)] .
  have "\<not> not_buildable ?n st i" "wanted ?n ?h st i"
    using spec i by (auto simp: status_spec_def split: if_splits)
  then have "\<not> not_buildable ?n st p" "wanted ?n ?h st p"
    using p(1) not_buildable_child wanted_parent by blast+
  then have "status_at st' p = MATCHED" using spec pl assms(3,4) by (simp add: status_spec_def)
  with i p(2) pl show ?thesis by (auto simp: dependency_nodes_iff len)
qed

theorem dependency_graph_closed_witness:
  "\<exists>st'. filter_images sample_search (\<lambda>_. []) sample_conf (find_parents sample_images) = Some (Inr st') \<and>
     (\<forall>(a, b) \<in> set (dependency_edges st'). a \<in> set (dependency_nodes st'))"
proof -
  have off: "\<not> conf_skip_existing sample_conf" "\<not> conf_skip_parents sample_conf"
    by (simp_all add: sample_conf_def)
  obtain st' where st': "filter_images sample_search (\<lambda>_. []) sample_conf (find_parents sample_images) = Some (Inr st')"
    using filter_images_meets_spec [OF sample_ranked sample_unprocessed sample_patterns] by blast
  then show ?thesis
    using dependency_graph_closed [OF sample_ranked sample_unprocessed off st'] by blast
qed

end
