(* ===== verification/Build_Task_Props.thy ===== *)
theory Build_Task_Props
  imports Build_Task
begin

text \<open>
  What a run of a task may change and what it must have done: the frame of every program of
  \<open>Build_Task\<close> (one image's status, and actions appended to the trace), the actions a build may take with all of
  their arguments and the checks that precede a download and an extraction, and when an image ends as built.
\<close>

section \<open>Frames\<close>

text \<open>The statuses that running a task can write.\<close>

definition run_status :: "status \<Rightarrow> bool" where
  "run_status s \<longleftrightarrow> s \<in> {CONNECTION_ERROR, PUSH_ERROR, ERROR, PARENT_ERROR, BUILT, BUILDING}"

definition touches :: "nat \<Rightarrow> tstate \<Rightarrow> tstate \<Rightarrow> bool" where
  "touches i ts ts' \<longleftrightarrow> same_shape (ts_images ts) (ts_images ts') \<and>
     (\<forall>j < length (ts_images ts).
        status_at (ts_images ts') j = status_at (ts_images ts) j \<or>
        j = i \<and> run_status (status_at (ts_images ts') j))"

interpretation touching: state_frame "touches i" for i
proof unfold_locales
  fix s show "touches i s s" by (simp add: touches_def)
next
  fix s t u assume st: "touches i s t" and tu: "touches i t u"
  then have "length (ts_images t) = length (ts_images s)"
    by (simp add: touches_def same_shape_length)
  with st tu show "touches i s u"
    unfolding touches_def using same_shape_trans by metis
qed

text \<open>The actions of a program all satisfy a predicate.\<close>

definition adds :: "(effect \<Rightarrow> bool) \<Rightarrow> tstate \<Rightarrow> tstate \<Rightarrow> bool" where
  "adds P ts ts' \<longleftrightarrow> (\<exists>es. ts_effects ts' = ts_effects ts @ es \<and> (\<forall>e \<in> set es. P e))"

interpretation adding: state_frame "adds P" for P
proof unfold_locales
  fix s :: tstate show "adds P s s" by (simp add: adds_def)
next
  fix s t u :: tstate assume "adds P s t" "adds P t u"
  then obtain es fs where "ts_effects t = ts_effects s @ es" "\<forall>e \<in> set es. P e"
      "ts_effects u = ts_effects t @ fs" "\<forall>e \<in> set fs. P e" unfolding adds_def by blast
  then show "adds P s u" unfolding adds_def by (intro exI [of _ "es @ fs"]) auto
qed

lemma touches_write_status: "run_status s \<Longrightarrow> p_within (touches i) (write_status i s)"
  unfolding write_status_def
  by (rule touching.within_modify) (auto simp: touches_def store_simps)

lemma touches_perform: "p_within (touches i) (perform e)"
  unfolding perform_def by (rule touching.within_modify) (simp add: touches_def)

lemma adds_write_status: "p_within (adds P) (write_status i s)"
  unfolding write_status_def by (rule adding.within_modify) (simp add: adds_def)

lemma adds_perform: "P e \<Longrightarrow> p_within (adds P) (perform e)"
  unfolding perform_def by (rule adding.within_modify) (simp add: adds_def)

lemma run_status_simps [simp]:
  "run_status ERROR" "run_status CONNECTION_ERROR" "run_status PUSH_ERROR"
  "run_status PARENT_ERROR" "run_status BUILT" "run_status BUILDING"
  by (simp_all add: run_status_def)

lemmas touch_intros = touching.within_intros touches_write_status touches_perform

lemma touches_perform_if: "p_within (touches i) (perform_if b p e)"
  by (simp add: perform_if_def touch_intros)

lemma touches_read_image: "p_within (touches i) (read_image j)"
  by (simp add: read_image_def touch_intros)

lemma touches_git_failed: "p_within (touches i) (git_failed i d b)"
  by (simp add: git_failed_def touch_intros touches_perform_if)

lemma touches_fetch_url: "p_within (touches i) (fetch_url c env i s dest)"
  by (auto simp: fetch_url_def Let_def intro!: touch_intros touches_perform_if
      split: http_reply.split option.split)

lemma touches_fetch_git: "p_within (touches i) (fetch_git env i s dest)"
  by (auto simp: fetch_git_def Let_def intro!: touch_intros touches_perform_if touches_git_failed
      split: git_reply.split option.split)

lemma touches_fetch_local: "p_within (touches i) (fetch_local env s dest)"
  by (auto simp: fetch_local_def Let_def intro!: touch_intros touches_perform_if split: option.split)

lemma touches_process_source: "p_within (touches i) (process_source c env i src)"
  by (auto simp: process_source_def Let_def
      intro!: touch_intros touches_fetch_url touches_fetch_git touches_fetch_local touches_read_image
      split: option.split)

lemma touches_collect: "p_within (touches i) (collect_archives c env i items archives)"
  by (induction items arbitrary: archives)
    (auto intro!: touch_intros touches_process_source touches_read_image)

lemma touches_malicious: "p_within (touches i) (test_malicious_tarball env a p)"
  by (auto simp: test_malicious_tarball_def intro!: touch_intros split: option.split)

lemma touches_archive: "p_within (touches i) (make_an_archive c env i items arcname)"
  by (auto simp: make_an_archive_def extract_archive_def Let_def
      intro!: touch_intros touches_collect touches_malicious touches_read_image touches_perform_if
      split: mkdir_reply.split)

lemma touches_squash: "p_within (touches i) (squash c env i)"
  by (auto simp: squash_def Let_def intro!: touch_intros touches_read_image split: option.split)

lemma touches_build_failed: "p_within (touches i) (build_failed c i)"
  by (auto simp: build_failed_def intro!: touch_intros split: engine.split)

lemma touches_engine_build: "p_within (touches i) (engine_build c env i)"
  by (auto simp: engine_build_def Let_def
      intro!: touch_intros touches_squash touches_build_failed touches_read_image
      split: engine.split build_reply.split stream_end.split)

lemma touches_try_archive: "p_within (touches i) (try_archive c env i items arcname)"
  by (auto simp: try_archive_def intro!: touch_intros touches_archive)

lemma touches_build_archives: "p_within (touches i) (build_archives c env i)"
  by (auto simp: build_archives_def intro!: touch_intros touches_try_archive touches_engine_build
      touches_read_image)

lemma touches_builder: "p_within (touches i) (builder c env i)"
  by (auto simp: builder_def intro!: touch_intros touches_process_source touches_build_archives
      touches_read_image split: option.split)

lemma touches_push_run: "p_within (touches i) (push_run c env i)"
  by (auto simp: push_run_def push_image_def intro!: touch_intros touches_read_image
      split: engine.split push_reply.split option.split)

section \<open>Permitted actions\<close>

text \<open>The sources an image declares: its own, its plugins and its additions.\<close>

definition declared_sources :: "image \<Rightarrow> source_rec set" where
  "declared_sources im = {s. Some s \<in> set (img_source im # img_plugins im @ img_additions im)}"

definition source_archive :: "image \<Rightarrow> source_rec \<Rightarrow> string" where
  "source_archive im s = path_join (img_path im) (src_name s @ ''-archive'')"

definition checksum_ok :: "conf \<Rightarrow> env \<Rightarrow> source_rec \<Rightarrow> string \<Rightarrow> bool" where
  "checksum_ok c env s content \<longleftrightarrow>
     src_sha256 s = [] \<or> map_of (src_sha256 s) (conf_debian_arch c) = Some (env_sha256 env content)"

definition safe_archive :: "env \<Rightarrow> string \<Rightarrow> string \<Rightarrow> bool" where
  "safe_archive env archive dir \<longleftrightarrow> env_is_tarfile env archive \<and>
     (\<exists>names. env_tar_names env archive = Some names \<and>
        (\<forall>n \<in> set names. py_startswith (path_abspath (env_cwd env) (path_join dir n)) dir))"

text \<open>An enabled source of the image of a given type, and the clone of a git source.\<close>

definition fetches :: "image \<Rightarrow> string \<Rightarrow> source_rec \<Rightarrow> bool" where
  "fetches im typ s \<longleftrightarrow> s \<in> declared_sources im \<and> src_enabled s \<and> src_type s = typ"

definition clone_of :: "image \<Rightarrow> source_rec \<Rightarrow> string \<Rightarrow> string" where
  "clone_of im s ref = source_archive im s @ ''-'' @ py_replace_char CHR ''/'' CHR ''-'' ref"

definition git_clone :: "image \<Rightarrow> source_rec \<Rightarrow> string \<Rightarrow> string \<Rightarrow> bool" where
  "git_clone im s ref dir \<longleftrightarrow> fetches im ''git'' s \<and> src_reference s = Some ref \<and> dir = clone_of im s ref"

text \<open>The two bundles of an image, with the directory each is gathered in and its archive.\<close>

definition bundles :: "image \<Rightarrow> (string \<times> source_dict list) list" where
  "bundles im = [(''plugins'', img_plugins im), (''additions'', img_additions im)]"

definition bundle_dir :: "image \<Rightarrow> string \<Rightarrow> string" where
  "bundle_dir im b = path_join (img_path im) b"

definition bundle_archive :: "image \<Rightarrow> string \<Rightarrow> string" where
  "bundle_archive im b = path_join (img_path im) (b @ ''-archive'')"

definition archive_of :: "image \<Rightarrow> source_dict list \<Rightarrow> string \<Rightarrow> bool" where
  "archive_of im items a \<longleftrightarrow> (\<exists>s. Some s \<in> set items \<and> src_enabled s \<and> a = source_archive im s)"

definition squashes :: "conf \<Rightarrow> env \<Rightarrow> image \<Rightarrow> string list \<Rightarrow> bool" where
  "squashes c env im cmds \<longleftrightarrow> conf_squash c \<and> conf_engine c = DOCKER \<and>
     (\<exists>image_id history.
        env_image_id env (canonical_name im) = Some image_id \<and> env_history env (parent_name im) = Some history \<and>
        parent_last_layer (parent_name im) history \<noteq> [] \<and>
        cmds = squash_command image_id (canonical_name im) (parent_last_layer (parent_name im) history)
                 (conf_squash_cleanup c) (conf_squash_tmp_dir c))"

text \<open>Every action of a build, with all of its arguments.\<close>

fun permitted :: "conf \<Rightarrow> env \<Rightarrow> image \<Rightarrow> effect \<Rightarrow> bool" where
  "permitted c env im (WriteFile dest content) =
     (\<exists>s. fetches im ''url'' s \<and> dest = source_archive im s \<and>
        env_http env (src_source s) = HttpReply 200 content \<and> checksum_ok c env s content)"
| "permitted c env im (RmTree dir) = (\<exists>s ref. git_clone im s ref dir)"
| "permitted c env im (GitClone url dir) = (\<exists>s ref. git_clone im s ref dir \<and> url = src_source s)"
| "permitted c env im (GitCheckout dir ref) = (\<exists>s. git_clone im s ref dir)"
| "permitted c env im (GitRemoveOrigin dir) = (\<exists>s ref. git_clone im s ref dir \<and> env_git env (src_source s) dir = GitDone)"
| "permitted c env im (TarDirectory dest dir arcname) =
     ((\<exists>s ref. git_clone im s ref dir \<and> env_git env (src_source s) dir = GitDone \<and>
         dest = source_archive im s \<and> arcname = path_basename dir) \<or>
      (\<exists>s. fetches im ''local'' s \<and> src_source s = Some dir \<and> env_isdir env dir \<and>
         dest = source_archive im s \<and> arcname = path_basename dir) \<or>
      (arcname \<in> fst ` set (bundles im) \<and> dir = bundle_dir im arcname \<and> dest = bundle_archive im arcname))"
| "permitted c env im (CopyFile src dest) =
     (\<exists>s. fetches im ''local'' s \<and> src_source s = Some src \<and> \<not> env_isdir env src \<and> dest = source_archive im s)"
| "permitted c env im (SetTimeZero dest) =
     (\<exists>s typ. fetches im typ s \<and> typ \<in> {''url'', ''git'', ''local''} \<and> dest = source_archive im s)"
| "permitted c env im (MakeDir dir) =
     (\<exists>b \<in> fst ` set (bundles im). dir = bundle_dir im b \<and> env_mkdir env dir = MkdirDone)"
| "permitted c env im (ExtractTar archive dir) =
     (safe_archive env archive dir \<and>
      (\<exists>(b, items) \<in> set (bundles im). archive_of im items archive \<and> dir = bundle_dir im b))"
| "permitted c env im (EngineBuild args) = (args = engine_build_args c env im)"
| "permitted c env im (EnginePush name auth) = False"
| "permitted c env im (DockerSquash cmds) = squashes c env im cmds"

text \<open>Relations between runs from a store of a fixed shape.\<close>

definition shaped :: "store \<Rightarrow> (tstate \<Rightarrow> tstate \<Rightarrow> bool) \<Rightarrow> tstate \<Rightarrow> tstate \<Rightarrow> bool" where
  "shaped st Q ts ts' \<longleftrightarrow>
     (same_shape st (ts_images ts) \<longrightarrow> same_shape st (ts_images ts') \<and> Q ts ts')"

lemma shaped_refl: "Q ts ts \<Longrightarrow> shaped st Q ts ts"
  by (simp add: shaped_def)

lemma shaped_trans:
  "(Q r s \<Longrightarrow> Q s t \<Longrightarrow> Q r t) \<Longrightarrow> shaped st Q r s \<Longrightarrow> shaped st Q s t \<Longrightarrow> shaped st Q r t"
  by (auto simp: shaped_def)

lemma same_shape_nth:
  assumes "same_shape st st'" and "i < length st"
  shows "st' ! i = (st ! i)\<lparr>img_status := status_at st' i\<rparr>"
  using same_shape_fields [OF assms] by simp

text \<open>Reading an image: what is read is the image of the fixed store but for its status.\<close>

lemma shaped_read_bind:
  assumes "i < length st" and "\<And>s. p_within (shaped st Q) (k ((st ! i)\<lparr>img_status := s\<rparr>))"
  shows "p_within (shaped st Q) (p_bind (read_image i) k)"
  unfolding p_within_def
proof
  fix ts
  show "shaped st Q ts (snd (p_bind (read_image i) k ts))"
  proof (cases "same_shape st (ts_images ts)")
    case True
    then have "ts_images ts ! i = (st ! i)\<lparr>img_status := status_at (ts_images ts) i\<rparr>"
      using assms(1) by (rule same_shape_nth)
    then show ?thesis
      using p_withinD [OF assms(2) [of "status_at (ts_images ts) i"], of ts]
      by (simp add: read_image_def p_gets_def p_bind_def)
  next
    case False
    then show ?thesis by (simp add: shaped_def)
  qed
qed

lemma shaped_store_bind:
  assumes "\<And>st'. same_shape st st' \<Longrightarrow> p_within (shaped st Q) (k st')"
  shows "p_within (shaped st Q) (p_bind (p_gets ts_images) k)"
  using assms by (auto simp: p_within_def p_bind_def p_gets_def shaped_def)

definition acts :: "store \<Rightarrow> (effect \<Rightarrow> bool) \<Rightarrow> tstate \<Rightarrow> tstate \<Rightarrow> bool" where
  "acts st P = shaped st (adds P)"

interpretation acting: state_frame "acts st P" for st P
  by unfold_locales
    (auto simp: acts_def intro: shaped_refl adding.frame_refl elim: shaped_trans [rotated] adding.frame_trans)

lemma acts_write_status: "p_within (acts st P) (write_status i s)"
  unfolding write_status_def
  by (rule acting.within_modify) (simp add: acts_def shaped_def adds_def same_shape_set_status_right)

lemma acts_perform: "P e \<Longrightarrow> p_within (acts st P) (perform e)"
  unfolding perform_def by (rule acting.within_modify) (simp add: acts_def shaped_def adds_def)

lemma acts_perform_if: "P e \<Longrightarrow> p_within (acts st P) (perform_if b p e)"
  by (simp add: perform_if_def acting.within_intros acts_perform)

lemmas acts_read_bind = shaped_read_bind [where Q = "adds P" for P, folded acts_def]

lemmas acts_store_bind = shaped_store_bind [where Q = "adds P" for P, folded acts_def]

lemmas act_intros = acting.within_intros acts_write_status acts_perform acts_perform_if

text \<open>Programs whose result satisfies a predicate when they return.\<close>

definition gives :: "store \<Rightarrow> (effect \<Rightarrow> bool) \<Rightarrow> ('a \<Rightarrow> bool) \<Rightarrow> 'a task_prog \<Rightarrow> bool" where
  "gives st P Q m \<longleftrightarrow> p_within (acts st P) m \<and>
     (\<forall>ts r ts'. same_shape st (ts_images ts) \<longrightarrow> m ts = (Inr r, ts') \<longrightarrow> Q r)"

lemma gives_acts: "gives st P Q m \<Longrightarrow> p_within (acts st P) m"
  by (simp add: gives_def)

lemma gives_return: "Q x \<Longrightarrow> gives st P Q (p_return x)"
  using act_intros by (simp add: gives_def) (simp add: p_return_def)

lemma gives_raise: "gives st P Q (p_raise e)"
  using act_intros by (simp add: gives_def) (simp add: p_raise_def)

lemma gives_any: "p_within (acts st P) m \<Longrightarrow> gives st P (\<lambda>_. True) m"
  by (simp add: gives_def)

lemma acts_shape: "p_within (acts st P) m \<Longrightarrow> same_shape st (ts_images ts) \<Longrightarrow> m ts = (r, ts') \<Longrightarrow> same_shape st (ts_images ts')"
  using p_within_run [of "acts st P" m ts r ts'] by (simp add: acts_def shaped_def)

lemma acts_gives_bind:
  assumes m: "gives st P Q m" and k: "\<And>x. Q x \<Longrightarrow> p_within (acts st P) (k x)"
  shows "p_within (acts st P) (p_bind m k)"
  unfolding p_within_def
proof
  fix ts
  obtain r ts' where run: "m ts = (r, ts')" by (cases "m ts")
  then have step: "acts st P ts ts'" using gives_acts [OF m] p_within_run by metis
  show "acts st P ts (snd (p_bind m k ts))"
  proof (cases r)
    case (Inl e)
    with run step show ?thesis by (simp add: p_bind_def)
  next
    case (Inr x)
    show ?thesis
    proof (cases "same_shape st (ts_images ts)")
      case True
      with m run Inr have "Q x" by (simp add: gives_def)
      from acting.frame_trans [OF step p_withinD [OF k [OF this], of ts']] run Inr show ?thesis
        by (simp add: p_bind_def)
    qed (simp add: acts_def shaped_def)
  qed
qed

lemma gives_bind:
  assumes m: "gives st P Q m" and k: "\<And>x. Q x \<Longrightarrow> gives st P Q' (k x)"
  shows "gives st P Q' (p_bind m k)"
  unfolding gives_def
proof (intro conjI allI impI)
  show "p_within (acts st P) (p_bind m k)"
    using k by (intro acts_gives_bind [OF m] gives_acts)
next
  fix ts r ts'
  assume ts: "same_shape st (ts_images ts)" and run: "p_bind m k ts = (Inr r, ts')"
  obtain x us where x: "m ts = (Inr x, us)" "k x us = (Inr r, ts')"
    using run by (auto simp: p_bind_def split: prod.splits sum.splits)
  have "Q x" using m ts x(1) by (simp add: gives_def)
  moreover have "same_shape st (ts_images us)" using acts_shape [OF gives_acts [OF m] ts x(1)] .
  ultimately show "Q' r" using k x(2) by (simp add: gives_def)
qed

lemma gives_read_bind:
  assumes i: "i < length st" and k: "\<And>s. gives st P Q (k ((st ! i)\<lparr>img_status := s\<rparr>))"
  shows "gives st P Q (p_bind (read_image i) k)"
  unfolding gives_def
proof (intro conjI allI impI)
  show "p_within (acts st P) (p_bind (read_image i) k)"
    using k by (intro acts_read_bind [OF i] gives_acts)
next
  fix ts r ts'
  assume ts: "same_shape st (ts_images ts)" and "p_bind (read_image i) k ts = (Inr r, ts')"
  then have "k ((st ! i)\<lparr>img_status := status_at (ts_images ts) i\<rparr>) ts = (Inr r, ts')"
    using same_shape_nth [OF ts i] by (simp add: read_image_def p_gets_def p_bind_def)
  with k ts show "Q r" unfolding gives_def by blast
qed

text \<open>The permissions of one image, for its sources.\<close>

lemma acts_fetch_url:
  assumes "fetches im ''url'' s"
  shows "p_within (acts st (permitted c env im)) (fetch_url c env i s (source_archive im s))"
proof (cases "env_http env (src_source s)")
  case (HttpReply code content)
  show ?thesis
  proof (cases "code = 200 \<and> checksum_ok c env s content")
    case True
    then have "permitted c env im (WriteFile (source_archive im s) content)"
      using assms HttpReply by auto
    with HttpReply show ?thesis
      by (auto simp: fetch_url_def Let_def simp del: permitted.simps intro!: act_intros split: option.split)
  next
    case False
    with HttpReply show ?thesis
      by (auto simp: fetch_url_def Let_def checksum_ok_def intro!: act_intros split: option.split)
  qed
qed (auto simp: fetch_url_def intro!: act_intros)

lemma acts_git_failed:
  "permitted c env im (RmTree d) \<Longrightarrow>
     p_within (acts st (permitted c env im)) (git_failed i d b)"
  by (auto simp: git_failed_def simp del: permitted.simps intro!: act_intros)

lemma acts_fetch_git:
  assumes git: "fetches im ''git'' s"
  shows "p_within (acts st (permitted c env im)) (fetch_git env i s (source_archive im s))"
proof (cases "src_reference s")
  case None
  then show ?thesis by (simp add: fetch_git_def act_intros)
next
  case (Some ref)
  let ?d = "source_archive im s @ ''-'' @ py_replace_char CHR ''/'' CHR ''-'' ref"
  have clone: "git_clone im s ref ?d"
    using git Some by (simp add: git_clone_def clone_of_def)
  have calls: "permitted c env im (RmTree ?d)" "permitted c env im (GitClone (src_source s) ?d)"
      "permitted c env im (GitCheckout ?d ref)"
    using clone by auto
  have kept: "permitted c env im (GitRemoveOrigin ?d)"
      "permitted c env im (TarDirectory (source_archive im s) ?d (path_basename ?d))"
    if "env_git env (src_source s) ?d = GitDone"
    using clone that by auto
  show ?thesis
    using Some calls kept
    by (auto simp: fetch_git_def Let_def simp del: permitted.simps
        intro!: act_intros acts_git_failed split: git_reply.split)
qed

lemma acts_fetch_local:
  assumes "fetches im ''local'' s"
  shows "p_within (acts st (permitted c env im)) (fetch_local env s (source_archive im s))"
proof (cases "src_source s")
  case None
  then show ?thesis by (simp add: fetch_local_def act_intros)
next
  case (Some src)
  have "env_isdir env src \<Longrightarrow> permitted c env im (TarDirectory (source_archive im s) src (path_basename src))"
      "\<not> env_isdir env src \<Longrightarrow> permitted c env im (CopyFile src (source_archive im s))"
    using assms Some by auto
  with Some show ?thesis
    by (auto simp: fetch_local_def Let_def simp del: permitted.simps intro!: act_intros)
qed

lemma gives_process_source:
  assumes i: "i < length st"
    and src: "\<And>s. source = Some s \<Longrightarrow> s \<in> declared_sources (st ! i)"
  shows "gives st (permitted c env (st ! i))
    (\<lambda>r. \<forall>a. r = Some a \<longrightarrow> (\<exists>s. source = Some s \<and> src_enabled s \<and> a = source_archive (st ! i) s))
    (process_source c env i source)"
proof (cases "source")
  case None
  then show ?thesis by (simp add: process_source_def gives_raise)
next
  case (Some s)
  have dest: "path_join (img_path ((st ! i)\<lparr>img_status := x\<rparr>)) (src_name s @ ''-archive'') = source_archive (st ! i) s" for x
    by (simp add: source_archive_def)
  have of_type: "fetches (st ! i) (src_type s) s" if "src_enabled s"
    using src [OF Some] that by (simp add: fetches_def)
  let ?fetch = "if src_type s = ''url'' then fetch_url c env i s (source_archive (st ! i) s)
    else if src_type s = ''git'' then fetch_git env i s (source_archive (st ! i) s)
    else if src_type s = ''local'' then fetch_local env s (source_archive (st ! i) s)
    else p_then (write_status i ERROR) (p_return False)"
  have fetch: "gives st (permitted c env (st ! i)) (\<lambda>go_on. go_on \<longrightarrow> src_type s \<in> {''url'', ''git'', ''local''}) ?fetch"
    if "src_enabled s"
  proof (cases "src_type s \<in> {''url'', ''git'', ''local''}")
    case True
    with of_type [OF that] show ?thesis
      by (auto simp: gives_def intro!: acts_fetch_url acts_fetch_git acts_fetch_local)
  next
    case False
    have "gives st (permitted c env (st ! i)) Not (p_then (write_status i ERROR) (p_return False))"
      unfolding p_then_def by (rule gives_bind [OF gives_any [OF acts_write_status]]) (simp add: gives_return)
    with False show ?thesis by simp
  qed
  have "permitted c env (st ! i) (SetTimeZero (source_archive (st ! i) s))"
    if "src_enabled s" "src_type s \<in> {''url'', ''git'', ''local''}"
    using of_type [OF that(1)] that(2) by auto
  then have rest: "gives st (permitted c env (st ! i))
      (\<lambda>r. \<forall>a. r = Some a \<longrightarrow> (\<exists>s. source = Some s \<and> src_enabled s \<and> a = source_archive (st ! i) s))
      (if go_on then p_then (perform (SetTimeZero (source_archive (st ! i) s))) (p_return (Some (source_archive (st ! i) s)))
       else p_return None)"
    if "src_enabled s" "go_on \<longrightarrow> src_type s \<in> {''url'', ''git'', ''local''}" for go_on
    using that Some
    by (auto simp: p_then_def simp del: permitted.simps intro!: gives_bind [OF gives_any [OF acts_perform]] gives_return)
  show ?thesis
  proof (cases "src_enabled s")
    case True
    show ?thesis
      unfolding process_source_def Some option.case
      by (simp only: True not_True_eq_False if_False)
        (rule gives_read_bind [OF i], unfold Let_def dest, rule gives_bind [OF fetch [OF True] rest [OF True, unfolded Some]])
  next
    case False
    with Some show ?thesis by (simp add: process_source_def gives_return)
  qed
qed

lemma acts_process_source:
  assumes "i < length st" and "\<And>s. source = Some s \<Longrightarrow> s \<in> declared_sources (st ! i)"
  shows "p_within (acts st (permitted c env (st ! i))) (process_source c env i source)"
  by (rule gives_acts [OF gives_process_source [OF assms]])

text \<open>The archives that are collected are those of enabled sources among the items.\<close>

lemma gives_collect:
  assumes i: "i < length st"
    and src: "\<And>s. Some s \<in> set items \<Longrightarrow> s \<in> declared_sources (st ! i)"
    and some: "set rest \<subseteq> set items" and old: "\<forall>a \<in> set archives. archive_of (st ! i) items a"
  shows "gives st (permitted c env (st ! i)) (\<lambda>as. \<forall>a \<in> set as. archive_of (st ! i) items a)
    (collect_archives c env i rest archives)"
  using some old
proof (induction rest arbitrary: archives)
  case Nil
  then show ?case by (simp add: gives_return)
next
  case (Cons item rest)
  have item: "gives st (permitted c env (st ! i))
      (\<lambda>r. \<forall>a. r = Some a \<longrightarrow> (\<exists>s. item = Some s \<and> src_enabled s \<and> a = source_archive (st ! i) s))
      (process_source c env i item)"
    using Cons.prems(1) by (intro gives_process_source [OF i] src) auto
  have new: "\<forall>a \<in> set (case archive of Some a \<Rightarrow> if a \<noteq> [] then archives @ [a] else archives | None \<Rightarrow> archives).
      archive_of (st ! i) items a"
    if "\<forall>a. archive = Some a \<longrightarrow> (\<exists>s. item = Some s \<and> src_enabled s \<and> a = source_archive (st ! i) s)" for archive
    using that Cons.prems by (auto simp: archive_of_def split: option.split)
  show ?case
    unfolding collect_archives.simps
    using Cons.prems(1)
    by (auto intro!: gives_bind [OF item] gives_read_bind [OF i] gives_raise Cons.IH new)
qed

lemma acts_extract:
  assumes "(b, items) \<in> set (bundles im)" and "archive_of im items archive"
  shows "p_within (acts st (permitted c env im)) (extract_archive env (bundle_dir im b) archive)"
proof (cases "env_is_tarfile env archive")
  case tar: True
  let ?dir = "bundle_dir im b"
  show ?thesis
  proof (cases "safe_archive env archive ?dir")
    case True
    with assms have "permitted c env im (ExtractTar archive ?dir)" by auto
    then have "p_within (acts st (permitted c env im)) (perform (ExtractTar archive ?dir))"
      by (rule acts_perform)
    with tar show ?thesis
      by (auto simp: extract_archive_def test_malicious_tarball_def intro!: act_intros
          split: option.split)
  next
    case False
    show ?thesis
    proof (cases "env_tar_names env archive")
      case None
      then show ?thesis
        by (simp add: extract_archive_def test_malicious_tarball_def tar p_within_def p_then_def
            p_bind_def p_raise_def acting.frame_refl)
    next
      case (Some names)
      with False tar have "\<exists>n \<in> set names. unsafe_name (env_cwd env) ?dir n"
        by (auto simp: safe_archive_def unsafe_name_def)
      with Some show ?thesis
        by (simp add: extract_archive_def test_malicious_tarball_def tar p_within_def p_then_def
            p_bind_def p_raise_def acting.frame_refl)
    qed
  qed
qed (simp add: extract_archive_def act_intros)

lemma bundles_status [simp]:
  "bundles (im\<lparr>img_status := s\<rparr>) = bundles im" "bundle_dir (im\<lparr>img_status := s\<rparr>) b = bundle_dir im b"
  "bundle_archive (im\<lparr>img_status := s\<rparr>) b = bundle_archive im b"
  by (simp_all add: bundles_def bundle_dir_def bundle_archive_def)

lemma acts_archive:
  assumes i: "i < length st" and items: "(b, items) \<in> set (bundles (st ! i))"
  shows "p_within (acts st (permitted c env (st ! i))) (make_an_archive c env i items b)"
proof -
  let ?im = "st ! i"
  have src: "s \<in> declared_sources ?im" if "Some s \<in> set items" for s
    using that items by (auto simp: declared_sources_def bundles_def)
  have collected: "gives st (permitted c env ?im) (\<lambda>as. \<forall>a \<in> set as. archive_of ?im items a)
      (collect_archives c env i items [])"
    by (rule gives_collect [OF i src]) auto
  have b: "b \<in> fst ` set (bundles ?im)" using items by force
  have mkdir: "env_mkdir env (bundle_dir ?im b) = MkdirDone \<Longrightarrow> permitted c env ?im (MakeDir (bundle_dir ?im b))"
    using b by (simp only: permitted.simps) blast
  have tar: "permitted c env ?im (TarDirectory (bundle_archive ?im b) (bundle_dir ?im b) b)"
    using b by simp
  have "p_within (acts st (permitted c env ?im)) (make_an_archive c env i items b)"
    unfolding make_an_archive_def Let_def
    using mkdir tar
    by (auto simp del: permitted.simps simp: bundle_dir_def bundle_archive_def
        intro!: acts_read_bind [OF i] acts_gives_bind [OF collected] acts_extract [OF items, unfolded bundle_dir_def] act_intros
        split: mkdir_reply.split)
  then show ?thesis .
qed

lemma acts_try_archive:
  assumes "i < length st" and "(b, items) \<in> set (bundles (st ! i))"
  shows "p_within (acts st (permitted c env (st ! i))) (try_archive c env i items b)"
  using acts_archive [OF assms] by (auto simp: try_archive_def intro!: act_intros)

lemma acts_squash:
  assumes i: "i < length st" and "conf_squash c" and "conf_engine c = DOCKER"
  shows "p_within (acts st (permitted c env (st ! i))) (squash c env i)"
proof -
  have "squashes c env (st ! i) (squash_command image_id (canonical_name (st ! i))
        (parent_last_layer (parent_name (st ! i)) history) (conf_squash_cleanup c) (conf_squash_tmp_dir c))"
    if "env_image_id env (canonical_name (st ! i)) = Some image_id" "env_history env (parent_name (st ! i)) = Some history"
      "parent_last_layer (parent_name (st ! i)) history \<noteq> []" for image_id history
    unfolding squashes_def using assms(2,3) that by blast
  then show ?thesis
    by (auto simp: squash_def Let_def intro!: act_intros acts_read_bind [OF i] split: option.split)
qed

lemma acts_build_failed: "p_within (acts st P) (build_failed c i)"
  by (auto simp: build_failed_def intro!: act_intros split: engine.split)

lemma engine_build_args_status [simp]:
  "engine_build_args c env (im\<lparr>img_status := s\<rparr>) = engine_build_args c env im"
  by (simp add: engine_build_args_def)

lemma acts_engine_build:
  assumes i: "i < length st"
  shows "p_within (acts st (permitted c env (st ! i))) (engine_build c env i)"
  by (auto simp: engine_build_def Let_def
      intro!: act_intros acts_read_bind [OF i] acts_squash [OF i] acts_build_failed
      split: engine.split build_reply.split stream_end.split)

lemma acts_build_archives:
  assumes i: "i < length st"
  shows "p_within (acts st (permitted c env (st ! i))) (build_archives c env i)"
  unfolding build_archives_def
  by (auto simp: bundles_def
      intro!: act_intros acts_read_bind [OF i] acts_try_archive [OF i] acts_engine_build [OF i])

lemma acts_builder:
  assumes i: "i < length st"
  shows "p_within (acts st (permitted c env (st ! i))) (builder c env i)"
  unfolding builder_def
proof (rule acts_store_bind)
  fix st' assume "same_shape st st'"
  then have src: "img_source (st' ! i) = img_source (st ! i)" using i by (simp add: same_shape_fields)
  have "p_within (acts st (permitted c env (st ! i))) (process_source c env i (Some s))"
    if "img_source (st ! i) = Some s" for s
    using i by (rule acts_process_source) (auto simp: declared_sources_def that)
  then show "p_within (acts st (permitted c env (st ! i)))
     (if status_at st' i \<in> {SKIPPED, UNBUILDABLE} then p_return ()
       else if status_at st' i = UNMATCHED then p_return ()
       else if parent_failed st' i
       then write_status i PARENT_ERROR
       else p_then (write_status i BUILDING)
         (case img_source (st' ! i) of
            None \<Rightarrow> build_archives c env i
          | Some s \<Rightarrow>
              p_then (process_source c env i (Some s))
                (p_bind (read_image i) (\<lambda>im.
                   if img_status im \<in> set STATUS_ERRORS then p_return ()
                   else build_archives c env i))))"
    by (auto simp: src intro!: act_intros acts_read_bind [OF i] acts_build_archives [OF i]
        split: option.split)
qed

lemma builder_actions:
  assumes "i < length (ts_images ts)" and "builder c env i ts = (r, ts')"
  shows "\<exists>es. ts_effects ts' = ts_effects ts @ es \<and>
    (\<forall>e \<in> set es. permitted c env (ts_images ts ! i) e)"
  using p_within_run [OF acts_builder [OF assms(1)] assms(2)]
  by (simp add: acts_def shaped_def adds_def)

section \<open>When an image is built\<close>

text \<open>The engine built the image: it was called and all its messages were texts, no error and no exception.\<close>

definition engine_completes :: "conf \<Rightarrow> env \<Rightarrow> image \<Rightarrow> bool" where
  "engine_completes c env im \<longleftrightarrow> (\<exists>msgs.
     env_build env (engine_build_args c env im) = BuildStream msgs \<and> (\<forall>m \<in> set msgs. \<exists>t. m = StreamText t))"

lemma read_stream_done: "read_stream msgs = StreamDone \<longleftrightarrow> (\<forall>m \<in> set msgs. \<exists>t. m = StreamText t)"
  by (induction msgs rule: read_stream.induct) auto

definition built_by_engine :: "conf \<Rightarrow> env \<Rightarrow> image \<Rightarrow> nat \<Rightarrow> tstate \<Rightarrow> tstate \<Rightarrow> bool" where
  "built_by_engine c env im i ts ts' \<longleftrightarrow> set (ts_effects ts) \<subseteq> set (ts_effects ts') \<and>
     (status_at (ts_images ts') i = BUILT \<longrightarrow> status_at (ts_images ts) i \<noteq> BUILT \<longrightarrow>
        engine_completes c env im \<and> EngineBuild (engine_build_args c env im) \<in> set (ts_effects ts'))"

definition grows :: "tstate \<Rightarrow> tstate \<Rightarrow> bool" where
  "grows ts ts' \<longleftrightarrow> set (ts_effects ts) \<subseteq> set (ts_effects ts')"

definition builds :: "store \<Rightarrow> conf \<Rightarrow> env \<Rightarrow> nat \<Rightarrow> tstate \<Rightarrow> tstate \<Rightarrow> bool" where
  "builds st c env i = shaped st (built_by_engine c env (st ! i) i)"

interpretation building: state_frame "builds st c env i" for st c env i
proof unfold_locales
  fix s show "builds st c env i s s"
    by (simp add: builds_def shaped_refl built_by_engine_def)
next
  fix s t u
  assume "builds st c env i s t" "builds st c env i t u"
  then show "builds st c env i s u"
    unfolding builds_def by (rule shaped_trans [rotated]) (auto simp: built_by_engine_def)
qed

lemma builds_write_status:
  assumes "i < length st" and "s \<noteq> BUILT"
  shows "p_within (builds st c env i) (write_status i s)"
  unfolding write_status_def
  using assms by (intro building.within_modify)
    (auto simp: builds_def shaped_def built_by_engine_def same_shape_set_status_right store_simps
      dest: same_shape_length)

lemma builds_perform: "p_within (builds st c env i) (perform e)"
  unfolding perform_def
  by (rule building.within_modify) (auto simp: builds_def shaped_def built_by_engine_def)

lemma builds_perform_if: "p_within (builds st c env i) (perform_if b p e)"
  by (simp add: perform_if_def building.within_intros builds_perform)

lemma builds_read_bind:
  assumes "i < length st" and "\<And>s. p_within (builds st c env i) (k ((st ! i)\<lparr>img_status := s\<rparr>))"
  shows "p_within (builds st c env i) (p_bind (read_image i) k)"
  using assms unfolding builds_def by (rule shaped_read_bind)

lemma builds_store_bind:
  assumes "\<And>st'. same_shape st st' \<Longrightarrow> p_within (builds st c env i) (k st')"
  shows "p_within (builds st c env i) (p_bind (p_gets ts_images) k)"
  using assms unfolding builds_def by (rule shaped_store_bind)

lemmas build_intros = building.within_intros builds_perform builds_perform_if

lemma builds_process_source:
  assumes i: "i < length st"
  shows "p_within (builds st c env i) (process_source c env i src)"
proof -
  have st: "p_within (builds st c env i) (write_status i ERROR)"
    using i by (simp add: builds_write_status)
  have "p_within (builds st c env i) (fetch_url c env i s dest)"
    "p_within (builds st c env i) (fetch_git env i s dest)"
    "p_within (builds st c env i) (fetch_local env s dest)" for s dest
    by (auto simp: fetch_url_def fetch_git_def git_failed_def fetch_local_def Let_def
        intro!: build_intros st split: http_reply.split option.split git_reply.split)
  then show ?thesis
    by (auto simp: process_source_def Let_def intro!: build_intros builds_read_bind [OF i] st
        split: option.split)
qed

lemma builds_try_archive:
  assumes i: "i < length st"
  shows "p_within (builds st c env i) (try_archive c env i items arcname)"
proof -
  have "p_within (builds st c env i) (collect_archives c env i items archives)" for archives
    by (induction items arbitrary: archives)
      (auto intro!: build_intros builds_process_source [OF i] builds_read_bind [OF i])
  moreover have "p_within (builds st c env i) (extract_archive env d a)" for d a
    by (auto simp: extract_archive_def test_malicious_tarball_def intro!: build_intros
        split: option.split)
  moreover have "p_within (builds st c env i) (write_status i CONNECTION_ERROR)"
    using i by (simp add: builds_write_status)
  ultimately show ?thesis
    by (auto simp: try_archive_def make_an_archive_def Let_def
        intro!: build_intros builds_read_bind [OF i] split: mkdir_reply.split)
qed

lemma builds_failed:
  assumes "i < length st"
  shows "p_within (builds st c env i) (build_failed c i)"
  using assms by (auto simp: build_failed_def intro!: build_intros builds_write_status split: engine.split)

lemma builds_squash:
  assumes i: "i < length st"
  shows "p_within (builds st c env i) (squash c env i)"
  using i by (auto simp: squash_def Let_def intro!: build_intros builds_read_bind [OF i]
      builds_write_status split: option.split)

text \<open>Once the engine was called and answered to the end, the status may become BUILT.\<close>

lemma builds_after_call:
  assumes "engine_completes c env (st ! i)"
    and "p_within (shaped st grows) k"
  shows "p_within (builds st c env i) (p_then (perform (EngineBuild (engine_build_args c env (st ! i)))) k)"
  unfolding p_within_def
proof
  fix ts :: tstate
  let ?ts = "ts\<lparr>ts_effects := ts_effects ts @ [EngineBuild (engine_build_args c env (st ! i))]\<rparr>"
  have "shaped st grows ?ts (snd (k ?ts))"
    using assms(2) by (rule p_withinD)
  with assms(1) show "builds st c env i ts
      (snd (p_then (perform (EngineBuild (engine_build_args c env (st ! i)))) k ts))"
    by (auto simp: builds_def shaped_def built_by_engine_def grows_def perform_def p_then_def p_bind_def p_modify_def)
qed

lemma builds_grow:
  assumes "p_within (builds st c env i) m"
  shows "p_within (shaped st grows) m"
  using assms by (auto simp: p_within_def builds_def shaped_def built_by_engine_def grows_def)

interpretation growing: state_frame "shaped st grows" for st
  by unfold_locales (auto simp: shaped_def grows_def intro: same_shape_trans)

lemma growing_write_status:
  "p_within (shaped st grows) (write_status i s)"
  unfolding write_status_def
  by (rule growing.within_modify) (auto simp: shaped_def grows_def same_shape_set_status_right)

lemma builds_engine_build:
  assumes i: "i < length st"
  shows "p_within (builds st c env i) (engine_build c env i)"
proof -
  have err: "p_within (builds st c env i) (write_status i ERROR)"
    using i by (simp add: builds_write_status)
  show ?thesis
  proof (cases "engine_completes c env (st ! i)")
    case True
    have rest: "p_within (shaped st grows) (write_status i x)"
      "p_within (shaped st grows) (build_failed c i)" "p_within (shaped st grows) (squash c env i)" for x
      by (rule growing_write_status builds_grow [OF builds_failed [OF i]] builds_grow [OF builds_squash [OF i]])+
    show ?thesis
      by (auto simp: engine_build_def Let_def
          intro!: builds_read_bind [OF i] builds_after_call [OF True] growing.within_intros rest
            shaped_read_bind [OF i] building.within_raise
          split: engine.split build_reply.split stream_end.split)
  next
    case False
    then show ?thesis
      by (auto simp: engine_build_def Let_def engine_completes_def read_stream_done [symmetric]
          intro!: build_intros builds_read_bind [OF i] builds_failed [OF i] err
          split: engine.split build_reply.split stream_end.split)
  qed
qed

lemma builds_build_archives:
  assumes i: "i < length st"
  shows "p_within (builds st c env i) (build_archives c env i)"
  unfolding build_archives_def
  by (auto intro!: build_intros builds_read_bind [OF i] builds_try_archive [OF i] builds_engine_build [OF i])

lemma builds_builder:
  assumes i: "i < length st"
  shows "p_within (builds st c env i) (builder c env i)"
  unfolding builder_def
  using i by (auto intro!: build_intros builds_store_bind builds_write_status builds_process_source
      builds_build_archives builds_read_bind split: option.split)


lemma set_status_twice: "set_status i s (set_status i s' st) = set_status i s st"
proof (cases "i < length st")
  case True
  then show ?thesis by (simp add: set_status_def)
next
  case False
  then show ?thesis by (simp add: set_status_def list_update_beyond)
qed

lemma builder_rebuilds:
  assumes i: "i < length (ts_images ts)" and built: "status_at (ts_images ts) i = BUILT"
    and parent: "\<not> parent_failed (ts_images ts) i"
  shows "builder c env i ts = builder c env i (ts\<lparr>ts_images := set_status i BUILDING (ts_images ts)\<rparr>)"
proof -
  let ?st = "set_status i BUILDING (ts_images ts)"
  have "\<not> parent_failed ?st i"
    using parent i by (auto simp: parent_failed_def nth_set_status split: option.splits)
  with parent built i show ?thesis
    by (simp add: builder_def p_bind_def p_gets_def p_then_def write_status_def p_modify_def
        set_status_twice store_simps)
qed

lemma builder_built_by_engine:
  assumes i: "i < length (ts_images ts)" and run: "builder c env i ts = (r, ts')"
    and built: "status_at (ts_images ts') i = BUILT"
  shows "engine_completes c env (ts_images ts ! i) \<and>
    EngineBuild (engine_build_args c env (ts_images ts ! i)) \<in> set (ts_effects ts')"
proof -
  have unbuilt: "engine_completes c env (st ! i) \<and> EngineBuild (engine_build_args c env (st ! i)) \<in> set (ts_effects ts')"
    if "builder c env i us = (r, ts')" "same_shape st (ts_images us)" "i < length st"
      "status_at (ts_images us) i \<noteq> BUILT" for us st
    using p_within_run [OF builds_builder [OF that(3)] that(1)] that(2,4) built
    by (simp add: builds_def shaped_def built_by_engine_def)
  show ?thesis
  proof (cases "status_at (ts_images ts) i = BUILT")
    case False
    with unbuilt [OF run _ i] show ?thesis by simp
  next
    case True
    have "\<not> parent_failed (ts_images ts) i"
    proof
      assume "parent_failed (ts_images ts) i"
      then have "builder c env i ts = write_status i PARENT_ERROR ts"
        using True by (auto simp: builder_def p_bind_def p_gets_def)
      with run i built show False by (auto simp: write_status_def p_modify_def store_simps)
    qed
    then have "builder c env i (ts\<lparr>ts_images := set_status i BUILDING (ts_images ts)\<rparr>) = (r, ts')"
      using builder_rebuilds [OF i True] run by simp
    from unbuilt [OF this _ i] i show ?thesis by (simp add: store_simps)
  qed
qed

text \<open>
  The \<open>else\<close> clause of the build overwrites the status that \<open>squash\<close> set: a Docker image whose
  parent layer is not found is not squashed, and ends as built all the same.
\<close>

lemma squash_failure_masked:
  assumes "conf_engine c = DOCKER" and "conf_squash c"
    and "env_build env (engine_build_args c env (ts_images ts ! i)) = BuildStream msgs"
    and "read_stream msgs = StreamDone" and "status_at (ts_images ts) i \<noteq> ERROR"
    and "env_image_id env (canonical_name (ts_images ts ! i)) = Some image_id"
    and "env_history env (parent_name (ts_images ts ! i)) = Some history"
    and "parent_last_layer (parent_name (ts_images ts ! i)) history = []"
  shows "engine_build c env i ts =
    (Inr (), \<lparr>ts_images = set_status i BUILT (ts_images ts),
      ts_effects = ts_effects ts @ [EngineBuild (engine_build_args c env (ts_images ts ! i))]\<rparr>)"
  using assms
  by (simp add: engine_build_def squash_def read_image_def perform_def write_status_def p_bind_def
      p_then_def p_gets_def p_modify_def p_return_def p_catch_def Let_def set_status_twice)

section \<open>Refused builds\<close>

lemma builder_skips:
  assumes "status_at (ts_images ts) i \<in> {SKIPPED, UNBUILDABLE, UNMATCHED}"
  shows "builder c env i ts = (Inr (), ts)"
  using assms by (auto simp: builder_def p_bind_def p_gets_def p_return_def)

lemma builder_parent_error:
  assumes "status_at (ts_images ts) i \<notin> {SKIPPED, UNBUILDABLE, UNMATCHED}"
    and "parent_at (ts_images ts) i = Some p" and "status_at (ts_images ts) p \<in> set STATUS_ERRORS"
  shows "builder c env i ts = (Inr (), ts\<lparr>ts_images := set_status i PARENT_ERROR (ts_images ts)\<rparr>)"
  using assms by (auto simp: builder_def parent_failed_def p_bind_def p_gets_def write_status_def p_modify_def)

section \<open>update\_buildargs\<close>

lemma add_proxy_get:
  "dict_get (add_proxy environ var d) k =
     (case dict_get d k of Some v \<Rightarrow> Some v
      | None \<Rightarrow> if k = var then map_of environ k else None)"
  by (auto simp: add_proxy_def dict_simps split: option.split)

lemma add_proxies_get:
  "dict_get (fold (add_proxy environ) vars d) k =
     (case dict_get d k of Some v \<Rightarrow> Some v
      | None \<Rightarrow> if k \<in> set vars then map_of environ k else None)"
  by (induction vars arbitrary: d) (auto simp: add_proxy_get split: option.split)

lemma update_buildargs_get:
  "(case update_buildargs c env of None \<Rightarrow> None | Some args \<Rightarrow> dict_get args k) =
     (case dict_get (conf_build_args c) k of Some v \<Rightarrow> Some v
      | None \<Rightarrow> if k \<in> set proxy_vars then map_of (env_environ env) k else None)"
proof -
  let ?args = "fold (add_proxy (env_environ env)) proxy_vars (conf_build_args c)"
  have "(case update_buildargs c env of None \<Rightarrow> None | Some args \<Rightarrow> dict_get args k) = dict_get ?args k"
    by (simp add: update_buildargs_def Let_def)
  then show ?thesis by (simp only: add_proxies_get)
qed

section \<open>Pushing\<close>

text \<open>What the engine answered to a push, as a status.\<close>

definition push_outcome :: "conf \<Rightarrow> env \<Rightarrow> image \<Rightarrow> status" where
  "push_outcome c env im =
     (case conf_engine c of
        OtherEngine e \<Rightarrow> PUSH_ERROR
      | _ \<Rightarrow> (case env_push env (canonical_name im) of
               PushConnectionError \<Rightarrow> CONNECTION_ERROR
             | PushRaises \<Rightarrow> PUSH_ERROR
             | PushStream msgs \<Rightarrow> if read_push msgs = None then BUILT else PUSH_ERROR))"

lemma read_push_None: "read_push msgs = None \<longleftrightarrow> (\<forall>e. PushErrorDetail e \<notin> set msgs)"
  by (induction msgs rule: read_push.induct) auto

lemma push_run_result:
  assumes i: "i < length (ts_images ts)"
  shows "\<exists>ts'. push_run c env i ts = (Inr (push_outcome c env (ts_images ts ! i) = BUILT), ts') \<and>
    ts_images ts' = set_status i (push_outcome c env (ts_images ts ! i)) (ts_images ts)"
  using i
  by (cases "conf_engine c"; cases "env_push env (canonical_name (ts_images ts ! i))")
    (auto simp: push_run_def push_image_def push_outcome_def read_image_def perform_def
      write_status_def p_bind_def p_then_def p_gets_def p_modify_def p_return_def p_raise_def
      p_catch_def nth_set_status split: option.split)

end
