(* ===== verification/File_System.thy ===== *)
theory File_System
  imports Py_Path "HOL-Library.Word"
begin

text \<open>
  A POSIX file system as the scripts inside the containers use it through \<open>os\<close> and \<open>shutil\<close>:
  a tree of directories, files and symbolic links with modes and owners, the resolution of a path
  (at most 40 links, as on Linux), and the operations as programs over the tree that raise
  \<open>OSError\<close>. The process runs as root; what a read-only mount forbids is a predicate on resolved
  paths. Time stamps and extended attributes are left out. The content of a file is a value of any
  type, so that a file of JSON holds the document.
\<close>

unbundle bit_operations_syntax

section \<open>The tree\<close>

record meta =
  m_mode :: nat
  m_uid :: nat
  m_gid :: nat

datatype 'c node = Dir meta "(string \<times> 'c node) list" | File meta 'c | Link string

text \<open>Positions in the tree are lists of names, without dots and links.\<close>

fun fs_get :: "'c node \<Rightarrow> string list \<Rightarrow> 'c node option" where
  "fs_get n [] = Some n"
| "fs_get (Dir m es) (c # cs) = (case map_of es c of None \<Rightarrow> None | Some n \<Rightarrow> fs_get n cs)"
| "fs_get n (c # cs) = None"

fun fs_put :: "string list \<Rightarrow> 'c node \<Rightarrow> 'c node \<Rightarrow> 'c node" where
  "fs_put [] x n = x"
| "fs_put (c # cs) x (Dir m es) =
     (case map_of es c of
        Some n \<Rightarrow> Dir m (dict_set c (fs_put cs x n) es)
      | None \<Rightarrow> if cs = [] then Dir m (dict_set c x es) else Dir m es)"
| "fs_put (c # cs) x n = n"

fun fs_del :: "string list \<Rightarrow> 'c node \<Rightarrow> 'c node" where
  "fs_del [] n = n"
| "fs_del (c # cs) (Dir m es) =
     (if cs = [] then Dir m (filter (\<lambda>(k, v). k \<noteq> c) es)
      else (case map_of es c of
              Some n \<Rightarrow> Dir m (dict_set c (fs_del cs n) es)
            | None \<Rightarrow> Dir m es))"
| "fs_del (c # cs) n = n"

section \<open>Resolution of paths\<close>

text \<open>
  The last name need not exist. Slashes may follow it where a link is not followed (\<open>mkdir\<close>), but not
  where a file is opened.
\<close>

function resolve :: "'c node \<Rightarrow> nat \<Rightarrow> bool \<Rightarrow> string list \<Rightarrow> string list \<Rightarrow> string list option" where
  "resolve root k follow acc [] = Some acc"
| "resolve root k follow acc (c # cs) =
     (if c = [] \<or> c = ''.'' then resolve root k follow acc cs
      else if c = ''..'' then resolve root k follow (butlast acc) cs
      else (case fs_get root (acc @ [c]) of
              None \<Rightarrow> if cs = [] \<or> (\<not> follow \<and> list_all (\<lambda>x. x = []) cs) then Some (acc @ [c]) else None
            | Some (Dir m es) \<Rightarrow> resolve root k follow (acc @ [c]) cs
            | Some (File m x) \<Rightarrow> if cs = [] then Some (acc @ [c]) else None
            | Some (Link t) \<Rightarrow>
                if cs = [] \<and> \<not> follow then Some (acc @ [c])
                else (case k of
                        0 \<Rightarrow> None
                      | Suc k' \<Rightarrow>
                          resolve root k' follow (if py_startswith t ''/'' then [] else acc)
                            (py_split slash t @ cs))))"
  by pat_completeness auto
termination
  by (relation "inv_image (less_than <*lex*> less_than) (\<lambda>(root, k, follow, acc, cs). (k, length cs))") auto

declare resolve.simps(2) [simp del]

definition max_links :: nat where
  "max_links = 40"

record host =
  host_cwd :: "string list"
  host_users :: "(string \<times> nat) list"
  host_groups :: "(string \<times> nat) list"
  host_read_only :: "string list \<Rightarrow> bool"
  host_uid :: nat
  host_gid :: nat
  host_dir_mode :: nat
  host_file_mode :: nat

definition locate :: "host \<Rightarrow> 'c node \<Rightarrow> bool \<Rightarrow> string \<Rightarrow> string list option" where
  "locate h root follow p =
     (if p = [] then None
      else resolve root max_links follow (if py_startswith p ''/'' then [] else host_cwd h) (py_split slash p))"

section \<open>Queries\<close>

definition os_stat :: "host \<Rightarrow> 'c node \<Rightarrow> string \<Rightarrow> 'c node option" where
  "os_stat h root p = (case locate h root True p of None \<Rightarrow> None | Some q \<Rightarrow> fs_get root q)"

definition os_lstat :: "host \<Rightarrow> 'c node \<Rightarrow> string \<Rightarrow> 'c node option" where
  "os_lstat h root p = (case locate h root False p of None \<Rightarrow> None | Some q \<Rightarrow> fs_get root q)"

definition os_exists :: "host \<Rightarrow> 'c node \<Rightarrow> string \<Rightarrow> bool" where
  "os_exists h root p \<longleftrightarrow> os_stat h root p \<noteq> None"

definition os_lexists :: "host \<Rightarrow> 'c node \<Rightarrow> string \<Rightarrow> bool" where
  "os_lexists h root p \<longleftrightarrow> os_lstat h root p \<noteq> None"

definition os_isdir :: "host \<Rightarrow> 'c node \<Rightarrow> string \<Rightarrow> bool" where
  "os_isdir h root p \<longleftrightarrow> (case os_stat h root p of Some (Dir m es) \<Rightarrow> True | _ \<Rightarrow> False)"

definition os_isfile :: "host \<Rightarrow> 'c node \<Rightarrow> string \<Rightarrow> bool" where
  "os_isfile h root p \<longleftrightarrow> (case os_stat h root p of Some (File m x) \<Rightarrow> True | _ \<Rightarrow> False)"

definition os_readlink :: "host \<Rightarrow> 'c node \<Rightarrow> string \<Rightarrow> string option" where
  "os_readlink h root p = (case os_lstat h root p of Some (Link t) \<Rightarrow> Some t | _ \<Rightarrow> None)"

fun node_meta :: "'c node \<Rightarrow> meta option" where
  "node_meta (Dir m es) = Some m"
| "node_meta (File m x) = Some m"
| "node_meta (Link t) = None"

fun set_meta :: "meta \<Rightarrow> 'c node \<Rightarrow> 'c node" where
  "set_meta m (Dir m' es) = Dir m es"
| "set_meta m (File m' x) = File m x"
| "set_meta m (Link t) = Link t"

fun is_dir_node :: "'c node \<Rightarrow> bool" where
  "is_dir_node (Dir m es) = True"
| "is_dir_node n = False"

section \<open>Operations\<close>

text \<open>
  Programs over the tree raise exceptions of some type that the Python exceptions are embedded
  in by \<open>wrap\<close>. \<open>alter\<close> changes the tree at a resolved path that is not on a read-only mount.
\<close>

definition alter :: "(py_exn \<Rightarrow> 'e) \<Rightarrow> host \<Rightarrow> string \<Rightarrow> string list \<Rightarrow> ('c node \<Rightarrow> 'c node) \<Rightarrow> ('e, 'c node, unit) prog" where
  "alter wrap h p q f = (if host_read_only h q then p_raise (wrap (OSError p)) else p_modify f)"

definition os_remove :: "(py_exn \<Rightarrow> 'e) \<Rightarrow> host \<Rightarrow> string \<Rightarrow> ('e, 'c node, unit) prog" where
  "os_remove wrap h p =
     p_bind (p_gets (\<lambda>root. root)) (\<lambda>root.
       case locate h root False p of
         None \<Rightarrow> p_raise (wrap (OSError p))
       | Some q \<Rightarrow>
           (case fs_get root q of
              None \<Rightarrow> p_raise (wrap (OSError p))
            | Some n \<Rightarrow> if is_dir_node n then p_raise (wrap (OSError p))
                        else alter wrap h p q (fs_del q)))"

text \<open>The paths below a node in the order in which \<open>shutil.rmtree\<close> deletes them.\<close>

fun tree_paths :: "string list \<Rightarrow> 'c node \<Rightarrow> string list list"
  and entries_paths :: "string list \<Rightarrow> (string \<times> 'c node) list \<Rightarrow> string list list" where
  "tree_paths q (Dir m es) = entries_paths q es @ [q]"
| "tree_paths q (File m x) = [q]"
| "tree_paths q (Link t) = [q]"
| "entries_paths q [] = []"
| "entries_paths q ((k, n) # es) = tree_paths (q @ [k]) n @ entries_paths q es"

definition shutil_rmtree :: "(py_exn \<Rightarrow> 'e) \<Rightarrow> host \<Rightarrow> string \<Rightarrow> ('e, 'c node, unit) prog" where
  "shutil_rmtree wrap h p =
     p_bind (p_gets (\<lambda>root. root)) (\<lambda>root.
       case locate h root False p of
         None \<Rightarrow> p_raise (wrap (OSError p))
       | Some q \<Rightarrow>
           (case fs_get root q of
              Some (Dir m es) \<Rightarrow> p_for (tree_paths q (Dir m es)) (\<lambda>r. alter wrap h p r (fs_del r))
            | _ \<Rightarrow> p_raise (wrap (OSError p))))"

text \<open>A new name in a directory: the resolved path must not exist and its parent must be a directory.\<close>

definition create :: "(py_exn \<Rightarrow> 'e) \<Rightarrow> host \<Rightarrow> string \<Rightarrow> 'c node \<Rightarrow> ('e, 'c node, unit) prog" where
  "create wrap h p n =
     p_bind (p_gets (\<lambda>root. root)) (\<lambda>root.
       case locate h root False p of
         None \<Rightarrow> p_raise (wrap (OSError p))
       | Some q \<Rightarrow>
           if q = [] \<or> fs_get root q \<noteq> None \<or>
              (case fs_get root (butlast q) of Some d \<Rightarrow> \<not> is_dir_node d | None \<Rightarrow> True)
           then p_raise (wrap (OSError p))
           else alter wrap h p q (fs_put q n))"

definition os_mkdir :: "(py_exn \<Rightarrow> 'e) \<Rightarrow> host \<Rightarrow> string \<Rightarrow> ('e, 'c node, unit) prog" where
  "os_mkdir wrap h p =
     create wrap h p (Dir \<lparr>m_mode = host_dir_mode h, m_uid = host_uid h, m_gid = host_gid h\<rparr> [])"

definition os_symlink :: "(py_exn \<Rightarrow> 'e) \<Rightarrow> host \<Rightarrow> string \<Rightarrow> string \<Rightarrow> ('e, 'c node, unit) prog" where
  "os_symlink wrap h target p = create wrap h p (Link target)"

text \<open>\<open>open(p, 'w')\<close> and a write: follows links, keeps the owner and mode of a file that exists.\<close>

definition write_file :: "(py_exn \<Rightarrow> 'e) \<Rightarrow> host \<Rightarrow> string \<Rightarrow> 'c \<Rightarrow> ('e, 'c node, unit) prog" where
  "write_file wrap h p x =
     p_bind (p_gets (\<lambda>root. root)) (\<lambda>root.
       case locate h root True p of
         None \<Rightarrow> p_raise (wrap (OSError p))
       | Some q \<Rightarrow>
           (case fs_get root q of
              Some (File m y) \<Rightarrow> alter wrap h p q (fs_put q (File m x))
            | Some _ \<Rightarrow> p_raise (wrap (OSError p))
            | None \<Rightarrow>
                if q = [] \<or> (case fs_get root (butlast q) of Some d \<Rightarrow> \<not> is_dir_node d | None \<Rightarrow> True)
                then p_raise (wrap (OSError p))
                else alter wrap h p q (fs_put q
                  (File \<lparr>m_mode = host_file_mode h, m_uid = host_uid h, m_gid = host_gid h\<rparr> x))))"

definition read_file :: "(py_exn \<Rightarrow> 'e) \<Rightarrow> host \<Rightarrow> string \<Rightarrow> ('e, 'c node, 'c) prog" where
  "read_file wrap h p =
     p_bind (p_gets (\<lambda>root. os_stat h root p)) (\<lambda>n.
       case n of Some (File m x) \<Rightarrow> p_return x | _ \<Rightarrow> p_raise (wrap (OSError p)))"

definition list_dir :: "(py_exn \<Rightarrow> 'e) \<Rightarrow> host \<Rightarrow> string \<Rightarrow> ('e, 'c node, string list) prog" where
  "list_dir wrap h p =
     p_bind (p_gets (\<lambda>root. os_stat h root p)) (\<lambda>n.
       case n of Some (Dir m es) \<Rightarrow> p_return (map fst es) | _ \<Rightarrow> p_raise (wrap (OSError p)))"

text \<open>\<open>chmod\<close> and \<open>chown\<close> follow links; \<open>chown\<close> clears the set-id bits of a file.\<close>

definition change_meta :: "(py_exn \<Rightarrow> 'e) \<Rightarrow> host \<Rightarrow> string \<Rightarrow> (bool \<Rightarrow> meta \<Rightarrow> meta) \<Rightarrow> ('e, 'c node, unit) prog" where
  "change_meta wrap h p f =
     p_bind (p_gets (\<lambda>root. root)) (\<lambda>root.
       case locate h root True p of
         None \<Rightarrow> p_raise (wrap (OSError p))
       | Some q \<Rightarrow>
           (case fs_get root q of
              None \<Rightarrow> p_raise (wrap (OSError p))
            | Some n \<Rightarrow>
                (case node_meta n of
                   None \<Rightarrow> p_raise (wrap (OSError p))
                 | Some m \<Rightarrow> alter wrap h p q (fs_put q (set_meta (f (is_dir_node n) m) n)))))"

text \<open>The mode is passed on as a C integer, of which the system takes the low twelve bits.\<close>

definition c_int :: "int \<Rightarrow> bool" where
  "c_int n \<longleftrightarrow> - (2 ^ 31) \<le> n \<and> n < 2 ^ 31"

definition os_chmod :: "(py_exn \<Rightarrow> 'e) \<Rightarrow> host \<Rightarrow> string \<Rightarrow> int \<Rightarrow> ('e, 'c node, unit) prog" where
  "os_chmod wrap h p mode =
     (if c_int mode then change_meta wrap h p (\<lambda>d m. m\<lparr>m_mode := nat (mode mod 4096)\<rparr>)
      else p_raise (wrap (LibraryException ''OverflowError'')))"

text \<open>\<open>stat.S\_IMODE\<close>, which \<open>shutil\<close> applies to the mode it copies.\<close>

definition S_IMODE :: "nat \<Rightarrow> int" where
  "S_IMODE mode = int (mode mod 4096)"

lemma c_int_imode [simp]: "c_int (S_IMODE m)" "nat (S_IMODE m mod 4096) = m mod 4096"
proof -
  have "int (m mod 4096) < 2 ^ 31" by (rule less_trans [of _ 4096]) simp_all
  moreover have "- (2 ^ 31) \<le> int (m mod 4096)" by (rule order_trans [of _ 0]) simp_all
  ultimately show "c_int (S_IMODE m)" by (simp add: c_int_def S_IMODE_def)
qed (simp add: S_IMODE_def nat_mod_distrib)

definition S_ISUID :: nat where "S_ISUID = 2048"
definition S_ISGID :: nat where "S_ISGID = 1024"
definition S_IXGRP :: nat where "S_IXGRP = 8"

definition clear_setid :: "nat \<Rightarrow> nat" where
  "clear_setid mode =
     (let m = mode - (mode AND S_ISUID)
      in if m AND S_IXGRP \<noteq> 0 then m - (m AND S_ISGID) else m)"

definition os_chown :: "(py_exn \<Rightarrow> 'e) \<Rightarrow> host \<Rightarrow> string \<Rightarrow> nat \<Rightarrow> nat \<Rightarrow> ('e, 'c node, unit) prog" where
  "os_chown wrap h p uid gid =
     change_meta wrap h p (\<lambda>d m.
       m\<lparr>m_uid := uid, m_gid := gid, m_mode := if d then m_mode m else clear_setid (m_mode m)\<rparr>)"

text \<open>
  \<open>os.makedirs\<close>: the missing parents first. The head of a path with a tail is always shorter than
  the path.
\<close>

definition split_tail :: "string \<Rightarrow> string \<times> string" where
  "split_tail p =
     (if path_basename p = [] then (path_dirname (path_dirname p), path_basename (path_dirname p))
      else (path_dirname p, path_basename p))"

text \<open>The head of a path is shorter than the path, so the length of the path bounds the recursion.\<close>

primrec makedirs_n :: "nat \<Rightarrow> (py_exn \<Rightarrow> 'e) \<Rightarrow> host \<Rightarrow> bool \<Rightarrow> string \<Rightarrow> ('e, 'c node, unit) prog" where
  "makedirs_n 0 wrap h exist_ok p = os_mkdir wrap h p"
| "makedirs_n (Suc k) wrap h exist_ok p =
     p_bind (p_gets (\<lambda>root. fst (split_tail p) \<noteq> [] \<and> snd (split_tail p) \<noteq> [] \<and>
         \<not> os_exists h root (fst (split_tail p)))) (\<lambda>parent_missing.
       p_then
         (if parent_missing then makedirs_n k wrap h exist_ok (fst (split_tail p)) else p_return ())
         (if parent_missing \<and> snd (split_tail p) = ''.'' then p_return ()
          else p_bind (p_gets (\<lambda>root. exist_ok \<and> os_isdir h root p)) (\<lambda>fine.
            if fine then p_return () else os_mkdir wrap h p)))"

definition makedirs :: "(py_exn \<Rightarrow> 'e) \<Rightarrow> host \<Rightarrow> bool \<Rightarrow> string \<Rightarrow> ('e, 'c node, unit) prog" where
  "makedirs wrap h exist_ok p = makedirs_n (length p) wrap h exist_ok p"

end
