(* ===== verification/File_System_Props.thy ===== *)
theory File_System_Props
  imports File_System
begin

text \<open>
  Laws of the file system: reading a position of the tree after a change (a locale, interpreted on
  the tree), the well-formed trees, the paths without dots and links and what the operations do at
  them, and the frames of operations that change only the modes and owners.
\<close>

section \<open>Reading after a change\<close>

text \<open>Two positions are apart if neither is above the other.\<close>

definition apart :: "'a list \<Rightarrow> 'a list \<Rightarrow> bool" where
  "apart p q \<longleftrightarrow> \<not> prefix p q \<and> \<not> prefix q p"

lemma apart_Cons [simp]: "apart (a # p) (b # q) \<longleftrightarrow> a \<noteq> b \<or> apart p q"
  by (auto simp: apart_def)

lemma apart_Nil [simp]: "\<not> apart [] q" "\<not> apart p []"
  by (simp_all add: apart_def)

lemma apart_sym: "apart p q \<longleftrightarrow> apart q p"
  by (auto simp: apart_def)

locale path_store =
  fixes get :: "'t \<Rightarrow> 'k list \<Rightarrow> 't option"
    and put :: "'k list \<Rightarrow> 't \<Rightarrow> 't \<Rightarrow> 't"
    and del :: "'k list \<Rightarrow> 't \<Rightarrow> 't"
    and is_inner :: "'t \<Rightarrow> bool"
  assumes get_put_there: "get n q \<noteq> None \<Longrightarrow> get (put q x n) q = Some x"
    and get_put_new: "get n p = Some d \<Longrightarrow> is_inner d \<Longrightarrow> get (put (p @ [c]) x n) (p @ [c]) = Some x"
    and get_put_apart: "apart p q \<Longrightarrow> get (put p x n) q = get n q"
    and get_del: "p \<noteq> [] \<Longrightarrow> get (del p n) p = None"
    and get_del_apart: "apart p q \<Longrightarrow> get (del p n) q = get n q"
begin

text \<open>A node is replaced: deleted, then created again under the same name.\<close>

lemma replace_apart: "apart p q \<Longrightarrow> get (put p x (del p n)) q = get n q"
  by (simp add: get_put_apart get_del_apart)

lemma put_twice_apart: "apart p q \<Longrightarrow> get (put p y (put p x n)) q = get n q"
  by (simp add: get_put_apart)

lemma put_twice:
  "get n q \<noteq> None \<Longrightarrow> get (put q y (put q x n)) q = Some y"
  by (simp add: get_put_there)

lemma put_other_keeps:
  "apart p q \<Longrightarrow> get n q = Some x \<Longrightarrow> get (put p y n) q = Some x \<and> get (del p n) q = Some x"
  by (simp add: get_put_apart get_del_apart)

end

lemma map_of_filter_key: "map_of (filter (\<lambda>(k, v). k \<noteq> c) es) k = (if k = c then None else map_of es k)"
  by (induction es) auto

lemma fs_get_put_there: "fs_get n q \<noteq> None \<Longrightarrow> fs_get (fs_put q x n) q = Some x"
  by (induction q x n rule: fs_put.induct) (auto split: option.splits)

lemma fs_get_put_new:
  "fs_get n p = Some d \<Longrightarrow> is_dir_node d \<Longrightarrow> fs_get (fs_put (p @ [c]) x n) (p @ [c]) = Some x"
proof (induction n p rule: fs_get.induct)
  case (1 n)
  then show ?case by (cases n) (auto split: option.splits)
qed (auto split: option.splits)

lemma fs_get_put_apart: "apart p q \<Longrightarrow> fs_get (fs_put p x n) q = fs_get n q"
proof (induction p x n arbitrary: q rule: fs_put.induct)
  case (2 c cs x m es)
  then show ?case by (cases q) (auto split: option.splits)
qed (case_tac [!] q, simp_all)

lemma fs_get_del: "p \<noteq> [] \<Longrightarrow> fs_get (fs_del p n) p = None"
  by (induction p n rule: fs_del.induct) (auto simp: map_of_filter_key split: option.splits)

lemma fs_get_del_apart: "apart p q \<Longrightarrow> fs_get (fs_del p n) q = fs_get n q"
proof (induction p n arbitrary: q rule: fs_del.induct)
  case (2 c cs m es)
  then show ?case by (cases q) (auto simp: map_of_filter_key split: option.splits)
qed auto

interpretation fs: path_store fs_get fs_put fs_del is_dir_node
  by unfold_locales (simp_all add: fs_get_put_there fs_get_put_new fs_get_put_apart fs_get_del fs_get_del_apart)

lemma fs_get_append: "fs_get n (p @ q) = (case fs_get n p of None \<Rightarrow> None | Some d \<Rightarrow> fs_get d q)"
proof (induction p arbitrary: n)
  case (Cons c p)
  then show ?case by (cases n) (simp_all split: option.split)
qed simp

text \<open>What is above a position that is there, or could be created, is a directory.\<close>

lemma fs_get_above:
  assumes "fs_get n (p @ c # q) \<noteq> None"
  shows "\<exists>m es. fs_get n p = Some (Dir m es)"
proof -
  obtain d where d: "fs_get n p = Some d" "fs_get d (c # q) \<noteq> None"
    using assms by (auto simp: fs_get_append split: option.splits)
  then show ?thesis by (cases d) auto
qed

text \<open>What a change below a position does to the node there.\<close>

lemma fs_get_put_prefix: "fs_get n p = Some y \<Longrightarrow> fs_get (fs_put (p @ u) x n) p = Some (fs_put u x y)"
proof (induction p arbitrary: n)
  case (Cons d p)
  then show ?case by (cases n) (simp_all split: option.splits)
qed simp

lemma fs_get_put_above:
  "fs_get n p = Some (Dir m es) \<Longrightarrow> \<exists>es'. fs_get (fs_put (p @ c # r) x n) p = Some (Dir m es')"
  by (simp add: fs_get_put_prefix split: option.split)

section \<open>Changes of modes and owners\<close>

text \<open>The tree without its modes and owners.\<close>

definition no_meta :: meta where
  "no_meta = \<lparr>m_mode = 0, m_uid = 0, m_gid = 0\<rparr>"

fun strip :: "'c node \<Rightarrow> 'c node" where
  "strip (Dir m es) = Dir no_meta (map (map_prod id strip) es)"
| "strip (File m x) = File no_meta x"
| "strip (Link t) = Link t"

lemma map_of_strip: "map_of (map (map_prod id strip) es) c = map_option strip (map_of es c)"
  by (induction es) auto

lemma fs_get_strip: "fs_get (strip n) q = map_option strip (fs_get n q)"
  by (induction n q rule: fs_get.induct) (auto simp: map_of_strip split: option.splits)

lemma strip_set_meta [simp]: "strip (set_meta m n) = strip n"
  by (cases n) simp_all

lemma dict_set_same_strip:
  "map_of es c = Some n \<Longrightarrow> strip n' = strip n \<Longrightarrow>
     map (map_prod id strip) (dict_set c n' es) = map (map_prod id strip) es"
  by (induction es) (auto split: if_splits)

lemma strip_put: "fs_get n q = Some y \<Longrightarrow> strip x = strip y \<Longrightarrow> strip (fs_put q x n) = strip n"
proof (induction q x n arbitrary: y rule: fs_put.induct)
  case (2 c cs x m es)
  from 2(2) obtain n where n: "map_of es c = Some n" "fs_get n cs = Some y"
    by (auto split: option.splits)
  with 2(1) [OF n(1) n(2)] 2(3) show ?case by (simp add: dict_set_same_strip)
qed simp_all

lemma strip_Dir: "strip n = Dir m es \<Longrightarrow> \<exists>m' es'. n = Dir m' es'"
  by (cases n) auto

text \<open>The resolution of a path, step by step; it depends on the stripped tree only.\<close>

lemma resolve_skip: "c = [] \<or> c = ''.'' \<Longrightarrow> resolve root k f acc (c # cs) = resolve root k f acc cs"
  by (simp add: resolve.simps(2))

lemma resolve_up: "c = ''..'' \<Longrightarrow> resolve root k f acc (c # cs) = resolve root k f (butlast acc) cs"
  by (simp add: resolve.simps(2))

lemma resolve_none:
  "plain_component c \<Longrightarrow> fs_get root (acc @ [c]) = None \<Longrightarrow>
     resolve root k f acc (c # cs) =
       (if cs = [] \<or> (\<not> f \<and> list_all (\<lambda>x. x = []) cs) then Some (acc @ [c]) else None)"
  by (simp add: plain_component_def resolve.simps(2))

lemma resolve_dir:
  "plain_component c \<Longrightarrow> fs_get root (acc @ [c]) = Some (Dir m es) \<Longrightarrow>
     resolve root k f acc (c # cs) = resolve root k f (acc @ [c]) cs"
  by (simp add: plain_component_def resolve.simps(2))

lemma resolve_file:
  "plain_component c \<Longrightarrow> fs_get root (acc @ [c]) = Some (File m x) \<Longrightarrow>
     resolve root k f acc (c # cs) = (if cs = [] then Some (acc @ [c]) else None)"
  by (simp add: plain_component_def resolve.simps(2))

lemma resolve_link:
  "plain_component c \<Longrightarrow> fs_get root (acc @ [c]) = Some (Link t) \<Longrightarrow>
     resolve root k f acc (c # cs) =
       (if cs = [] \<and> \<not> f then Some (acc @ [c])
        else (case k of 0 \<Rightarrow> None
              | Suc k' \<Rightarrow> resolve root k' f (if py_startswith t ''/'' then [] else acc) (py_split slash t @ cs)))"
  by (simp add: plain_component_def resolve.simps(2))

lemmas resolve_steps = resolve_skip resolve_up resolve_none resolve_dir resolve_file resolve_link

lemma resolve_cases:
  obtains "c = [] \<or> c = ''.''" | "c = ''..''"
  | "plain_component c" "fs_get root (acc @ [c]) = None"
  | m es where "plain_component c" "fs_get root (acc @ [c]) = Some (Dir m es)"
  | m x where "plain_component c" "fs_get root (acc @ [c]) = Some (File m x)"
  | t where "plain_component c" "fs_get root (acc @ [c]) = Some (Link t)"
proof -
  have "c = [] \<or> c = ''.'' \<or> c = ''..'' \<or> plain_component c"
    unfolding plain_component_def by blast
  then show ?thesis
    using that by (cases "fs_get root (acc @ [c])"; cases "the (fs_get root (acc @ [c]))") auto
qed

lemma resolve_induct [case_names Nil skip up none directory regular stop out follow]:
  assumes "\<And>k acc. P k acc []"
    and "\<And>k acc c cs. c = [] \<or> c = ''.'' \<Longrightarrow> P k acc cs \<Longrightarrow> P k acc (c # cs)"
    and "\<And>k acc c cs. c = ''..'' \<Longrightarrow> P k (butlast acc) cs \<Longrightarrow> P k acc (c # cs)"
    and "\<And>k acc c cs. plain_component c \<Longrightarrow> fs_get root (acc @ [c]) = None \<Longrightarrow> P k acc (c # cs)"
    and "\<And>k acc c cs m es. plain_component c \<Longrightarrow> fs_get root (acc @ [c]) = Some (Dir m es) \<Longrightarrow>
           P k (acc @ [c]) cs \<Longrightarrow> P k acc (c # cs)"
    and "\<And>k acc c cs m x. plain_component c \<Longrightarrow> fs_get root (acc @ [c]) = Some (File m x) \<Longrightarrow> P k acc (c # cs)"
    and "\<And>k acc c cs t. plain_component c \<Longrightarrow> fs_get root (acc @ [c]) = Some (Link t) \<Longrightarrow>
           cs = [] \<and> \<not> f \<Longrightarrow> P k acc (c # cs)"
    and "\<And>acc c cs t. plain_component c \<Longrightarrow> fs_get root (acc @ [c]) = Some (Link t) \<Longrightarrow>
           \<not> (cs = [] \<and> \<not> f) \<Longrightarrow> P 0 acc (c # cs)"
    and "\<And>k acc c cs t. plain_component c \<Longrightarrow> fs_get root (acc @ [c]) = Some (Link t) \<Longrightarrow>
           \<not> (cs = [] \<and> \<not> f) \<Longrightarrow>
           P k (if py_startswith t ''/'' then [] else acc) (py_split slash t @ cs) \<Longrightarrow> P (Suc k) acc (c # cs)"
  shows "P k acc cs"
proof (induction k arbitrary: acc cs rule: less_induct)
  case (less k acc cs)
  have step: "P k acc (c # cs)" if tail: "\<And>acc. P k acc cs" for c cs acc
  proof (rule resolve_cases [where c = c and root = root and acc = acc])
    fix t
    assume link: "plain_component c" "fs_get root (acc @ [c]) = Some (Link t)"
    show "P k acc (c # cs)"
    proof (cases "cs = [] \<and> \<not> f")
      case True
      show ?thesis by (rule assms(7) [OF link True])
    next
      case False
      have "P k' (if py_startswith t ''/'' then [] else acc) (py_split slash t @ cs)" if "k = Suc k'" for k'
        using that by (intro less) simp
      then show ?thesis
        using assms(8, 9) [OF link False] by (cases k) simp_all
    qed
  qed (use tail assms in \<open>simp_all\<close>)
  show ?case
    by (induction cs arbitrary: acc) (simp_all add: assms(1) step)
qed

lemma resolve_follow:
  assumes "plain_component c" and "fs_get root (acc @ [c]) = Some (Link t)" and "\<not> (cs = [] \<and> \<not> f)"
  shows "resolve root (Suc k) f acc (c # cs) =
       resolve root k f (if py_startswith t ''/'' then [] else acc) (py_split slash t @ cs)"
  using resolve_link [OF assms(1, 2), of "Suc k" f cs] by (simp only: assms(3) if_False nat.case)

lemma resolve_strip: "resolve (strip root) k f acc cs = resolve root k f acc cs"
proof (induction k acc cs rule: resolve_induct [where root = root and f = f])
  case (follow k acc c cs t)
  have "fs_get (strip root) (acc @ [c]) = Some (Link t)"
    using follow(2) by (simp add: fs_get_strip)
  from resolve_follow [OF follow(1) this follow(3)] resolve_follow [OF follow(1-3)] follow(4)
  show ?case by simp
qed (simp_all add: resolve_steps fs_get_strip)

lemma locate_strip: "locate h (strip root) f p = locate h root f p"
  by (simp add: locate_def resolve_strip)

section \<open>Plain paths\<close>

text \<open>The absolute path of a position, and the positions that are at most missing their last name.\<close>

definition path_of :: "string list \<Rightarrow> string" where
  "path_of q = ''/'' @ py_join ''/'' q"

definition names_ok :: "string list \<Rightarrow> bool" where
  "names_ok q \<longleftrightarrow> (\<forall>c \<in> set q. plain_component c \<and> slash \<notin> set c)"

definition is_link_node :: "'c node option \<Rightarrow> bool" where
  "is_link_node n \<longleftrightarrow> (\<exists>t. n = Some (Link t))"

definition plain_at :: "'c node \<Rightarrow> string list \<Rightarrow> bool" where
  "plain_at root q \<longleftrightarrow> q \<noteq> [] \<and> names_ok q \<and> (\<exists>m es. fs_get root (butlast q) = Some (Dir m es)) \<and>
     \<not> is_link_node (fs_get root q)"

text \<open>The same predicates without quantifiers.\<close>

definition dir_at :: "'c node \<Rightarrow> string list \<Rightarrow> bool" where
  "dir_at root q \<longleftrightarrow> (case fs_get root q of Some (Dir m es) \<Rightarrow> True | _ \<Rightarrow> False)"

lemma dir_at_iff: "(\<exists>m es. fs_get root q = Some (Dir m es)) \<longleftrightarrow> dir_at root q"
  by (simp add: dir_at_def split: option.split node.split)

lemma is_link_node_code [code]: "is_link_node n \<longleftrightarrow> (case n of Some (Link t) \<Rightarrow> True | _ \<Rightarrow> False)"
  by (simp add: is_link_node_def split: option.split node.split)

lemma plain_at_code [code]:
  "plain_at root q \<longleftrightarrow> q \<noteq> [] \<and> names_ok q \<and> dir_at root (butlast q) \<and> \<not> is_link_node (fs_get root q)"
  by (simp add: plain_at_def dir_at_iff)

lemma names_ok_simps [simp]:
  "names_ok []" "names_ok (c # q) \<longleftrightarrow> plain_component c \<and> slash \<notin> set c \<and> names_ok q"
  "names_ok (p @ q) \<longleftrightarrow> names_ok p \<and> names_ok q"
  by (auto simp: names_ok_def)

lemma py_startswith_path_of [simp]: "py_startswith (path_of q) ''/''"
  by (simp add: path_of_def py_startswith_def)

lemma path_of_not_Nil [simp]: "path_of q \<noteq> []"
  by (simp add: path_of_def)

lemma py_split_path_of:
  assumes "names_ok q" and "q \<noteq> []"
  shows "py_split slash (path_of q) = [] # q"
proof -
  have "py_split slash (py_join [slash] q) = q"
    using assms by (intro py_split_join) (auto simp: names_ok_def)
  then show ?thesis by (simp add: path_of_def slash_def)
qed

lemma resolve_there:
  "names_ok q \<Longrightarrow> fs_get root (acc @ q) = Some n \<Longrightarrow> \<not> is_link_node (Some n) \<Longrightarrow>
     resolve root k f acc q = Some (acc @ q)"
proof (induction q arbitrary: acc)
  case (Cons c q)
  show ?case
  proof (cases q)
    case Nil
    with Cons.prems show ?thesis
      by (cases n) (simp_all add: resolve_steps is_link_node_def)
  next
    case (Cons d q')
    then obtain m es where "fs_get root (acc @ [c]) = Some (Dir m es)"
      using fs_get_above [of root "acc @ [c]" d q'] Cons.prems by auto
    with Cons.prems Cons.IH [of "acc @ [c]"] show ?thesis by (simp add: resolve_steps)
  qed
qed simp

lemma resolve_new:
  "names_ok q \<Longrightarrow> fs_get root (acc @ q) = Some (Dir m es) \<Longrightarrow> plain_component c \<Longrightarrow>
     fs_get root (acc @ q @ [c]) = None \<Longrightarrow> resolve root k f acc (q @ [c]) = Some (acc @ q @ [c])"
proof (induction q arbitrary: acc)
  case (Cons d q)
  have "\<exists>m es. fs_get root (acc @ [d]) = Some (Dir m es)"
  proof (cases q)
    case Nil
    with Cons.prems show ?thesis by simp
  next
    case (Cons d' q')
    then show ?thesis using fs_get_above [of root "acc @ [d]" d' q'] Cons.prems by simp
  qed
  with Cons.prems Cons.IH [of "acc @ [d]"] show ?case by (auto simp: resolve_steps)
qed (simp add: resolve_steps)

lemma locate_plain:
  assumes "plain_at root q"
  shows "locate h root f (path_of q) = Some q"
proof -
  have q: "q \<noteq> []" "names_ok q" using assms by (simp_all add: plain_at_def)
  then obtain p c where p: "q = p @ [c]" by (metis append_butlast_last_id)
  have "resolve root max_links f [] q = Some q"
  proof (cases "fs_get root q")
    case None
    with assms show ?thesis
      using resolve_new [of p root "[]"] by (auto simp: p plain_at_def)
  next
    case (Some n)
    with assms show ?thesis
      using resolve_there [of q root "[]"] by (auto simp: plain_at_def)
  qed
  with q show ?thesis by (simp add: locate_def py_split_path_of resolve_steps)
qed

lemma locate_root [simp]: "locate h root f (path_of []) = Some []"
  by (simp add: locate_def path_of_def slash_def resolve_steps py_startswith_def)

lemma os_stat_root [simp]: "os_stat h root (path_of []) = Some root"
  by (simp add: os_stat_def)

text \<open>What the queries see at a plain position.\<close>

lemma os_stat_plain: "plain_at root q \<Longrightarrow> os_stat h root (path_of q) = fs_get root q"
  by (simp add: os_stat_def locate_plain)

lemma os_lstat_plain: "plain_at root q \<Longrightarrow> os_lstat h root (path_of q) = fs_get root q"
  by (simp add: os_lstat_def locate_plain)

lemma os_exists_plain: "plain_at root q \<Longrightarrow> os_exists h root (path_of q) \<longleftrightarrow> fs_get root q \<noteq> None"
  by (simp add: os_exists_def os_stat_plain)

lemma os_lexists_plain: "plain_at root q \<Longrightarrow> os_lexists h root (path_of q) \<longleftrightarrow> fs_get root q \<noteq> None"
  by (simp add: os_lexists_def os_lstat_plain)

lemma os_isdir_plain:
  "plain_at root q \<Longrightarrow> os_isdir h root (path_of q) \<longleftrightarrow> (\<exists>m es. fs_get root q = Some (Dir m es))"
  by (simp add: os_isdir_def os_stat_plain split: option.split node.split)

lemmas plain_queries = os_stat_plain os_lstat_plain os_exists_plain os_lexists_plain os_isdir_plain

lemma plain_at_there:
  "names_ok q \<Longrightarrow> q \<noteq> [] \<Longrightarrow> fs_get root q = Some n \<Longrightarrow> \<not> is_link_node (Some n) \<Longrightarrow> plain_at root q"
  using fs_get_above [of root "butlast q" "last q" "[]"]
  by (simp add: plain_at_def)

lemma plain_at_file: "names_ok q \<Longrightarrow> q \<noteq> [] \<Longrightarrow> fs_get root q = Some (File m x) \<Longrightarrow> plain_at root q"
  using plain_at_there [of q root "File m x"] by (simp add: is_link_node_def)

text \<open>A plain position stays one after a change at it or apart from it.\<close>

lemma fs_get_above_put: "fs_get n p = Some (Dir m es) \<Longrightarrow> \<exists>m es. fs_get (fs_put (p @ [c]) x n) p = Some (Dir m es)"
proof (induction p arbitrary: n)
  case Nil
  then show ?case by (cases n) (simp_all split: option.split)
next
  case (Cons d p)
  then show ?case by (cases n) (simp_all split: option.splits)
qed

lemma fs_get_above_del: "fs_get n p = Some (Dir m es) \<Longrightarrow> \<exists>m es. fs_get (fs_del (p @ [c]) n) p = Some (Dir m es)"
proof (induction p arbitrary: n)
  case Nil
  then show ?case by (cases n) (simp_all split: option.split)
next
  case (Cons d p)
  then show ?case by (cases n) (simp_all split: option.splits)
qed

lemma fs_get_put_plain: "plain_at root q \<Longrightarrow> fs_get (fs_put q x root) q = Some x"
  unfolding plain_at_def
  by (metis append_butlast_last_id fs_get_put_new is_dir_node.simps(1))

lemma plain_at_put:
  assumes "plain_at root q" and "\<not> is_link_node (Some x)"
  shows "plain_at (fs_put q x root) q"
  using assms fs_get_above_put [of root "butlast q" _ _ "last q" x] fs_get_put_plain [OF assms(1), of x]
  by (auto simp: plain_at_def)

lemma plain_at_del: "plain_at root q \<Longrightarrow> plain_at (fs_del q root) q"
  using fs_get_above_del [of root "butlast q" _ _ "last q"] fs_get_del [of q root]
  by (auto simp: plain_at_def is_link_node_def)

section \<open>Operations at plain positions\<close>

definition writable :: "host \<Rightarrow> string list \<Rightarrow> bool" where
  "writable h q \<longleftrightarrow> \<not> host_read_only h q"

definition new_file_meta :: "host \<Rightarrow> meta" where
  "new_file_meta h = \<lparr>m_mode = host_file_mode h, m_uid = host_uid h, m_gid = host_gid h\<rparr>"

lemma alter_writable: "writable h q \<Longrightarrow> alter wrap h p q f s = (Inr (), f s)"
  by (simp add: alter_def writable_def p_modify_def)

lemma os_remove_plain:
  "plain_at root q \<Longrightarrow> fs_get root q = Some (File m x) \<Longrightarrow> writable h q \<Longrightarrow>
     os_remove wrap h (path_of q) root = (Inr (), fs_del q root)"
  by (simp add: os_remove_def p_bind_def p_gets_def locate_plain alter_writable)

lemma read_file_plain:
  "plain_at root q \<Longrightarrow> fs_get root q = Some (File m x) \<Longrightarrow> read_file wrap h (path_of q) root = (Inr x, root)"
  by (simp add: read_file_def p_bind_def p_gets_def os_stat_plain p_return_def)

lemma write_file_plain:
  assumes "plain_at root q" and "fs_get root q = None" and "writable h q"
  shows "write_file wrap h (path_of q) x root = (Inr (), fs_put q (File (new_file_meta h) x) root)"
  using assms
  by (auto simp: write_file_def p_bind_def p_gets_def locate_plain plain_at_def alter_writable new_file_meta_def)

lemma change_meta_plain:
  "plain_at root q \<Longrightarrow> fs_get root q = Some (File m x) \<Longrightarrow> writable h q \<Longrightarrow>
     change_meta wrap h (path_of q) f root = (Inr (), fs_put q (File (f False m) x) root)"
  by (simp add: change_meta_def p_bind_def p_gets_def locate_plain alter_writable)

lemma os_chmod_plain:
  "c_int mode \<Longrightarrow> plain_at root q \<Longrightarrow> fs_get root q = Some (File m x) \<Longrightarrow> writable h q \<Longrightarrow>
     os_chmod wrap h (path_of q) mode root = (Inr (), fs_put q (File (m\<lparr>m_mode := nat (mode mod 4096)\<rparr>) x) root)"
  by (simp add: os_chmod_def change_meta_plain)

lemma os_chown_plain:
  "plain_at root q \<Longrightarrow> fs_get root q = Some (File m x) \<Longrightarrow> writable h q \<Longrightarrow>
     os_chown wrap h (path_of q) uid gid root =
       (Inr (), fs_put q (File (m\<lparr>m_uid := uid, m_gid := gid, m_mode := clear_setid (m_mode m)\<rparr>) x) root)"
  by (simp add: os_chown_def change_meta_plain)

lemmas plain_operations =
  os_remove_plain read_file_plain write_file_plain change_meta_plain os_chmod_plain os_chown_plain

section \<open>Paths of positions\<close>

lemma py_join_snoc: "q \<noteq> [] \<Longrightarrow> py_join sep (q @ [c]) = py_join sep q @ sep @ c"
  by (induction sep q rule: py_join.induct) (auto simp: py_join_Cons)

lemma path_of_snoc: "path_of (q @ [c]) = (if q = [] then ''/'' @ c else path_of q @ ''/'' @ c)"
  by (simp add: path_of_def py_join_snoc)

lemma path_basename_of: "names_ok (q @ [c]) \<Longrightarrow> path_basename (path_of (q @ [c])) = c"
  using path_basename_append [of c "[]"] path_basename_append [of c "path_of q"]
  by (simp add: path_of_snoc)

lemma path_of_last_no_slash: "names_ok q \<Longrightarrow> q \<noteq> [] \<Longrightarrow> last (path_of q) \<noteq> slash"
proof -
  assume q: "names_ok q" "q \<noteq> []"
  then obtain p c where p: "q = p @ [c]" by (metis append_butlast_last_id)
  with q have "c \<noteq> []" "slash \<notin> set c" by (auto simp: plain_component_def)
  then have "last c \<noteq> slash" by (metis last_in_set)
  with \<open>c \<noteq> []\<close> show ?thesis by (simp add: p path_of_snoc)
qed

lemma path_of_no_end_slash: "names_ok q \<Longrightarrow> q \<noteq> [] \<Longrightarrow> \<not> py_endswith (path_of q) ''/''"
  using path_of_last_no_slash [of q]
  by (auto simp: py_endswith_suffix suffix_def slash_def)

lemma path_dirname_of:
  assumes "names_ok (q @ [c])"
  shows "path_dirname (path_of (q @ [c])) = path_of q"
proof (cases "q = []")
  case True
  with path_basename_of [OF assms] show ?thesis
    by (simp add: path_dirname_def path_of_def slash_def)
next
  case False
  have "take (length (path_of (q @ [c])) - length (path_basename (path_of (q @ [c])))) (path_of (q @ [c]))
      = path_of q @ ''/''"
    by (simp add: path_basename_of [OF assms]) (simp add: path_of_snoc False)
  moreover have "last (path_of q) \<noteq> slash"
    using assms False by (intro path_of_last_no_slash) simp_all
  moreover have "\<not> set (path_of q @ ''/'') \<subseteq> {slash}"
    
  proof
    assume "set (path_of q @ ''/'') \<subseteq> {slash}"
    moreover have "last (path_of q) \<in> set (path_of q @ ''/'')" by simp
    ultimately have "last (path_of q) \<in> {slash}" by (rule subsetD)
    with \<open>last (path_of q) \<noteq> slash\<close> show False by simp
  qed
  moreover have "dropWhile (\<lambda>c. c = slash) (rev (path_of q @ ''/'')) = rev (path_of q)"
    using calculation(2) by (cases "path_of q" rule: rev_cases) (simp_all add: slash_def)
  ultimately show ?thesis by (simp add: path_dirname_def Let_def)
qed

section \<open>Directories\<close>

lemma os_exists_above:
  assumes "plain_at root q"
  shows "os_exists h root (path_dirname (path_of q))"
proof -
  obtain p c where q: "q = p @ [c]" using assms by (metis append_butlast_last_id plain_at_def)
  show ?thesis
  proof (cases "p = []")
    case True
    with assms path_dirname_of [of p c] show ?thesis by (simp add: q plain_at_def os_exists_def)
  next
    case False
    then obtain p' c' where p: "p = p' @ [c']" by (metis append_butlast_last_id)
    obtain m es where d: "fs_get root p = Some (Dir m es)"
      using assms by (auto simp: plain_at_def q)
    with assms fs_get_above [of root p' c' "[]"] have "plain_at root p"
      unfolding plain_at_def is_link_node_def q by (simp add: p)
    moreover have "path_dirname (path_of q) = path_of p"
      using assms path_dirname_of [of p c] by (simp add: q plain_at_def)
    ultimately show ?thesis using d by (simp add: os_exists_plain)
  qed
qed

lemma path_join_of:
  assumes "names_ok (q @ [c])" and "q \<noteq> []"
  shows "path_join (path_of q) c = path_of (q @ [c])"
proof -
  have "\<not> py_startswith c ''/''"
    using assms(1) by (auto simp: py_startswith_prefix prefix_def slash_def)
  then show ?thesis
    using path_of_no_end_slash [of q] assms by (simp add: path_join_def path_of_snoc)
qed

lemma fs_put_put: "fs_put q y (fs_put q x n) = fs_put q y n"
proof (induction q arbitrary: n)
  case (Cons c q)
  then show ?case by (cases n) (auto split: option.splits)
qed simp

lemma fs_put_same: "fs_get n q = Some x \<Longrightarrow> fs_put q x n = n"
proof (induction q arbitrary: n)
  case (Cons c q)
  then show ?case by (cases n) (auto simp: dict_set_same split: option.splits)
qed simp

lemma fs_put_below:
  "fs_get (fs_put q (Dir m d) n) q = Some (Dir m d) \<Longrightarrow>
     fs_put (q @ [c]) y (fs_put q (Dir m d) n) = fs_put q (Dir m (dict_set c y d)) n"
proof (induction q arbitrary: n)
  case Nil
  then show ?case by (auto split: option.splits)
next
  case (Cons b q)
  then show ?case by (cases n) (auto split: option.splits if_splits)
qed

lemma write_file_over:
  assumes "plain_at root q" and "fs_get root q = Some (File m y)" and "writable h q"
  shows "write_file wrap h (path_of q) x root = (Inr (), fs_put q (File m x) root)"
  using assms by (simp add: write_file_def p_bind_def p_gets_def locate_plain alter_writable)

lemma os_chmod_dir:
  "c_int mode \<Longrightarrow> plain_at root q \<Longrightarrow> fs_get root q = Some (Dir m es) \<Longrightarrow> writable h q \<Longrightarrow>
     os_chmod wrap h (path_of q) mode root = (Inr (), fs_put q (Dir (m\<lparr>m_mode := nat (mode mod 4096)\<rparr>) es) root)"
  by (simp add: os_chmod_def change_meta_def p_bind_def p_gets_def locate_plain alter_writable)

definition new_dir_meta :: "host \<Rightarrow> meta" where
  "new_dir_meta h = \<lparr>m_mode = host_dir_mode h, m_uid = host_uid h, m_gid = host_gid h\<rparr>"

lemma os_mkdir_plain:
  "plain_at root q \<Longrightarrow> fs_get root q = None \<Longrightarrow> writable h q \<Longrightarrow>
     os_mkdir wrap h (path_of q) root = (Inr (), fs_put q (Dir (new_dir_meta h) []) root)"
  by (auto simp: os_mkdir_def create_def p_bind_def p_gets_def locate_plain alter_writable new_dir_meta_def plain_at_def)

lemma makedirs_plain:
  assumes "plain_at root q" and "fs_get root q = None \<or> dir_at root q" and "writable h q"
  shows "makedirs wrap h True (path_of q) root =
    (Inr (), if dir_at root q then root else fs_put q (Dir (new_dir_meta h) []) root)"
proof -
  obtain k where k: "length (path_of q) = Suc k" by (cases "path_of q") simp_all
  obtain p c where q: "q = p @ [c]" using assms(1) by (metis append_butlast_last_id plain_at_def)
  have names: "names_ok (p @ [c])" using assms(1) by (simp add: q plain_at_def)
  have "path_basename (path_of q) \<noteq> []"
    using path_basename_of [OF names] names by (simp add: q plain_component_def)
  then have "os_exists h root (fst (split_tail (path_of q)))"
    using os_exists_above [OF assms(1)] by (simp add: split_tail_def)
  moreover have "os_isdir h root (path_of q) \<longleftrightarrow> dir_at root q"
    using assms(1) by (simp add: os_isdir_plain dir_at_iff)
  ultimately show ?thesis
    using assms os_mkdir_plain [OF assms(1) _ assms(3)]
    by (auto simp: makedirs_def k p_bind_def p_then_def p_gets_def p_return_def dir_at_def)
qed

lemma list_dir_plain:
  "plain_at root q \<Longrightarrow> fs_get root q = Some (Dir m es) \<Longrightarrow> list_dir wrap h (path_of q) root = (Inr (map fst es), root)"
  by (simp add: list_dir_def p_bind_def p_gets_def os_stat_plain p_return_def)

end
