(* ===== verification/Path_Prefix.thy ===== *)
theory Path_Prefix
  imports Build_Task File_System_Props
begin

text \<open>
  What the test of \<open>_test_malicious_tarball\<close> compares: normalised absolute paths as strings. The
  lemmas say in components when one such path is a prefix of another, and that \<open>abspath\<close> gives such paths.
\<close>

lemma path_of_Cons: "path_of (c # q) = slash # c @ (if q = [] then [] else path_of q)"
  by (cases q) (simp_all add: path_of_def slash_def)

text \<open>Up to the first slash the two strings agree.\<close>

lemma takeWhile_name:
  "slash \<notin> set k \<Longrightarrow> v = [] \<or> hd v = slash \<Longrightarrow> takeWhile (\<lambda>c. c \<noteq> slash) (k @ v) = k"
  by (induction k) (auto simp: takeWhile_eq_Nil_iff)

lemma takeWhile_names:
  "slash \<notin> set d \<Longrightarrow> takeWhile (\<lambda>c. c \<noteq> slash) (d @ w) = d @ takeWhile (\<lambda>c. c \<noteq> slash) w"
  by (rule takeWhile_append2) auto

lemma prefix_component:
  assumes c: "slash \<notin> set c" and k: "slash \<notin> set k" and v: "v = [] \<or> hd v = slash"
  shows "prefix (c @ slash # u) (k @ v) \<longleftrightarrow> c = k \<and> prefix (slash # u) v"
proof
  assume "prefix (c @ slash # u) (k @ v)"
  then obtain w where w: "k @ v = c @ slash # u @ w" by (auto simp: prefix_def)
  have "k = c" using takeWhile_name [OF k v] takeWhile_names [OF c, of "slash # u @ w"] by (simp add: w)
  with w show "c = k \<and> prefix (slash # u) v" by (simp add: prefix_def)
qed simp

lemma prefix_name:
  assumes d: "slash \<notin> set d" and k: "slash \<notin> set k" and v: "v = [] \<or> hd v = slash"
  shows "prefix d (k @ v) \<longleftrightarrow> prefix d k"
proof
  assume "prefix d (k @ v)"
  then obtain w where w: "k @ v = d @ w" by (auto simp: prefix_def)
  have "k = d @ takeWhile (\<lambda>c. c \<noteq> slash) w" using takeWhile_name [OF k v] takeWhile_names [OF d, of w] by (simp add: w)
  then show "prefix d k" by simp
qed simp

text \<open>What follows the first name of a path.\<close>

definition path_rest :: "string list \<Rightarrow> string" where
  "path_rest q = (if q = [] then [] else path_of q)"

lemma path_of_first: "path_of (c # q) = slash # c @ path_rest q"
  by (simp add: path_rest_def path_of_Cons)

lemma path_rest_slash: "path_rest q = [] \<or> hd (path_rest q) = slash"
  by (simp add: path_rest_def path_of_def slash_def)

lemma path_of_root: "names_ok (c # q) \<Longrightarrow> \<not> prefix (path_of (c # q)) (path_of [])"
  by (cases c) (simp_all add: path_of_first plain_component_def, simp add: path_of_def)

lemma path_of_prefix:
  "names_ok (cs @ [d]) \<Longrightarrow> names_ok ks \<Longrightarrow>
     prefix (path_of (cs @ [d])) (path_of ks) \<longleftrightarrow> (\<exists>x rest. ks = cs @ (d @ x) # rest)"
proof (induction cs arbitrary: ks)
  case Nil
  show ?case
  proof (cases ks)
    case Nil
    with path_of_root [of d "[]"] \<open>names_ok ([] @ [d])\<close> show ?thesis by simp
  next
    case (Cons k rest)
    with \<open>names_ok ks\<close> \<open>names_ok ([] @ [d])\<close>
    have "prefix (path_of [d]) (path_of ks) \<longleftrightarrow> prefix d k"
      using prefix_name [OF _ _ path_rest_slash, of d k rest] by (simp add: path_of_first path_rest_def [of "[]"])
    then show ?thesis by (simp add: Cons prefix_def)
  qed
next
  case (Cons c cs)
  show ?case
  proof (cases ks)
    case Nil
    with path_of_root [of c "cs @ [d]"] Cons.prems show ?thesis by simp
  next
    case (Cons k rest)
    obtain u where u: "path_of (cs @ [d]) = slash # u" by (simp add: path_of_def slash_def)
    have "prefix (path_of (c # cs @ [d])) (path_of ks) \<longleftrightarrow> prefix (c @ slash # u) (k @ path_rest rest)"
      by (simp add: Cons path_of_first path_rest_def [of "cs @ [d]"] u)
    also have "\<dots> \<longleftrightarrow> c = k \<and> prefix (path_of (cs @ [d])) (path_rest rest)"
      using Cons.prems by (subst prefix_component [OF _ _ path_rest_slash]) (simp_all add: Cons u)
    also have "prefix (path_of (cs @ [d])) (path_rest rest) \<longleftrightarrow> (\<exists>x rest'. rest = cs @ (d @ x) # rest')"
    proof (cases "rest = []")
      case True
      then show ?thesis by (simp add: path_rest_def)
    next
      case False
      with Cons.prems Cons.IH [of rest] show ?thesis by (simp add: path_rest_def Cons)
    qed
    finally show ?thesis by (auto simp: Cons)
  qed
qed

section \<open>Normalised paths\<close>

lemma norm_step_members: "set (norm_step a new cs) \<subseteq> set new \<union> set cs"
  by (induction a new cs rule: norm_step.induct) (auto dest: in_set_butlastD split: if_splits)

lemma norm_step_names:
  assumes "\<forall>c \<in> set cs. slash \<notin> set c"
  shows "names_ok (norm_step True [] cs)"
  using norm_step_plain [of "[]" cs] norm_step_members [of True "[]" cs] assms
  by (auto simp: names_ok_def)

lemma norm_step_plain_append:
  "names_ok cs \<Longrightarrow> norm_step True new (cs @ rest) = norm_step True (new @ cs) rest"
  by (induction cs arbitrary: new) (simp_all add: plain_component_def)

text \<open>The normal form of an absolute path; two leading slashes are kept as they are.\<close>

lemma abspath_absolute:
  assumes "py_startswith p ''/''"
  shows "\<exists>ks. names_ok ks \<and> (path_abspath cwd p = path_of ks \<or> path_abspath cwd p = slash # path_of ks)"
proof -
  let ?ks = "norm_step True [] (py_split slash p)"
  have "names_ok ?ks"
    by (rule norm_step_names) (use py_split_no_sep_inside in blast)
  moreover have "path_abspath cwd p = path_of ?ks \<or> path_abspath cwd p = slash # path_of ?ks"
    using assms by (simp add: path_abspath_def path_normpath_def Let_def initial_slashes_def path_of_def slash_def)
  ultimately show ?thesis by blast
qed

lemma path_of_second:
  assumes "names_ok (c # q)"
  shows "\<not> prefix (path_of (c # q)) (slash # path_of ks)"
proof -
  obtain a c' where "c = a # c'" "a \<noteq> slash" using assms by (cases c) (auto simp: plain_component_def)
  then show ?thesis by (simp add: path_of_first) (simp add: path_of_def slash_def)
qed

text \<open>The test on names that stay inside the target, as strings.\<close>

lemma safe_name_iff:
  assumes ok: "names_ok (cs @ [d])"
  shows "\<not> unsafe_name cwd (path_of (cs @ [d])) n \<longleftrightarrow>
    (\<exists>x rest. names_ok (cs @ (d @ x) # rest) \<and>
       path_abspath cwd (path_join (path_of (cs @ [d])) n) = path_of (cs @ (d @ x) # rest))"
proof -
  let ?t = "path_of (cs @ [d])" and ?p = "path_abspath cwd (path_join (path_of (cs @ [d])) n)"
  have "py_startswith (path_join ?t n) ''/''"
    by (simp add: path_join_def) (simp add: path_of_def py_startswith_def)
  then obtain ks where ks: "names_ok ks" "?p = path_of ks \<or> ?p = slash # path_of ks"
    using abspath_absolute by blast
  have first: "\<not> prefix ?t (slash # path_of qs)" for qs
    using path_of_second [of "hd (cs @ [d])" "tl (cs @ [d])" qs] ok by (cases cs) auto
  have inside: "prefix ?t (path_of (cs @ (d @ x) # rest))" if "names_ok (cs @ (d @ x) # rest)" for x rest
    using path_of_prefix [OF ok that] by blast
  show ?thesis
    unfolding unsafe_name_def py_startswith_prefix not_not
  proof
    assume "prefix ?t ?p"
    with ks first have "?p = path_of ks" by metis
    with \<open>prefix ?t ?p\<close> ks(1) path_of_prefix [OF ok ks(1)]
    show "\<exists>x rest. names_ok (cs @ (d @ x) # rest) \<and> ?p = path_of (cs @ (d @ x) # rest)" by metis
  next
    assume "\<exists>x rest. names_ok (cs @ (d @ x) # rest) \<and> ?p = path_of (cs @ (d @ x) # rest)"
    with inside show "prefix ?t ?p" by metis
  qed
qed

text \<open>A name that climbs to a sibling of the target.\<close>

lemma abspath_sibling:
  assumes ok: "names_ok (cs @ [d])" and sib: "names_ok [e]"
  shows "path_abspath cwd (path_join (path_of (cs @ [d])) (''../'' @ e)) = path_of (cs @ [e])"
proof -
  let ?p = "path_of (cs @ [d, ''..'', e])"
  have "\<not> py_endswith (path_of (cs @ [d])) ''/''" using ok by (intro path_of_no_end_slash) auto
  then have join: "path_join (path_of (cs @ [d])) (''../'' @ e) = ?p"
    using path_of_snoc [of "cs @ [d, ''..'']" e] path_of_snoc [of "cs @ [d]" "''..''"]
    by (simp add: path_join_def py_startswith_def)
  have "py_split slash (py_join [slash] (cs @ [d, ''..'', e])) = cs @ [d, ''..'', e]"
    using ok sib by (intro py_split_join) (auto simp: names_ok_def slash_def)
  then have split: "py_split slash ?p = [] # cs @ [d, ''..'', e]" by (simp add: path_of_def slash_def)
  have "norm_step True [] ([] # cs @ [d, ''..'', e]) = norm_step True (cs @ [d]) [''..'', e]"
    using norm_step_plain_append [of "cs @ [d]" "[]" "[''..'', e]"] ok by simp
  also have "\<dots> = cs @ [e]" using ok sib by (simp add: plain_component_def)
  finally have norm: "norm_step True [] (py_split slash ?p) = cs @ [e]" by (simp add: split)
  have "\<not> py_startswith ?p ''//''"
  proof -
    obtain c q where q: "cs @ [d, ''..'', e] = c # q" "plain_component c" "slash \<notin> set c"
      using ok by (cases cs) auto
    then obtain a c' where "c = a # c'" "a \<noteq> slash" by (cases c) (auto simp: plain_component_def)
    then show ?thesis by (simp add: q path_of_first py_startswith_def slash_def)
  qed
  then have "initial_slashes ?p = ''/''" by (simp add: initial_slashes_def)
  with norm show ?thesis
    unfolding join path_abspath_def path_normpath_def by (simp add: path_of_def [of "cs @ [e]"])
qed

end
