(* ===== verification/Task_Properties.thy ===== *)
theory Task_Properties
  imports Build_Task_Props Sample_Data Path_Prefix
begin

text \<open>
  The properties of the tasks: what a run may do to the world and to the images, when an image
  ends as built or pushed, and two runs on which the code does not do what it means to.
\<close>

section \<open>What a build may do\<close>

text \<open>
  C5: Everything a build does is determined by its image, with all arguments. It writes a download
  only as the archive of an enabled url source that the image declares, with the downloaded
  content, and, where checksums are configured for the source, only if the one of the architecture
  is the content's. It removes, clones and checks out only the clone directories of declared
  enabled git sources, at their url and reference; it packs only complete clones and local directories, each into
  its source's archive, and the plugins and additions directories into theirs; it copies only
  local sources into their archives. It unpacks only archives of enabled plugins or additions, all of
  whose names pass the check, into the directory of their kind; it calls the engine only with the
  image's own arguments, squashes only for docker when configured, and never pushes.
\<close>

theorem builder_does_only_permitted:
  assumes "i < length (ts_images ts)" and "builder c env i ts = (r, ts')"
  shows "\<exists>es. ts_effects ts' = ts_effects ts @ es \<and>
    (\<forall>e \<in> set es. permitted c env (ts_images ts ! i) e)"
  using assms by (rule builder_actions)

definition sample_build :: tstate where
  "sample_build = \<lparr>ts_images = [(new_image ''nova'' ''k/nova'' ''/w/nova'' ''k/base'')
     \<lparr>img_status := MATCHED, img_source := Some sample_source\<rparr>], ts_effects = []\<rparr>"

lemma sample_build_run:
  "ts_effects (snd (builder sample_conf sample_env 0 sample_build)) \<noteq> []"
  "status_at (ts_images (snd (builder sample_conf sample_env 0 sample_build))) 0 = BUILT"
  by code_simp+

lemma sample_build_length: "0 < length (ts_images sample_build)"
  by (simp add: sample_build_def)

theorem builder_does_only_permitted_witness:
  "\<exists>es. ts_effects (snd (builder sample_conf sample_env 0 sample_build)) = es \<and> es \<noteq> [] \<and>
     (\<forall>e \<in> set es. permitted sample_conf sample_env (ts_images sample_build ! 0) e)"
  using builder_does_only_permitted [OF sample_build_length, of sample_conf sample_env
      "fst (builder sample_conf sample_env 0 sample_build)" "snd (builder sample_conf sample_env 0 sample_build)"]
    sample_build_run(1)
  by (simp add: sample_build_def)

text \<open>
  A build changes no image but its own, of its own image only the status, and leaves there
  the status it found or one of the statuses of a run.
\<close>

theorem builder_touches_own_image:
  "same_shape (ts_images ts) (ts_images (snd (builder c env i ts))) \<and>
   {j. j < length (ts_images ts) \<and>
       status_at (ts_images (snd (builder c env i ts))) j \<noteq> status_at (ts_images ts) j} \<subseteq>
     {j. j = i \<and> run_status (status_at (ts_images (snd (builder c env i ts))) j)}"
  using p_withinD [OF touches_builder, of i ts c env] by (auto simp: touches_def)

text \<open>
  C8: An image ends as built only when the engine was called with the image's arguments and all
  its messages were read without an error or an exception.
\<close>

theorem built_images_were_built:
  assumes "i < length (ts_images ts)" and "builder c env i ts = (r, ts')"
    and "status_at (ts_images ts') i = BUILT"
  shows "engine_completes c env (ts_images ts ! i) \<and>
    EngineBuild (engine_build_args c env (ts_images ts ! i)) \<in> set (ts_effects ts')"
  using assms by (rule builder_built_by_engine)

theorem built_images_were_built_witness:
  "engine_completes sample_conf sample_env (ts_images sample_build ! 0) \<and>
    EngineBuild (engine_build_args sample_conf sample_env (ts_images sample_build ! 0)) \<in>
      set (ts_effects (snd (builder sample_conf sample_env 0 sample_build)))"
  by (rule built_images_were_built [OF sample_build_length _ sample_build_run(2)]) (rule prod.collapse [symmetric])

text \<open>
  An image that is skipped, unbuildable or unmatched is left alone: nothing is done and no
  status changes.
\<close>

theorem builder_leaves_unselected:
  assumes "status_at (ts_images ts) i \<in> {SKIPPED, UNBUILDABLE, UNMATCHED}"
  shows "builder c env i ts = (Inr (), ts)"
  using assms by (rule builder_skips)

theorem builder_leaves_unselected_witness:
  "builder sample_conf sample_env 0 (sample_build\<lparr>ts_images := set_status 0 SKIPPED (ts_images sample_build)\<rparr>) =
     (Inr (), sample_build\<lparr>ts_images := set_status 0 SKIPPED (ts_images sample_build)\<rparr>)"
  by (rule builder_leaves_unselected) (simp add: sample_build_def set_status_def)

text \<open>
  An image whose parent ended with an error is not built: its status becomes
  \<open>parent\_error\<close>, and nothing is done.
\<close>

theorem builder_fails_with_parent:
  assumes "status_at (ts_images ts) i \<notin> {SKIPPED, UNBUILDABLE, UNMATCHED}"
    and "parent_at (ts_images ts) i = Some p" and "status_at (ts_images ts) p \<in> set STATUS_ERRORS"
  shows "builder c env i ts = (Inr (), ts\<lparr>ts_images := set_status i PARENT_ERROR (ts_images ts)\<rparr>)"
  using assms by (rule builder_parent_error)

definition sample_orphan :: tstate where
  "sample_orphan = \<lparr>ts_images = set_status 1 MATCHED (set_status 0 PUSH_ERROR (find_parents sample_images)),
     ts_effects = []\<rparr>"

theorem builder_fails_with_parent_witness:
  "builder sample_conf sample_env 1 sample_orphan =
     (Inr (), sample_orphan\<lparr>ts_images := set_status 1 PARENT_ERROR (ts_images sample_orphan)\<rparr>)"
proof (rule builder_fails_with_parent)
  show "parent_at (ts_images sample_orphan) 1 = Some 0"
    using nth_of_map [OF sample_forest(1), of 1] by (simp add: sample_orphan_def sample_images_def)
qed (simp_all add: sample_orphan_def store_simps sample_images_def)

text \<open>
  C31: With docker, a squash that does not find the last layer of the parent sets the status to
  error, and the end of the build overwrites it: the image ends as built, and was not squashed.
\<close>

theorem failed_squash_ends_built:
  assumes "conf_engine c = DOCKER" and "conf_squash c"
    and "env_build env (engine_build_args c env (ts_images ts ! i)) = BuildStream msgs"
    and "read_stream msgs = StreamDone" and "status_at (ts_images ts) i \<noteq> ERROR"
    and "env_image_id env (canonical_name (ts_images ts ! i)) = Some image_id"
    and "env_history env (parent_name (ts_images ts ! i)) = Some history"
    and "parent_last_layer (parent_name (ts_images ts ! i)) history = []"
  shows "engine_build c env i ts =
    (Inr (), \<lparr>ts_images = set_status i BUILT (ts_images ts),
      ts_effects = ts_effects ts @ [EngineBuild (engine_build_args c env (ts_images ts ! i))]\<rparr>)"
  using assms by (rule squash_failure_masked)

theorem failed_squash_ends_built_witness:
  "status_at (ts_images (snd (engine_build (sample_conf\<lparr>conf_squash := True\<rparr>) sample_env 0 sample_build))) 0 = BUILT"
proof -
  have "engine_build (sample_conf\<lparr>conf_squash := True\<rparr>) sample_env 0 sample_build =
    (Inr (), \<lparr>ts_images = set_status 0 BUILT (ts_images sample_build), ts_effects = ts_effects sample_build @
      [EngineBuild (engine_build_args (sample_conf\<lparr>conf_squash := True\<rparr>) sample_env (ts_images sample_build ! 0))]\<rparr>)"
    by (rule failed_squash_ends_built [where msgs = "[StreamText ''Step 1'']" and image_id = "''id''" and history = "[]"])
      (simp_all add: sample_conf_def sample_env_def sample_build_def new_image_def)
  then show ?thesis using sample_build_length by (simp add: store_simps)
qed

text \<open>
  C32: The check of the archive's names compares strings. For an absolute, normalised target directory it
  accepts a name exactly if, at the depth of the target, its absolute path goes through a
  directory whose name begins with the target's; so every name that climbs to a sibling whose name extends the
  target's is accepted, and leads outside of the target.
\<close>

theorem tarball_check_accepts_sibling:
  assumes "names_ok (cs @ [d])"
  shows "(\<not> unsafe_name cwd (path_of (cs @ [d])) n \<longleftrightarrow>
      (\<exists>x rest. names_ok (cs @ (d @ x) # rest) \<and>
         path_abspath cwd (path_join (path_of (cs @ [d])) n) = path_of (cs @ (d @ x) # rest))) \<and>
    (ext \<noteq> [] \<and> slash \<notin> set ext \<longrightarrow>
       \<not> unsafe_name cwd (path_of (cs @ [d])) (''../'' @ d @ ext) \<and>
       path_abspath cwd (path_join (path_of (cs @ [d])) (''../'' @ d @ ext)) = path_of (cs @ [d @ ext]))"
proof (intro conjI impI)
  assume x: "ext \<noteq> [] \<and> slash \<notin> set ext"
  have "d \<noteq> []" "d \<noteq> ''.''" "d \<noteq> ''..''" "slash \<notin> set d" "names_ok cs"
    using assms by (auto simp: plain_component_def)
  with x have sib: "names_ok (cs @ (d @ ext) # [])"
    by (auto simp: plain_component_def append_eq_Cons_conv)
  then have "names_ok [d @ ext]" by simp
  then show path: "path_abspath cwd (path_join (path_of (cs @ [d])) (''../'' @ d @ ext)) = path_of (cs @ [d @ ext])"
    using abspath_sibling [OF assms] by blast
  with sib show "\<not> unsafe_name cwd (path_of (cs @ [d])) (''../'' @ d @ ext)"
    using safe_name_iff [OF assms] by blast
qed (rule safe_name_iff [OF assms])

theorem tarball_check_accepts_sibling_witness:
  "\<not> unsafe_name ''/'' (path_of [''w'', ''nova'', ''plugins'']) (''../'' @ ''plugins'' @ ''-evil'') \<and>
   path_abspath ''/'' (path_join (path_of [''w'', ''nova'', ''plugins'']) (''../'' @ ''plugins'' @ ''-evil'')) =
     path_of [''w'', ''nova'', ''plugins-evil'']"
  using tarball_check_accepts_sibling [of "[''w'', ''nova'']" "''plugins''" "''/''" "[]" "''-evil''"]
  by (simp add: plain_component_def slash_def)

section \<open>Arguments of a build\<close>

text \<open>
  The build arguments are the configured ones, with the proxy variables of the environment
  added where none is configured under the same name; without any argument nothing is passed.
\<close>

theorem buildargs_prefer_configuration:
  "(case update_buildargs c env of None \<Rightarrow> None | Some args \<Rightarrow> dict_get args k) =
     (case dict_get (conf_build_args c) k of Some v \<Rightarrow> Some v
      | None \<Rightarrow> if k \<in> set proxy_vars then map_of (env_environ env) k else None)"
  by (rule update_buildargs_get)

section \<open>Pushing\<close>

text \<open>
  C28: A push task never raises; the image ends with the status of the engine's answer, built
  when no message of the push is an error, and the task is successful exactly then.
\<close>

theorem push_run_never_raises:
  assumes "i < length (ts_images ts)"
  shows "\<exists>ts'. push_run c env i ts = (Inr (push_outcome c env (ts_images ts ! i) = BUILT), ts') \<and>
    ts_images ts' = set_status i (push_outcome c env (ts_images ts ! i)) (ts_images ts)"
  using assms by (rule push_run_result)

theorem push_run_never_raises_witness:
  "\<exists>ts'. push_run sample_conf sample_env 0 sample_build =
      (Inr (push_outcome sample_conf sample_env (ts_images sample_build ! 0) = BUILT), ts') \<and>
    ts_images ts' = set_status 0 (push_outcome sample_conf sample_env (ts_images sample_build ! 0)) (ts_images sample_build)"
  by (rule push_run_never_raises [OF sample_build_length])

end
