(* ===== verification/Task_Pool.thy ===== *)
theory Task_Pool
  imports Build_Task_Props Image_Forest "HOL-Library.Multiset"
begin

text \<open>
  The abstract machine of a build: which tasks wait, which run, and which images have been
  started, without queues, threads or the main program. The threads of \<open>kolla/image/build.py\<close>
  refine it (theory \<open>Worker_Refinement\<close>); what holds of every schedule is proved here: an image is
  built at most once, never before its parent, and nothing that can be built is forgotten.
\<close>

section \<open>Tasks of an image\<close>

fun builds_image :: "nat \<Rightarrow> task \<Rightarrow> bool" where
  "builds_image i (BuildTask j b) \<longleftrightarrow> j = i"
| "builds_image i (PushTask j b) \<longleftrightarrow> False"
| "builds_image i (PushIntoQueueTask j b) \<longleftrightarrow> False"

fun pushes_image :: "nat \<Rightarrow> task \<Rightarrow> bool" where
  "pushes_image i (BuildTask j b) \<longleftrightarrow> False"
| "pushes_image i (PushTask j b) \<longleftrightarrow> j = i"
| "pushes_image i (PushIntoQueueTask j b) \<longleftrightarrow> j = i"

definition build_count :: "nat \<Rightarrow> task multiset \<Rightarrow> nat" where
  "build_count i M = size (filter_mset (builds_image i) M)"

lemma build_count_simps [simp]:
  "build_count i {#} = 0"
  "build_count i (add_mset t M) = (if builds_image i t then 1 else 0) + build_count i M"
  "build_count i (M + N) = build_count i M + build_count i N"
  by (simp_all add: build_count_def)

lemma build_count_remove:
  "t \<in># M \<Longrightarrow> build_count i (M - {#t#}) = build_count i M - (if builds_image i t then 1 else 0)"
  by (metis add_diff_cancel_left' build_count_simps(2) insert_DiffM)

lemma build_count_pos: "t \<in># M \<Longrightarrow> builds_image i t \<Longrightarrow> 0 < build_count i M"
  by (auto dest!: multi_member_split)

definition engine_called :: "conf \<Rightarrow> image \<Rightarrow> tstate \<Rightarrow> bool" where
  "engine_called c im ts \<longleftrightarrow> (\<exists>env. EngineBuild (engine_build_args c env im) \<in> set (ts_effects ts))"

lemma engine_called_grows: "engine_called c im ts \<Longrightarrow> grows ts ts' \<Longrightarrow> engine_called c im ts'"
  by (auto simp: engine_called_def grows_def)

section \<open>One run of a task\<close>

lemma within_builder:
  assumes "i < length (ts_images ts)" and "builder c env i ts = (r, ts')"
  shows "touches i ts ts'" and "grows ts ts'"
proof -
  show "touches i ts ts'" using touches_builder assms(2) by (rule p_within_run)
  show "grows ts ts'"
    using p_within_run [OF builds_builder [OF assms(1)] assms(2)]
    by (simp add: builds_def shaped_def built_by_engine_def grows_def)
qed

text \<open>A build that raises does not leave its image as built.\<close>

lemma engine_build_raises:
  assumes "engine_build c env i ts = (Inl e, ts')"
  shows "ts' = ts"
proof (cases "conf_engine c")
  case (OtherEngine x)
  with assms show ?thesis
    by (simp add: engine_build_def Let_def p_bind_def read_image_def p_gets_def p_raise_def)
next
  case DOCKER
  have failed: "build_failed c i us = (Inr (), us\<lparr>ts_images := set_status i ERROR (ts_images us)\<rparr>)" for us
    using DOCKER by (simp add: build_failed_def write_status_def p_modify_def)
  show ?thesis
    using assms DOCKER
    by (auto simp: engine_build_def Let_def p_bind_def read_image_def p_gets_def p_then_def
        perform_def p_modify_def p_catch_def p_return_def failed write_status_def
        split: build_reply.splits stream_end.splits sum.splits prod.splits if_splits)
next
  case PODMAN
  have failed: "build_failed c i us = (Inr (), us\<lparr>ts_images := set_status i ERROR (ts_images us)\<rparr>)" for us
    using PODMAN by (simp add: build_failed_def write_status_def p_modify_def)
  show ?thesis
    using assms PODMAN
    by (auto simp: engine_build_def Let_def p_bind_def read_image_def p_gets_def p_then_def
        perform_def p_modify_def p_catch_def p_return_def failed write_status_def
        split: build_reply.splits stream_end.splits sum.splits prod.splits if_splits)
qed

text \<open>The programs before the call of the engine never write BUILT.\<close>

definition stays_unbuilt :: "nat \<Rightarrow> tstate \<Rightarrow> tstate \<Rightarrow> bool" where
  "stays_unbuilt i ts ts' \<longleftrightarrow> length (ts_images ts') = length (ts_images ts) \<and>
     (i < length (ts_images ts) \<longrightarrow> status_at (ts_images ts) i \<noteq> BUILT \<longrightarrow> status_at (ts_images ts') i \<noteq> BUILT)"

interpretation unbuilt: state_frame "stays_unbuilt i" for i
  by unfold_locales (auto simp: stays_unbuilt_def)

lemma unbuilt_write: "s \<noteq> BUILT \<Longrightarrow> p_within (stays_unbuilt i) (write_status i s)"
  unfolding write_status_def by (rule unbuilt.within_modify) (auto simp: stays_unbuilt_def store_simps)

lemma unbuilt_perform: "p_within (stays_unbuilt i) (perform e)"
  unfolding perform_def by (rule unbuilt.within_modify) (auto simp: stays_unbuilt_def)

lemma unbuilt_read: "p_within (stays_unbuilt i) (read_image j)"
  by (simp add: read_image_def unbuilt.within_intros)

lemma unbuilt_perform_if: "p_within (stays_unbuilt i) (perform_if b p e)"
  by (simp add: perform_if_def unbuilt.within_intros unbuilt_perform)

lemmas unbuilt_intros =
  unbuilt.within_intros unbuilt_write unbuilt_perform unbuilt_perform_if unbuilt_read

lemma unbuilt_process_source: "p_within (stays_unbuilt i) (process_source c env i src)"
proof -
  have "p_within (stays_unbuilt i) (fetch_url c env i s dest)"
    "p_within (stays_unbuilt i) (fetch_git env i s dest)"
    "p_within (stays_unbuilt i) (fetch_local env s dest)" for s dest
    by (auto simp: fetch_url_def fetch_git_def git_failed_def fetch_local_def Let_def
        intro!: unbuilt_intros split: http_reply.split option.split git_reply.split)
  then show ?thesis
    by (auto simp: process_source_def Let_def intro!: unbuilt_intros split: option.split)
qed

lemma unbuilt_try_archive: "p_within (stays_unbuilt i) (try_archive c env i items arcname)"
proof -
  have "p_within (stays_unbuilt i) (collect_archives c env i items archives)" for archives
    by (induction items arbitrary: archives) (auto intro!: unbuilt_intros unbuilt_process_source)
  moreover have "p_within (stays_unbuilt i) (extract_archive env d a)" for d a
    by (auto simp: extract_archive_def test_malicious_tarball_def intro!: unbuilt_intros
        split: option.split)
  ultimately show ?thesis
    by (auto simp: try_archive_def make_an_archive_def Let_def intro!: unbuilt_intros
        split: mkdir_reply.split)
qed

text \<open>What raises leaves the image unbuilt.\<close>

definition raise_unbuilt :: "nat \<Rightarrow> unit task_prog \<Rightarrow> bool" where
  "raise_unbuilt i m \<longleftrightarrow> (\<forall>ts e ts'. m ts = (Inl e, ts') \<longrightarrow> stays_unbuilt i ts ts')"

lemma raise_unbuilt_return: "raise_unbuilt i (p_return x)"
  by (simp add: raise_unbuilt_def p_return_def)

lemma raise_unbuilt_bind:
  assumes "p_within (stays_unbuilt i) m" and "\<And>x. raise_unbuilt i (k x)"
  shows "raise_unbuilt i (p_bind m k)"
  unfolding raise_unbuilt_def
proof (intro allI impI)
  fix ts e ts' assume run: "p_bind m k ts = (Inl e, ts')"
  obtain r us where m: "m ts = (r, us)" by (cases "m ts")
  with assms(1) have su: "stays_unbuilt i ts us" by (rule p_within_run)
  show "stays_unbuilt i ts ts'"
  proof (cases r)
    case (Inl e')
    with run m su show ?thesis by (simp add: p_bind_def)
  next
    case (Inr x)
    with run m have "k x us = (Inl e, ts')" by (simp add: p_bind_def)
    with assms(2) have "stays_unbuilt i us ts'" by (simp add: raise_unbuilt_def)
    with su show ?thesis by (rule unbuilt.frame_trans)
  qed
qed

lemma raise_unbuilt_then:
  "p_within (stays_unbuilt i) m \<Longrightarrow> raise_unbuilt i k \<Longrightarrow> raise_unbuilt i (p_then m k)"
  unfolding p_then_def by (rule raise_unbuilt_bind)

lemma raise_unbuilt_engine: "raise_unbuilt i (engine_build c env i)"
  by (auto simp: raise_unbuilt_def unbuilt.frame_refl dest: engine_build_raises)

lemma raise_unbuilt_archives: "raise_unbuilt i (build_archives c env i)"
  unfolding build_archives_def
  by (auto intro!: raise_unbuilt_bind unbuilt_read unbuilt_try_archive raise_unbuilt_engine
      raise_unbuilt_return)

lemma write_status_run:
  "write_status i s ts = (Inr (), ts\<lparr>ts_images := set_status i s (ts_images ts)\<rparr>)"
  by (simp add: write_status_def p_modify_def)

lemma builder_raises_unbuilt:
  assumes i: "i < length (ts_images ts)" and run: "builder c env i ts = (Inl e, ts')"
  shows "status_at (ts_images ts') i \<noteq> BUILT"
proof -
  let ?us = "ts\<lparr>ts_images := set_status i BUILDING (ts_images ts)\<rparr>"
  let ?k = "case img_source (ts_images ts ! i) of
      None \<Rightarrow> build_archives c env i
    | Some s \<Rightarrow> p_then (process_source c env i (Some s))
        (p_bind (read_image i) (\<lambda>im.
           if img_status im \<in> set STATUS_ERRORS then p_return () else build_archives c env i))"
  have "?k ?us = (Inl e, ts')"
    using run
    by (simp add: builder_def p_bind_Inr [OF p_gets_run] p_return_def
        p_then_Inr [OF write_status_run] write_status_run split: if_splits)
  moreover have "raise_unbuilt i ?k"
    by (auto intro!: raise_unbuilt_then raise_unbuilt_bind unbuilt_process_source unbuilt_read
        raise_unbuilt_archives raise_unbuilt_return split: option.split)
  ultimately have "stays_unbuilt i ?us ts'" by (simp add: raise_unbuilt_def)
  then show ?thesis using i by (simp add: stays_unbuilt_def store_simps)
qed

lemma task_run_build:
  assumes i: "i < length (ts_images ts)" and run: "task_run c env (BuildTask i False) ts = (r, ts', t', puts)"
  shows "puts = [] \<and> (\<exists>b. t' = BuildTask i b) \<and> touches i ts ts' \<and> grows ts ts' \<and>
    (status_at (ts_images ts') i = BUILT \<longrightarrow> r = Inr () \<and> t_success t' \<and> engine_called c (ts_images ts ! i) ts') \<and>
    (r = Inr () \<and> t_success t' \<longrightarrow> status_at (ts_images ts') i \<in> {BUILT, SKIPPED})"
proof -
  obtain q us where b: "builder c env i ts = (q, us)" by (cases "builder c env i ts")
  have us: "us = ts'" using run b by (auto split: sum.splits)
  have "engine_called c (ts_images ts ! i) ts'" if "status_at (ts_images ts') i = BUILT"
    using builder_built_by_engine [OF i b] that us by (auto simp: engine_called_def)
  moreover have "q = Inr ()" if "status_at (ts_images ts') i = BUILT"
    using builder_raises_unbuilt [OF i] b that us by (cases q) auto
  ultimately show ?thesis
    using run b us within_builder [OF i b] by (auto split: sum.splits if_splits)
qed

lemma task_run_push:
  assumes i: "i < length (ts_images ts)" and run: "task_run c env (PushTask i b) ts = (r, ts', t', puts)"
  shows "puts = [] \<and> r = Inr () \<and> (\<exists>b. t' = PushTask i b) \<and> touches i ts ts' \<and> grows ts ts'"
proof -
  obtain us where p: "push_run c env i ts = (Inr (push_outcome c env (ts_images ts ! i) = BUILT), us)"
    using push_run_result [OF i] by blast
  have "grows ts us"
  proof -
    have "p_within (adds (\<lambda>_. True)) (push_run c env i)"
      by (auto simp: push_run_def push_image_def read_image_def
          intro!: adding.within_intros adds_write_status adds_perform
          split: engine.split push_reply.split option.split)
    from p_within_run [OF this p] show ?thesis by (auto simp: adds_def grows_def)
  qed
  then show ?thesis using run p p_within_run [OF touches_push_run p] by auto
qed

lemma task_run_into:
  "task_run c env (PushIntoQueueTask i b) ts = (r, ts', t', puts) \<Longrightarrow>
     puts = [PushTask i False] \<and> r = Inr () \<and> t' = PushIntoQueueTask i True \<and> ts' = ts"
  by auto

section \<open>The machine\<close>

text \<open>
  A task that runs is fresh (no attempt was made), tried (its last attempt failed) or ended (no
  further attempt will be made).
\<close>

datatype stage = Fresh | Tried | Ended

record pool =
  pl_ts :: tstate
  pl_waiting :: "task multiset"
  pl_running :: "(task \<times> stage) multiset"
  pl_started :: "nat list"
  pl_stop :: bool

fun started_by :: "task \<Rightarrow> nat list" where
  "started_by (BuildTask i b) = [i]"
| "started_by t = []"

inductive pool_step :: "conf \<Rightarrow> pool \<Rightarrow> pool \<Rightarrow> bool" for c where
  pool_take: "pl_waiting s = add_mset t W \<Longrightarrow>
    pool_step c s (s\<lparr>pl_waiting := W, pl_running := add_mset (t, Fresh) (pl_running s),
      pl_started := pl_started s @ started_by t\<rparr>)"
| pool_attempt: "pl_running s = add_mset (t, g) R \<Longrightarrow> g \<noteq> Ended \<Longrightarrow>
    task_run c env t (pl_ts s) = (r, ts', t', puts) \<Longrightarrow>
    pool_step c s (s\<lparr>pl_ts := ts', pl_waiting := mset puts + pl_waiting s,
      pl_running := add_mset
        (if r = Inr () \<and> t_success t' then (t', Ended) else (task_reset t', Tried)) R\<rparr>)"
| pool_give_up: "pl_running s = add_mset (t, g) R \<Longrightarrow> g = Tried \<or> g = Fresh \<and> pl_stop s \<Longrightarrow>
    pool_step c s (s\<lparr>pl_running := add_mset (t, Ended) R\<rparr>)"
| pool_finish: "pl_running s = add_mset (t, Ended) R \<Longrightarrow>
    fs = (if t_success t then task_followups c (ts_images (pl_ts s)) t else []) \<or> fs = [] \<and> pl_stop s \<Longrightarrow>
    pool_step c s (s\<lparr>pl_waiting := mset fs + pl_waiting s, pl_running := R\<rparr>)"
| pool_stop: "pool_step c s (s\<lparr>pl_stop := True\<rparr>)"

definition is_root :: "store \<Rightarrow> nat \<Rightarrow> bool" where
  "is_root st i \<longleftrightarrow> (case parent_at st i of None \<Rightarrow> True | Some p \<Rightarrow> status_at st p = SKIPPED)"

definition root_images :: "store \<Rightarrow> nat list" where
  "root_images st = filter (\<lambda>i. child_queued st i \<and> is_root st i) [0..<length st]"

definition pool_init :: "store \<Rightarrow> pool" where
  "pool_init st = \<lparr>pl_ts = \<lparr>ts_images = st, ts_effects = []\<rparr>,
     pl_waiting = mset (map (\<lambda>i. BuildTask i False) (root_images st)),
     pl_running = {#}, pl_started = [], pl_stop = False\<rparr>"

section \<open>The invariant\<close>

abbreviation statuses_of :: "pool \<Rightarrow> nat \<Rightarrow> status" where
  "statuses_of s i \<equiv> status_at (ts_images (pl_ts s)) i"

definition tokens :: "nat \<Rightarrow> pool \<Rightarrow> nat" where
  "tokens i s = build_count i (pl_waiting s) + count_list (pl_started s) i"

definition active :: "nat \<Rightarrow> pool \<Rightarrow> nat" where
  "active i s = build_count i (image_mset fst (pl_running s))"

text \<open>All that is to be built on an image has been queued.\<close>

definition expanded :: "store \<Rightarrow> pool \<Rightarrow> nat \<Rightarrow> bool" where
  "expanded st s i \<longleftrightarrow> (\<forall>ch \<in> set (children_at st i). child_queued st ch \<longrightarrow> 0 < tokens ch s)"

definition built_before :: "conf \<Rightarrow> store \<Rightarrow> pool \<Rightarrow> nat \<Rightarrow> bool" where
  "built_before c st s p \<longleftrightarrow> p \<in> set (pl_started s) \<and> active p s = 0 \<and> engine_called c (st ! p) (pl_ts s)"

definition token_ok :: "conf \<Rightarrow> store \<Rightarrow> pool \<Rightarrow> nat \<Rightarrow> bool" where
  "token_ok c st s i \<longleftrightarrow> tokens i s \<le> 1 \<and> active i s \<le> count_list (pl_started s) i \<and>
     (0 < tokens i s \<longrightarrow> i < length st \<and> child_queued st i \<and>
        (is_root st i \<or> (\<exists>p. parent_at st i = Some p \<and> built_before c st s p)))"

definition run_ok :: "conf \<Rightarrow> store \<Rightarrow> pool \<Rightarrow> task \<Rightarrow> stage \<Rightarrow> bool" where
  "run_ok c st s t g \<longleftrightarrow> (\<forall>i b. t = BuildTask i b \<longrightarrow>
     (g \<noteq> Ended \<longrightarrow> \<not> b) \<and>
     (g = Tried \<or> g = Ended \<and> \<not> b \<and> \<not> pl_stop s \<longrightarrow> statuses_of s i \<noteq> BUILT) \<and>
     (b \<longrightarrow> engine_called c (st ! i) (pl_ts s)))"

definition push_ok :: "store \<Rightarrow> pool \<Rightarrow> task \<Rightarrow> bool" where
  "push_ok st s t \<longleftrightarrow> (\<forall>i. pushes_image i t \<longrightarrow> i \<in> set (pl_started s) \<and> active i s = 0 \<and> expanded st s i)"

definition wait_ok :: "task \<Rightarrow> bool" where
  "wait_ok t \<longleftrightarrow> (\<forall>i b. t = BuildTask i b \<longrightarrow> \<not> b)"

definition status_ok :: "store \<Rightarrow> pool \<Rightarrow> nat \<Rightarrow> bool" where
  "status_ok st s i \<longleftrightarrow> statuses_of s i = status_at st i \<or> i \<in> set (pl_started s) \<and> run_status (statuses_of s i)"

definition pool_inv :: "conf \<Rightarrow> store \<Rightarrow> pool \<Rightarrow> bool" where
  "pool_inv c st s \<longleftrightarrow>
     same_shape st (ts_images (pl_ts s)) \<and>
     (\<forall>i. token_ok c st s i) \<and>
     (\<forall>i < length st. status_ok st s i) \<and>
     (\<forall>i < length st. child_queued st i \<and> is_root st i \<longrightarrow> 0 < tokens i s) \<and>
     (\<forall>(t, g) \<in># pl_running s. run_ok c st s t g \<and> push_ok st s t) \<and>
     (\<forall>t \<in># pl_waiting s. wait_ok t \<and> push_ok st s t) \<and>
     (\<not> pl_stop s \<longrightarrow> (\<forall>i \<in> set (pl_started s). active i s = 0 \<longrightarrow> statuses_of s i = BUILT \<longrightarrow> expanded st s i))"

lemma pool_invD:
  assumes "pool_inv c st s"
  shows "same_shape st (ts_images (pl_ts s))" and "token_ok c st s i"
    and "i < length st \<Longrightarrow> status_ok st s i"
    and "i < length st \<Longrightarrow> child_queued st i \<Longrightarrow> is_root st i \<Longrightarrow> 0 < tokens i s"
    and "(t, g) \<in># pl_running s \<Longrightarrow> run_ok c st s t g"
    and "(t, g) \<in># pl_running s \<Longrightarrow> push_ok st s t"
    and "t \<in># pl_waiting s \<Longrightarrow> wait_ok t" and "t \<in># pl_waiting s \<Longrightarrow> push_ok st s t"
    and "\<not> pl_stop s \<Longrightarrow> i \<in> set (pl_started s) \<Longrightarrow> active i s = 0 \<Longrightarrow> statuses_of s i = BUILT \<Longrightarrow> expanded st s i"
  using assms unfolding pool_inv_def by blast+

lemma pool_invI:
  assumes "same_shape st (ts_images (pl_ts s))" and "\<And>i. token_ok c st s i"
    and "\<And>i. i < length st \<Longrightarrow> status_ok st s i"
    and "\<And>i. i < length st \<Longrightarrow> child_queued st i \<Longrightarrow> is_root st i \<Longrightarrow> 0 < tokens i s"
    and "\<And>t g. (t, g) \<in># pl_running s \<Longrightarrow> run_ok c st s t g"
    and "\<And>t g. (t, g) \<in># pl_running s \<Longrightarrow> push_ok st s t"
    and "\<And>t. t \<in># pl_waiting s \<Longrightarrow> wait_ok t" and "\<And>t. t \<in># pl_waiting s \<Longrightarrow> push_ok st s t"
    and "\<And>i. \<not> pl_stop s \<Longrightarrow> i \<in> set (pl_started s) \<Longrightarrow> active i s = 0 \<Longrightarrow> statuses_of s i = BUILT \<Longrightarrow> expanded st s i"
  shows "pool_inv c st s"
  using assms unfolding pool_inv_def by blast

lemma build_count_map:
  "distinct is \<Longrightarrow> build_count i (mset (map (\<lambda>i. BuildTask i b) is)) = (if i \<in> set is then 1 else 0)"
  by (induction "is") auto

lemma pool_init_inv: "pool_inv c st (pool_init st)"
proof (rule pool_invI)
  have d: "distinct (root_images st)" by (simp add: root_images_def)
  have tok: "tokens i (pool_init st) = (if i \<in> set (root_images st) then 1 else 0)" for i
    using build_count_map [OF d, of i False] by (simp add: tokens_def pool_init_def)
  show "token_ok c st (pool_init st) i" for i
    by (auto simp: token_ok_def tok active_def) (auto simp: pool_init_def root_images_def)
  show "0 < tokens i (pool_init st)" if "i < length st" "child_queued st i" "is_root st i" for i
    using that by (simp add: tok root_images_def)
qed (auto simp: pool_init_def status_ok_def wait_ok_def push_ok_def)

section \<open>Every step keeps the invariant\<close>

lemma started_by_count: "count_list (started_by t) i = (if builds_image i t then 1 else 0)"
  by (cases t) auto

lemma started_by_set: "i \<in> set (started_by t) \<longleftrightarrow> builds_image i t"
  by (cases t) auto

lemma count_list_pos: "0 < count_list xs x \<longleftrightarrow> x \<in> set xs"
  using count_list_0_iff [of xs x] by auto

lemma run_ok_running [simp]: "run_ok c st (s\<lparr>pl_running := R\<rparr>) = run_ok c st s"
  "run_ok c st (s\<lparr>pl_waiting := W\<rparr>) = run_ok c st s"
  "run_ok c st (s\<lparr>pl_started := S\<rparr>) = run_ok c st s"
  by (intro ext; auto simp: run_ok_def)+

lemma tokens_started: "i \<in> set (pl_started s) \<Longrightarrow> 0 < tokens i s"
  by (simp add: tokens_def count_list_pos)

lemma inv_started_lt:
  assumes "pool_inv c st s" and "i \<in> set (pl_started s)"
  shows "i < length st" and "child_queued st i"
  using pool_invD(2) [OF assms(1), of i] tokens_started [OF assms(2)] by (auto simp: token_ok_def)

lemma active_started:
  assumes "pool_inv c st s" and "0 < active i s"
  shows "i \<in> set (pl_started s)" and "active i s = 1"
proof -
  have "active i s \<le> count_list (pl_started s) i" "tokens i s \<le> 1"
    using pool_invD(2) [OF assms(1), of i] by (auto simp: token_ok_def)
  then show "i \<in> set (pl_started s)" "active i s = 1"
    using assms(2) by (auto simp: tokens_def count_list_pos [symmetric])
qed

lemma waiting_not_started:
  assumes "pool_inv c st s" and "t \<in># pl_waiting s" and "i \<in> set (pl_started s)"
  shows "\<not> builds_image i t"
proof
  assume "builds_image i t"
  then have "0 < build_count i (pl_waiting s)" using assms(2) by (rule build_count_pos [rotated])
  moreover have "0 < count_list (pl_started s) i" using assms(3) by (simp add: count_list_pos)
  ultimately show False using pool_invD(2) [OF assms(1), of i] by (auto simp: token_ok_def tokens_def)
qed

lemma inv_take:
  assumes inv: "pool_inv c st s" and w: "pl_waiting s = add_mset t W"
  shows "pool_inv c st (s\<lparr>pl_waiting := W, pl_running := add_mset (t, Fresh) (pl_running s),
      pl_started := pl_started s @ started_by t\<rparr>)"
    (is "pool_inv c st ?s")
proof (rule pool_invI)
  have tok: "tokens i ?s = tokens i s" for i
    by (simp add: tokens_def w started_by_count)
  have act: "active i ?s = active i s + (if builds_image i t then 1 else 0)" for i
    by (simp add: active_def)
  have new: "\<not> builds_image i t" if "i \<in> set (pl_started s)" for i
    using waiting_not_started [OF inv _ that] w by simp
  have keep: "built_before c st s p \<Longrightarrow> built_before c st ?s p" for p
    using new act by (simp add: built_before_def)
  have exp: "expanded st ?s i \<longleftrightarrow> expanded st s i" for i by (simp add: expanded_def tok)
  have push: "push_ok st s u \<Longrightarrow> push_ok st ?s u" for u
    using new act by (simp add: push_ok_def exp)
  have tw: "t \<in># pl_waiting s" using w by simp
  show "same_shape st (ts_images (pl_ts ?s))" using pool_invD(1) [OF inv] by simp
  show "token_ok c st ?s i" for i
    using pool_invD(2) [OF inv, of i] keep
    by (auto simp: token_ok_def tok act started_by_count)
  show "status_ok st ?s i" if "i < length st" for i
    using pool_invD(3) [OF inv that] by (auto simp: status_ok_def)
  show "0 < tokens i ?s" if "i < length st" "child_queued st i" "is_root st i" for i
    using pool_invD(4) [OF inv that] by (simp add: tok)
  show "run_ok c st ?s u g" if "(u, g) \<in># pl_running ?s" for u g
  proof (cases "(u, g) \<in># pl_running s")
    case True
    from pool_invD(5) [OF inv True] show ?thesis by simp
  next
    case False
    with that pool_invD(7) [OF inv tw] show ?thesis by (auto simp: run_ok_def wait_ok_def)
  qed
  show "push_ok st ?s u" if "(u, g) \<in># pl_running ?s" for u g
    using that pool_invD(6) [OF inv, of u g] pool_invD(8) [OF inv tw] push by auto
  show "wait_ok u" "push_ok st ?s u" if "u \<in># pl_waiting ?s" for u
    using that pool_invD(7,8) [OF inv, of u] push w by auto
  show "expanded st ?s i" if "\<not> pl_stop ?s" "i \<in> set (pl_started ?s)" "active i ?s = 0" "statuses_of ?s i = BUILT" for i
  proof -
    have "\<not> builds_image i t" "active i s = 0" using that(3) by (auto simp: act split: if_splits)
    then show ?thesis
      using that pool_invD(9) [OF inv, of i] started_by_set by (auto simp: exp)
  qed
qed

text \<open>The steps that keep what is counted: what runs, waits and was started, up to the stages.\<close>

definition same_counts :: "pool \<Rightarrow> pool \<Rightarrow> bool" where
  "same_counts s s' \<longleftrightarrow> pl_started s' = pl_started s \<and> pl_stop s' = pl_stop s \<and>
     (\<forall>i. active i s' = active i s \<and> tokens i s' = tokens i s)"

lemma same_counts_expanded: "same_counts s s' \<Longrightarrow> expanded st s' i \<longleftrightarrow> expanded st s i"
  by (simp add: same_counts_def expanded_def)

lemma same_counts_push: "same_counts s s' \<Longrightarrow> push_ok st s t \<Longrightarrow> push_ok st s' t"
  by (simp add: push_ok_def same_counts_expanded) (simp add: same_counts_def)

lemma same_counts_token:
  assumes "same_counts s s'" and "grows (pl_ts s) (pl_ts s')" and "token_ok c st s i"
  shows "token_ok c st s' i"
  using assms unfolding token_ok_def same_counts_def built_before_def
  by (auto dest: engine_called_grows)

lemma inv_give_up:
  assumes inv: "pool_inv c st s" and r: "pl_running s = add_mset (t, g) R"
    and g: "g = Tried \<or> g = Fresh \<and> pl_stop s"
  shows "pool_inv c st (s\<lparr>pl_running := add_mset (t, Ended) R\<rparr>)" (is "pool_inv c st ?s")
proof (rule pool_invI)
  have same: "same_counts s ?s" by (simp add: same_counts_def active_def tokens_def r)
  have tr: "(t, g) \<in># pl_running s" using r by simp
  note push = same_counts_push [OF same]
  show "same_shape st (ts_images (pl_ts ?s))" using pool_invD(1) [OF inv] by simp
  show "token_ok c st ?s i" for i
    by (rule same_counts_token [OF same _ pool_invD(2) [OF inv]]) (simp add: grows_def)
  show "status_ok st ?s i" if "i < length st" for i
    using pool_invD(3) [OF inv that] by (simp add: status_ok_def)
  show "0 < tokens i ?s" if "i < length st" "child_queued st i" "is_root st i" for i
    using pool_invD(4) [OF inv that] same by (simp add: same_counts_def)
  show "run_ok c st ?s u h" if "(u, h) \<in># pl_running ?s" for u h
  proof (cases "(u, h) \<in># R")
    case True
    then show ?thesis using pool_invD(5) [OF inv, of u h] r by simp
  next
    case False
    with that g pool_invD(5) [OF inv tr] show ?thesis by (auto simp: run_ok_def)
  qed
  show "push_ok st ?s u" if "(u, h) \<in># pl_running ?s" for u h
    using that r pool_invD(6) [OF inv, of u h] pool_invD(6) [OF inv tr] push by auto
  show "wait_ok u" "push_ok st ?s u" if "u \<in># pl_waiting ?s" for u
    using that pool_invD(7,8) [OF inv, of u] push by auto
  show "expanded st ?s i" if "\<not> pl_stop ?s" "i \<in> set (pl_started ?s)" "active i ?s = 0" "statuses_of ?s i = BUILT" for i
    using that pool_invD(9) [OF inv, of i] same same_counts_expanded [OF same] by (simp add: same_counts_def)
qed

lemma inv_stop:
  assumes inv: "pool_inv c st s"
  shows "pool_inv c st (s\<lparr>pl_stop := True\<rparr>)" (is "pool_inv c st ?s")
proof (rule pool_invI)
  have tok: "tokens i ?s = tokens i s" and act: "active i ?s = active i s" for i
    by (simp_all add: tokens_def active_def)
  have exp: "expanded st ?s i \<longleftrightarrow> expanded st s i" for i by (simp add: expanded_def tok)
  show "same_shape st (ts_images (pl_ts ?s))" using pool_invD(1) [OF inv] by simp
  show "token_ok c st ?s i" for i
    using pool_invD(2) [OF inv, of i] by (simp add: token_ok_def built_before_def tok act)
  show "status_ok st ?s i" if "i < length st" for i
    using pool_invD(3) [OF inv that] by (simp add: status_ok_def)
  show "0 < tokens i ?s" if "i < length st" "child_queued st i" "is_root st i" for i
    using pool_invD(4) [OF inv that] by (simp add: tok)
  show "run_ok c st ?s u h" if "(u, h) \<in># pl_running ?s" for u h
    using that pool_invD(5) [OF inv, of u h] by (auto simp: run_ok_def)
  show "push_ok st ?s u" if "(u, h) \<in># pl_running ?s" for u h
    using that pool_invD(6) [OF inv, of u h] by (simp add: push_ok_def act exp)
  show "wait_ok u" "push_ok st ?s u" if "u \<in># pl_waiting ?s" for u
    using that pool_invD(7,8) [OF inv, of u] by (simp_all add: push_ok_def act exp)
qed simp

lemma active_remove:
  assumes "pl_running s = add_mset (t, g) R" and "builds_image i t" and "active i s \<le> 1"
  shows "(u, h) \<in># R \<Longrightarrow> \<not> builds_image i u" and "build_count i (image_mset fst R) = 0"
proof -
  show *: "build_count i (image_mset fst R) = 0" using assms by (simp add: active_def)
  show "(u, h) \<in># R \<Longrightarrow> \<not> builds_image i u"
    using * build_count_pos [of u "image_mset fst R" i] by force
qed

lemma engine_called_shape:
  assumes "same_shape st st'" and "i < length st"
  shows "engine_called c (st' ! i) ts \<longleftrightarrow> engine_called c (st ! i) ts"
  by (subst same_shape_nth [OF assms]) (simp add: engine_called_def)

lemma touches_status:
  "touches i ts ts' \<Longrightarrow> j < length (ts_images ts) \<Longrightarrow> j \<noteq> i \<Longrightarrow>
     status_at (ts_images ts') j = status_at (ts_images ts) j"
  by (auto simp: touches_def)

text \<open>An attempt that replaces a task by one for the same image.\<close>

lemma inv_attempt:
  assumes inv: "pool_inv c st s" and r: "pl_running s = add_mset (t, g) R"
    and i: "i < length st" "i \<in> set (pl_started s)"
    and same: "\<forall>j. builds_image j u = builds_image j t"
    and run: "touches i (pl_ts s) ts'" "grows (pl_ts s) ts'"
    and W: "\<forall>j. build_count j W = build_count j (pl_waiting s)"
      "\<forall>v \<in># W. wait_ok v \<and> push_ok st s v"
    and u: "push_ok st s u" "run_ok c st (s\<lparr>pl_ts := ts'\<rparr>) u h"
    and others: "\<forall>(v, k) \<in># R. \<not> builds_image i v"
    and built: "active i s = 0 \<longrightarrow> expanded st s i"
  shows "pool_inv c st (s\<lparr>pl_ts := ts', pl_waiting := W, pl_running := add_mset (u, h) R\<rparr>)"
    (is "pool_inv c st ?s")
proof (rule pool_invI)
  have counts: "same_counts s ?s"
    using same W(1) by (simp add: same_counts_def active_def tokens_def r)
  have len: "length (ts_images (pl_ts s)) = length st"
    using pool_invD(1) [OF inv] by (rule same_shape_length)
  have other: "status_at (ts_images ts') j = statuses_of s j" if "j < length st" "j \<noteq> i" for j
    using touches_status [OF run(1)] that len by simp
  have own: "statuses_of ?s i = statuses_of s i \<or> run_status (statuses_of ?s i)"
    using run(1) i(1) len by (auto simp: touches_def)
  note push = same_counts_push [OF counts]
  show "same_shape st (ts_images (pl_ts ?s))"
    using pool_invD(1) [OF inv] run(1) by (auto simp: touches_def intro: same_shape_trans)
  show "token_ok c st ?s j" for j
    by (rule same_counts_token [OF counts _ pool_invD(2) [OF inv]]) (simp add: run(2))
  show "status_ok st ?s j" if "j < length st" for j
    using pool_invD(3) [OF inv that] other [OF that] own i(2) by (cases "j = i") (auto simp: status_ok_def)
  show "0 < tokens j ?s" if "j < length st" "child_queued st j" "is_root st j" for j
    using pool_invD(4) [OF inv that] counts by (simp add: same_counts_def)
  show "run_ok c st ?s v k" if vk: "(v, k) \<in># pl_running ?s" for v k
  proof (cases "(v, k) \<in># R")
    case True
    have "run_ok c st s v k" using pool_invD(5) [OF inv, of v k] True r by simp
    moreover have "j < length st \<and> j \<noteq> i" if "v = BuildTask j b" for j b
    proof
      have "0 < build_count j (image_mset fst (pl_running s))"
        using True that by (intro build_count_pos [of v]) (force simp: r)+
      then show "j < length st"
        using active_started(1) [OF inv, of j] inv_started_lt(1) [OF inv] by (simp add: active_def)
      show "j \<noteq> i" using others True that by auto
    qed
    ultimately show ?thesis
      using other engine_called_grows [OF _ run(2)] by (auto simp: run_ok_def)
  next
    case False
    with vk u(2) show ?thesis by (auto simp: run_ok_def)
  qed
  show "push_ok st ?s v" if "(v, k) \<in># pl_running ?s" for v k
    using that r pool_invD(6) [OF inv, of v k] push u(1) by auto
  show "wait_ok v" "push_ok st ?s v" if "v \<in># pl_waiting ?s" for v
    using that W(2) push by auto
  show "expanded st ?s j" if "\<not> pl_stop ?s" "j \<in> set (pl_started ?s)" "active j ?s = 0" "statuses_of ?s j = BUILT" for j
  proof (cases "j = i")
    case True
    with that built counts show ?thesis
      by (simp add: same_counts_expanded [OF counts]) (simp add: same_counts_def)
  next
    case False
    have "j < length st" using that(2) inv_started_lt(1) [OF inv, of j] by simp
    with that False other [of j] pool_invD(9) [OF inv, of j] counts show ?thesis
      by (simp add: same_counts_expanded [OF counts]) (simp add: same_counts_def)
  qed
qed

lemma run_status_not_skipped: "run_status s \<Longrightarrow> s \<noteq> SKIPPED"
  by (auto simp: run_status_def)

lemma inv_attempt_build:
  assumes inv: "pool_inv c st s" and r: "pl_running s = add_mset (BuildTask i b, g) R" and g: "g \<noteq> Ended"
    and run: "task_run c env (BuildTask i b) (pl_ts s) = (r, ts', t', puts)"
  shows "pool_inv c st (s\<lparr>pl_ts := ts', pl_waiting := mset puts + pl_waiting s,
      pl_running := add_mset
        (if r = Inr () \<and> t_success t' then (t', Ended) else (task_reset t', Tried)) R\<rparr>)"
proof -
  have tr: "(BuildTask i b, g) \<in># pl_running s" using r by simp
  have b: "\<not> b" using pool_invD(5) [OF inv tr] g by (simp add: run_ok_def)
  have act: "0 < active i s" by (simp add: active_def r)
  have st: "i \<in> set (pl_started s)" using active_started(1) [OF inv act] .
  have lt: "i < length st" "child_queued st i" using inv_started_lt [OF inv st] by simp_all
  have shape: "same_shape st (ts_images (pl_ts s))" using pool_invD(1) [OF inv] .
  then have ilt: "i < length (ts_images (pl_ts s))" using lt(1) same_shape_length by metis
  obtain b' where res: "puts = []" "t' = BuildTask i b'" "touches i (pl_ts s) ts'" "grows (pl_ts s) ts'"
    "status_at (ts_images ts') i = BUILT \<longrightarrow> r = Inr () \<and> b' \<and> engine_called c (st ! i) ts'"
    "r = Inr () \<and> b' \<longrightarrow> status_at (ts_images ts') i \<in> {BUILT, SKIPPED}"
  proof -
    from b run have "task_run c env (BuildTask i False) (pl_ts s) = (r, ts', t', puts)" by simp
    note run' = task_run_build [OF ilt this]
    then obtain b' where t': "t' = BuildTask i b'" by blast
    note called = engine_called_shape [OF shape lt(1), of c ts']
    show ?thesis
    proof (rule that)
      show "puts = []" "touches i (pl_ts s) ts'" "grows (pl_ts s) ts'" using run' by blast+
      show "t' = BuildTask i b'" using t' .
      have s: "t_success t' = b'" by (simp add: t')
      show "status_at (ts_images ts') i = BUILT \<longrightarrow> r = Inr () \<and> b' \<and> engine_called c (st ! i) ts'"
        using run' unfolding called s by blast
      show "r = Inr () \<and> b' \<longrightarrow> status_at (ts_images ts') i \<in> {BUILT, SKIPPED}"
        using run' unfolding s by blast
    qed
  qed
  have "status_at (ts_images ts') i \<noteq> SKIPPED"
  proof -
    have "statuses_of s i \<noteq> SKIPPED"
      using pool_invD(3) [OF inv lt(1)] lt(2)
      by (auto simp: status_ok_def child_queued_def dest: run_status_not_skipped)
    then show ?thesis using res(3) ilt by (auto simp: touches_def dest: run_status_not_skipped)
  qed
  then have ok: "r = Inr () \<and> b' \<longleftrightarrow> status_at (ts_images ts') i = BUILT" using res(5,6) by blast
  have one: "active i s \<le> 1" using active_started(2) [OF inv act] by simp
  have step: "pool_inv c st (s\<lparr>pl_ts := ts', pl_waiting := pl_waiting s, pl_running := add_mset (u, h) R\<rparr>)"
    if "u = BuildTask i d" "run_ok c st (s\<lparr>pl_ts := ts'\<rparr>) u h" for u d h
  proof (rule inv_attempt [OF inv r lt(1) st _ res(3,4)])
    show "push_ok st s u" using that(1) by (simp add: push_ok_def)
    show "\<forall>v \<in># pl_waiting s. wait_ok v \<and> push_ok st s v" using pool_invD(7,8) [OF inv] by blast
    show "\<forall>(v, k) \<in># R. \<not> builds_image i v" using active_remove(1) [OF r _ one] by auto
  qed (use that act in auto)
  have run': "run_ok c st (s\<lparr>pl_ts := ts'\<rparr>) (BuildTask i d) h"
    if "h = Ended \<and> d \<and> status_at (ts_images ts') i = BUILT \<or> h = Tried \<and> \<not> d \<and> status_at (ts_images ts') i \<noteq> BUILT" for d h
    using that res(5) by (auto simp: run_ok_def)
  show ?thesis
  proof (cases "r = Inr () \<and> b'")
    case True
    with ok have "status_at (ts_images ts') i = BUILT" by simp
    then have "run_ok c st (s\<lparr>pl_ts := ts'\<rparr>) (BuildTask i True) Ended" by (intro run') simp
    with step [OF refl this] True show ?thesis by (simp add: res(1,2))
  next
    case False
    with ok have "status_at (ts_images ts') i \<noteq> BUILT" by simp
    then have "run_ok c st (s\<lparr>pl_ts := ts'\<rparr>) (BuildTask i False) Tried" by (intro run') simp
    with step [OF refl this] False show ?thesis by (auto simp add: res(1,2) task_reset_def)
  qed
qed

lemma inv_attempt_push:
  assumes inv: "pool_inv c st s" and r: "pl_running s = add_mset (PushTask i b, g) R"
    and run: "task_run c env (PushTask i b) (pl_ts s) = (r, ts', t', puts)"
  shows "pool_inv c st (s\<lparr>pl_ts := ts', pl_waiting := mset puts + pl_waiting s,
      pl_running := add_mset
        (if r = Inr () \<and> t_success t' then (t', Ended) else (task_reset t', Tried)) R\<rparr>)"
proof -
  have tr: "(PushTask i b, g) \<in># pl_running s" using r by simp
  have p: "i \<in> set (pl_started s)" "active i s = 0" "expanded st s i"
    using pool_invD(6) [OF inv tr] by (simp_all add: push_ok_def)
  have lt: "i < length st" using inv_started_lt [OF inv p(1)] by simp
  then have "i < length (ts_images (pl_ts s))" using pool_invD(1) [OF inv] same_shape_length by metis
  from task_run_push [OF this run] obtain b' where
    res: "puts = []" "t' = PushTask i b'" "touches i (pl_ts s) ts'" "grows (pl_ts s) ts'" by blast
  have step: "pool_inv c st (s\<lparr>pl_ts := ts', pl_waiting := pl_waiting s, pl_running := add_mset (u, h) R\<rparr>)"
    if "u = PushTask i d" for u d h
  proof (rule inv_attempt [OF inv r lt p(1) _ res(3,4)])
    show "push_ok st s u" using that p by (simp add: push_ok_def)
    show "run_ok c st (s\<lparr>pl_ts := ts'\<rparr>) u h" using that by (simp add: run_ok_def)
    show "\<forall>v \<in># pl_waiting s. wait_ok v \<and> push_ok st s v" using pool_invD(7,8) [OF inv] by blast
    show "\<forall>(v, k) \<in># R. \<not> builds_image i v"
    proof clarify
      fix v k assume "(v, k) \<in># R" "builds_image i v"
      then have "0 < build_count i (image_mset fst (pl_running s))"
        by (intro build_count_pos [of v]) (force simp: r)+
      with p(2) show False by (simp add: active_def)
    qed
  qed (use that p in auto)
  show ?thesis
    using step [OF refl, of b' Ended] step [OF refl, of False Tried]
    by (cases b') (simp_all add: res(1,2) task_reset_def)
qed

lemma inv_attempt_into:
  assumes inv: "pool_inv c st s" and r: "pl_running s = add_mset (PushIntoQueueTask i b, g) R"
    and run: "task_run c env (PushIntoQueueTask i b) (pl_ts s) = (r, ts', t', puts)"
  shows "pool_inv c st (s\<lparr>pl_ts := ts', pl_waiting := mset puts + pl_waiting s,
      pl_running := add_mset
        (if r = Inr () \<and> t_success t' then (t', Ended) else (task_reset t', Tried)) R\<rparr>)"
proof -
  have tr: "(PushIntoQueueTask i b, g) \<in># pl_running s" using r by simp
  have p: "i \<in> set (pl_started s)" "active i s = 0" "expanded st s i"
    using pool_invD(6) [OF inv tr] by (simp_all add: push_ok_def)
  have lt: "i < length st" using inv_started_lt [OF inv p(1)] by simp
  note res = task_run_into [OF run]
  have "pool_inv c st (s\<lparr>pl_ts := pl_ts s, pl_waiting := add_mset (PushTask i False) (pl_waiting s),
      pl_running := add_mset (PushIntoQueueTask i True, Ended) R\<rparr>)"
  proof (rule inv_attempt [OF inv r lt p(1)])
    show "touches i (pl_ts s) (pl_ts s)" by (rule touching.frame_refl)
    show "grows (pl_ts s) (pl_ts s)" by (simp add: grows_def)
    show "push_ok st s (PushIntoQueueTask i True)" using p by (simp add: push_ok_def)
    show "run_ok c st (s\<lparr>pl_ts := pl_ts s\<rparr>) (PushIntoQueueTask i True) Ended" by (simp add: run_ok_def)
    show "\<forall>v \<in># add_mset (PushTask i False) (pl_waiting s). wait_ok v \<and> push_ok st s v"
      using pool_invD(7,8) [OF inv] p by (auto simp: wait_ok_def push_ok_def)
    show "\<forall>(v, k) \<in># R. \<not> builds_image i v"
    proof clarify
      fix v k assume "(v, k) \<in># R" "builds_image i v"
      then have "0 < build_count i (image_mset fst (pl_running s))"
        by (intro build_count_pos [of v]) (force simp: r)+
      with p(2) show False by (simp add: active_def)
    qed
  qed (use p in auto)
  with res show ?thesis by simp
qed

section \<open>The end of a task\<close>

lemma build_count_followups:
  assumes "distinct (children_at st i)"
  shows "build_count j (mset (task_followups c st (BuildTask i True))) =
    (if j \<in> set (children_at st i) \<and> child_queued st j then 1 else 0)"
  using build_count_map [of "filter (child_queued st) (children_at st i)" j False] assms
  by auto

lemma child_not_queued:
  assumes inv: "pool_inv c st s" and forest: "forest_links st"
    and i: "0 < active i s" and ch: "ch \<in> set (children_at st i)"
  shows "tokens ch s = 0"
proof (rule ccontr)
  assume "tokens ch s \<noteq> 0"
  have st: "i \<in> set (pl_started s)" using active_started(1) [OF inv i] .
  have lt: "i < length st" "child_queued st i" using inv_started_lt [OF inv st] by simp_all
  have "parent_at st ch = Some i" using forest_linksD(4) [OF forest lt(1) ch] .
  with \<open>tokens ch s \<noteq> 0\<close> pool_invD(2) [OF inv, of ch]
  have "status_at st i = SKIPPED \<or> active i s = 0"
    by (auto simp: token_ok_def is_root_def built_before_def)
  with i lt(2) show False by (simp add: child_queued_def)
qed

lemma inv_drop:
  assumes inv: "pool_inv c st s" and r: "pl_running s = add_mset (t, Ended) R"
    and stop: "pl_stop s \<or> \<not> t_success t \<or> (\<forall>i. \<not> builds_image i t)"
  shows "pool_inv c st (s\<lparr>pl_running := R\<rparr>)" (is "pool_inv c st ?s")
proof (rule pool_invI)
  have tok: "tokens i ?s = tokens i s" for i by (simp add: tokens_def)
  have act: "active i s = (if builds_image i t then 1 else 0) + active i ?s" for i
    by (simp add: active_def r)
  have exp: "expanded st ?s i \<longleftrightarrow> expanded st s i" for i by (simp add: expanded_def tok)
  have push: "push_ok st s u \<Longrightarrow> push_ok st ?s u" for u using act by (simp add: push_ok_def exp)
  have keep: "built_before c st s p \<Longrightarrow> built_before c st ?s p" for p
    using act [of p] by (simp add: built_before_def)
  have tr: "(t, Ended) \<in># pl_running s" using r by simp
  show "same_shape st (ts_images (pl_ts ?s))" using pool_invD(1) [OF inv] by simp
  show "token_ok c st ?s i" for i
    using pool_invD(2) [OF inv, of i] keep act [of i] by (auto simp: token_ok_def tok)
  show "status_ok st ?s i" if "i < length st" for i
    using pool_invD(3) [OF inv that] by (simp add: status_ok_def)
  show "0 < tokens i ?s" if "i < length st" "child_queued st i" "is_root st i" for i
    using pool_invD(4) [OF inv that] by (simp add: tok)
  show "run_ok c st ?s u h" "push_ok st ?s u" if "(u, h) \<in># pl_running ?s" for u h
    using that r pool_invD(5,6) [OF inv, of u h] push by auto
  show "wait_ok u" "push_ok st ?s u" if "u \<in># pl_waiting ?s" for u
    using that pool_invD(7,8) [OF inv, of u] push by auto
  show "expanded st ?s i" if "\<not> pl_stop ?s" "i \<in> set (pl_started ?s)" "active i ?s = 0" "statuses_of ?s i = BUILT" for i
  proof (cases "builds_image i t")
    case True
    then obtain b where "t = BuildTask i b" by (cases t) auto
    with True stop pool_invD(5) [OF inv tr] that show ?thesis by (auto simp: run_ok_def)
  next
    case False
    with that act [of i] pool_invD(9) [OF inv, of i] show ?thesis by (simp add: exp)
  qed
qed

lemma inv_expand:
  assumes inv: "pool_inv c st s" and r: "pl_running s = add_mset (BuildTask i True, Ended) R"
    and forest: "forest_links st"
  shows "pool_inv c st (s\<lparr>pl_waiting := mset (task_followups c (ts_images (pl_ts s)) (BuildTask i True)) + pl_waiting s,
      pl_running := R\<rparr>)" (is "pool_inv c st ?s")
proof (rule pool_invI)
  note task_followups.simps [simp del]
  let ?F = "task_followups c (ts_images (pl_ts s)) (BuildTask i True)"
  have tr: "(BuildTask i True, Ended) \<in># pl_running s" using r by simp
  have ai: "0 < active i s" by (simp add: active_def r)
  have ist: "i \<in> set (pl_started s)" using active_started(1) [OF inv ai] .
  have lt: "i < length st" "child_queued st i" using inv_started_lt [OF inv ist] by simp_all
  have shape: "same_shape st (ts_images (pl_ts s))" using pool_invD(1) [OF inv] .
  have ch: "children_at (ts_images (pl_ts s)) i = children_at st i" using same_shape_fields(4) [OF shape lt(1)] .
  have fresh: "tokens j s = 0" if "j \<in> set (children_at st i)" for j
    using child_not_queued [OF inv forest ai that] .
  have queued: "child_queued (ts_images (pl_ts s)) j \<longleftrightarrow> child_queued st j" if "j \<in> set (children_at st i)" for j
  proof -
    have "j < length st" using forest_linksD(3) [OF forest lt(1) that] .
    moreover have "j \<notin> set (pl_started s)" using fresh [OF that] tokens_started [of j s] by auto
    ultimately have "statuses_of s j = status_at st j" using pool_invD(3) [OF inv] by (auto simp: status_ok_def)
    then show ?thesis by (simp add: child_queued_def)
  qed
  have count: "build_count j (mset ?F) = (if j \<in> set (children_at st i) \<and> child_queued st j then 1 else 0)" for j
    using build_count_followups [of "ts_images (pl_ts s)" i j c] forest_linksD(5) [OF forest lt(1)]
    by (simp add: ch queued cong: conj_cong)
  have tok: "tokens j ?s = (if j \<in> set (children_at st i) \<and> child_queued st j then 1 else tokens j s)" for j
    using fresh [of j] by (simp add: tokens_def count)
  have act: "active j s = (if j = i then 1 else 0) + active j ?s" for j
    by (simp add: active_def r)
  have ai0: "active i ?s = 0" using active_started(2) [OF inv ai] act [of i] by simp
  have exp: "expanded st s j \<Longrightarrow> expanded st ?s j" for j by (auto simp: expanded_def tok)
  have expi: "expanded st ?s i" by (simp add: expanded_def tok)
  have push: "push_ok st s u \<Longrightarrow> push_ok st ?s u" for u using act exp by (auto simp: push_ok_def)
  have keep: "built_before c st s p \<Longrightarrow> built_before c st ?s p" for p
    using act [of p] by (simp add: built_before_def)
  have bi: "built_before c st ?s i"
  proof -
    have "engine_called c (st ! i) (pl_ts s)"
      using pool_invD(5) [OF inv tr] unfolding run_ok_def by blast
    with ist ai0 show ?thesis by (simp add: built_before_def)
  qed
  show "same_shape st (ts_images (pl_ts ?s))" using shape by simp
  show "token_ok c st ?s j" for j
  proof (cases "j \<in> set (children_at st i) \<and> child_queued st j")
    case True
    then have "parent_at st j = Some i" "j < length st"
      using forest_linksD(3,4) [OF forest lt(1)] by blast+
    moreover have "active j ?s \<le> count_list (pl_started s) j"
      using pool_invD(2) [OF inv, of j] act [of j] by (simp add: token_ok_def)
    ultimately show ?thesis using True bi by (simp add: token_ok_def tok)
  next
    case False
    then show ?thesis
      using pool_invD(2) [OF inv, of j] keep act [of j] by (auto simp: token_ok_def tok)
  qed
  show "status_ok st ?s j" if "j < length st" for j
    using pool_invD(3) [OF inv that] by (simp add: status_ok_def)
  show "0 < tokens j ?s" if "j < length st" "child_queued st j" "is_root st j" for j
    using pool_invD(4) [OF inv that] by (simp add: tok)
  show "run_ok c st ?s u h" "push_ok st ?s u" if "(u, h) \<in># pl_running ?s" for u h
    using that r pool_invD(5,6) [OF inv, of u h] push by auto
  show "wait_ok u" "push_ok st ?s u" if u: "u \<in># pl_waiting ?s" for u
  proof -
    have "wait_ok u \<and> push_ok st ?s u" if "u \<in> set ?F"
      using that ist ai0 expi by (auto simp: wait_ok_def push_ok_def task_followups.simps split: if_splits)
    then show "wait_ok u" "push_ok st ?s u"
      using u pool_invD(7,8) [OF inv, of u] push by auto
  qed
  show "expanded st ?s j" if "\<not> pl_stop ?s" "j \<in> set (pl_started ?s)" "active j ?s = 0" "statuses_of ?s j = BUILT" for j
    using that act [of j] pool_invD(9) [OF inv, of j] exp expi by (cases "j = i") auto
qed

text \<open>Every step of the machine keeps the invariant.\<close>

lemma pool_step_inv:
  assumes step: "pool_step c s s'" and forest: "forest_links st" and inv: "pool_inv c st s"
  shows "pool_inv c st s'"
  using step
proof cases
  case (pool_take t W)
  then show ?thesis using inv_take [OF inv] by simp
next
  case (pool_attempt t g R env r ts' t' puts)
  show ?thesis
  proof (cases t)
    case (BuildTask i b)
    note a = pool_attempt [unfolded BuildTask]
    show ?thesis unfolding a(1) by (rule inv_attempt_build [OF inv a(2,3,4)])
  next
    case (PushTask i b)
    note a = pool_attempt [unfolded PushTask]
    show ?thesis unfolding a(1) by (rule inv_attempt_push [OF inv a(2,4)])
  next
    case (PushIntoQueueTask i b)
    note a = pool_attempt [unfolded PushIntoQueueTask]
    show ?thesis unfolding a(1) by (rule inv_attempt_into [OF inv a(2,4)])
  qed
next
  case (pool_give_up t g R)
  then show ?thesis using inv_give_up [OF inv] by simp
next
  case (pool_finish t R fs)
  show ?thesis
  proof (cases "fs = []")
    case True
    show ?thesis
    proof (cases "pl_stop s \<or> \<not> t_success t \<or> (\<forall>i. \<not> builds_image i t)")
      case drop: True
      from inv_drop [OF inv pool_finish(2) this] True pool_finish(1) show ?thesis by simp
    next
      case False
      then obtain i where "t = BuildTask i True" by (cases t) auto
      with inv_expand [OF inv, of i R] pool_finish False True forest show ?thesis by auto
    qed
  next
    case False
    then have fs: "fs = task_followups c (ts_images (pl_ts s)) t" "t_success t" using pool_finish(3) by (auto split: if_splits)
    with False obtain i where "t = BuildTask i True" by (cases t) auto
    with inv_expand [OF inv, of i R] pool_finish fs(1) forest show ?thesis by auto
  qed
next
  case pool_stop
  then show ?thesis using inv_stop [OF inv] by simp
qed

inductive pool_reachable :: "conf \<Rightarrow> store \<Rightarrow> pool \<Rightarrow> bool" for c st where
  pool_start: "pool_reachable c st (pool_init st)"
| pool_go: "pool_reachable c st s \<Longrightarrow> pool_step c s s' \<Longrightarrow> pool_reachable c st s'"

lemma pool_reachable_inv: "pool_reachable c st s \<Longrightarrow> forest_links st \<Longrightarrow> pool_inv c st s"
  by (induction rule: pool_reachable.induct) (auto intro: pool_init_inv pool_step_inv)

section \<open>What holds of every schedule\<close>

lemma pool_started_once:
  assumes "pool_inv c st s"
  shows "distinct (pl_started s)"
proof -
  have "count_list (pl_started s) i \<le> 1" for i
    using pool_invD(2) [OF assms, of i] by (simp add: token_ok_def tokens_def)
  moreover have "distinct xs" if "\<And>x. count_list xs x \<le> 1" for xs :: "nat list"
    using that
  proof (induction xs)
    case (Cons x xs)
    have "count_list xs x = 0" using Cons.prems [of x] by simp
    moreover have "count_list xs y \<le> 1" for y using Cons.prems [of y] by (simp split: if_splits)
    ultimately show ?case using Cons.IH by (simp add: count_list_0_iff)
  qed simp
  ultimately show ?thesis by blast
qed

lemma pool_parent_first:
  assumes "pool_inv c st s" and "i \<in> set (pl_started s)"
  shows "i < length st \<and> child_queued st i \<and>
    (\<forall>p. parent_at st i = Some p \<longrightarrow> status_at st p = SKIPPED \<or> p \<in> set (pl_started s) \<and> engine_called c (st ! p) (pl_ts s))"
  using pool_invD(2) [OF assms(1), of i] tokens_started [OF assms(2)]
  by (auto simp: token_ok_def is_root_def built_before_def)

text \<open>
  A store after the filter: the parent of an image that is to be built is to be built itself or
  skipped.
\<close>

definition parents_queued :: "store \<Rightarrow> bool" where
  "parents_queued st \<longleftrightarrow> (\<forall>i < length st. child_queued st i \<longrightarrow>
     (\<forall>p. parent_at st i = Some p \<longrightarrow> child_queued st p \<or> status_at st p = SKIPPED))"

lemma pool_complete:
  assumes inv: "pool_inv c st s" and forest: "forest_links st" and rk: "ranked st depth"
    and closed: "parents_queued st"
    and idle: "pl_waiting s = {#}" "pl_running s = {#}" "\<not> pl_stop s"
  shows "i < length st \<Longrightarrow> child_queued st i \<Longrightarrow>
    i \<in> set (pl_started s) \<or>
    (\<exists>a \<in> set (pl_started s). a \<noteq> i \<and> ancestor st i a \<and> statuses_of s a \<noteq> BUILT)"
proof (induction "depth i" arbitrary: i rule: less_induct)
  case less
  have started: "j \<in> set (pl_started s)" if "0 < tokens j s" for j
    using that by (simp add: tokens_def idle(1) count_list_pos)
  show ?case
  proof (cases "is_root st i")
    case True
    then show ?thesis using pool_invD(4) [OF inv less.prems] started by blast
  next
    case False
    then obtain p where p: "parent_at st i = Some p" "status_at st p \<noteq> SKIPPED"
      by (auto simp: is_root_def split: option.splits)
    have plt: "p < length st" "depth p < depth i" using rankedD [OF rk less.prems(1) p(1)] by simp_all
    have "child_queued st p" using closed less.prems p by (auto simp: parents_queued_def)
    from less.hyps [OF plt(2,1) this] show ?thesis
    proof
      assume ps: "p \<in> set (pl_started s)"
      show ?thesis
      proof (cases "statuses_of s p = BUILT")
        case True
        then have "expanded st s p"
          using pool_invD(9) [OF inv idle(3) ps] by (simp add: active_def idle(2))
        moreover have "i \<in> set (children_at st p)" using forest_linksD(2) [OF forest less.prems(1) p(1)] .
        ultimately show ?thesis using less.prems(2) started by (auto simp: expanded_def)
      next
        case False
        have "ancestor st i p" using p(1) anc_parent anc_self by blast
        moreover have "p \<noteq> i" using plt(2) by auto
        ultimately show ?thesis using ps False by blast
      qed
    next
      assume "\<exists>a \<in> set (pl_started s). a \<noteq> p \<and> ancestor st p a \<and> statuses_of s a \<noteq> BUILT"
      then obtain a where a: "a \<in> set (pl_started s)" "ancestor st p a" "statuses_of s a \<noteq> BUILT" by blast
      have "ancestor st i a" using p(1) a(2) anc_parent by blast
      then show ?thesis using a by (cases "a = i") blast+
    qed
  qed
qed

end
