(* ===== verification/Py_Queue.thy ===== *)
theory Py_Queue
  imports Kolla_Prelude "HOL-Library.Multiset"
begin

text \<open>
  \<open>queue.Queue\<close> (unbounded, as \<open>kolla/image/build.py\<close> creates it): a FIFO of items and the
  counter of unfinished tasks, which \<open>put\<close> raises and \<open>task\_done\<close> lowers. \<open>get\<close> blocks on an
  empty queue; the result \<open>None\<close> says that it cannot go on.
\<close>

record 'a pqueue =
  q_items :: "'a list"
  q_unfinished :: nat

definition q_new :: "'a pqueue" where
  "q_new = \<lparr>q_items = [], q_unfinished = 0\<rparr>"

definition q_put :: "'a \<Rightarrow> 'a pqueue \<Rightarrow> 'a pqueue" where
  "q_put x q = \<lparr>q_items = q_items q @ [x], q_unfinished = Suc (q_unfinished q)\<rparr>"

definition q_get :: "'a pqueue \<Rightarrow> ('a \<times> 'a pqueue) option" where
  "q_get q = (case q_items q of [] \<Rightarrow> None | x # xs \<Rightarrow> Some (x, q\<lparr>q_items := xs\<rparr>))"

definition q_task_done :: "'a pqueue \<Rightarrow> py_exn + 'a pqueue" where
  "q_task_done q =
     (if q_unfinished q = 0 then Inl (ValueError ''task_done() called too many times'')
      else Inr (q\<lparr>q_unfinished := q_unfinished q - 1\<rparr>))"

text \<open>The interface the workers and the tasks rely on.\<close>

locale fifo_queue =
  fixes empty :: "'q"
    and put :: "'a \<Rightarrow> 'q \<Rightarrow> 'q"
    and get :: "'q \<Rightarrow> ('a \<times> 'q) option"
    and items :: "'q \<Rightarrow> 'a list"
    and unfinished :: "'q \<Rightarrow> nat"
  assumes items_empty: "items empty = []"
    and unfinished_empty: "unfinished empty = 0"
    and items_put: "items (put x q) = items q @ [x]"
    and unfinished_put: "unfinished (put x q) = Suc (unfinished q)"
    and get_blocks: "get q = None \<longleftrightarrow> items q = []"
    and get_items: "get q = Some (x, q') \<Longrightarrow> items q = x # items q'"
    and get_unfinished: "get q = Some (x, q') \<Longrightarrow> unfinished q' = unfinished q"
begin

definition put_all :: "'a list \<Rightarrow> 'q \<Rightarrow> 'q" where
  "put_all xs q = fold put xs q"

lemma put_all_simps [simp]: "put_all [] q = q" "put_all (x # xs) q = put_all xs (put x q)"
  by (simp_all add: put_all_def)

lemma items_put_all: "items (put_all xs q) = items q @ xs"
  by (induction xs arbitrary: q) (simp_all add: items_put)

lemma unfinished_put_all: "unfinished (put_all xs q) = unfinished q + length xs"
  by (induction xs arbitrary: q) (simp_all add: unfinished_put)

text \<open>Taking everything out gives the items in the order they were put in.\<close>

fun get_n :: "nat \<Rightarrow> 'q \<Rightarrow> 'a list" where
  "get_n 0 q = []"
| "get_n (Suc n) q = (case get q of None \<Rightarrow> [] | Some (x, q') \<Rightarrow> x # get_n n q')"

lemma get_n_items: "get_n n q = take n (items q)"
proof (induction n arbitrary: q)
  case (Suc n)
  show ?case
  proof (cases "get q")
    case None
    then show ?thesis using get_blocks [of q] by simp
  next
    case (Some p)
    then obtain x q' where "get q = Some (x, q')" by (cases p) auto
    then show ?thesis using get_items Suc by simp
  qed
qed simp

lemma fifo_order: "get_n (length xs) (put_all xs empty) = xs"
  by (simp add: get_n_items items_put_all items_empty)

end

lemma q_get_Some: "q_get q = Some (x, q') \<longleftrightarrow> q_items q = x # q_items q' \<and> q_unfinished q' = q_unfinished q"
  by (cases q; cases q') (auto simp: q_get_def split: list.splits)

lemma q_get_None: "q_get q = None \<longleftrightarrow> q_items q = []"
  by (simp add: q_get_def split: list.splits)

interpretation fifo: fifo_queue q_new q_put q_get q_items q_unfinished
  by unfold_locales (auto simp: q_new_def q_put_def q_get_None q_get_Some)

end
