(* ===== verification/Worker_Threads.thy ===== *)
theory Worker_Threads
  imports Task_Pool Py_Queue
begin

text \<open>
  The threads of \<open>kolla/image/build.py\<close>: \<open>WorkerThread.run\<close>, \<open>join\_many\<close> and the part of
  \<open>run\_build\<close> that starts the threads, waits for the two queues and stops the threads; with
  \<open>KollaWorker.build\_queue\<close>, which fills the first queue.

  A step of the system is one action of one thread: a read of the stop flag, a \<open>get\<close>, one attempt
  at a task, the choice of the followups, one \<open>put\<close>, a \<open>task\_done\<close>; or one action of the main
  program; or the keyboard interrupt. Any interleaving of these steps is a run of the system. One
  attempt at a task is one step: it writes the status of its own image only, and reads the status
  of its parent once.
\<close>

section \<open>The system\<close>

datatype job = Job task | Tombstone

datatype which = BuildQ | PushQ

text \<open>
  Where a worker is: before the test of the loop, in \<open>get\<close>, before its next attempt, after its
  attempts, putting the remaining followups, or out of \<open>run\<close>.
\<close>

datatype phase = Polling | Getting | Attempting task nat | Ending task | Queueing "task list" | Stopped

record worker =
  wk_queue :: which
  wk_phase :: phase
  wk_stop :: bool

text \<open>
  Where the main program is: before it reads the counter of the build queue, before the one of
  the push queue, in the handler of the interrupt (with the number of workers told to stop),
  before the first and the second tombstone, in \<open>join\<close>, after it; or in the \<open>join\<close>s of \<open>join\_many\<close>'s handler
  after a second interrupt cut the first handler short, or after \<open>join\_many\<close> was left while threads still run.
\<close>

datatype main_phase = MainPolling | MainBuildEmpty | MainHandler nat | MainPushTomb | MainBuildTomb
  | MainJoining | MainDone | MainCut | MainLeft

text \<open>
  \<open>sys\_started\<close> is not in the program: it records the images whose build task was taken from a
  queue. \<open>sys\_interrupted\<close> says that the keyboard interrupt was raised.
\<close>

record system =
  sys_ts :: tstate
  sys_build :: "job pqueue"
  sys_push :: "job pqueue"
  sys_workers :: "worker list"
  sys_main :: main_phase
  sys_interrupted :: bool
  sys_started :: "nat list"

fun queue_of :: "which \<Rightarrow> system \<Rightarrow> job pqueue" where
  "queue_of BuildQ s = sys_build s"
| "queue_of PushQ s = sys_push s"

fun set_queue :: "which \<Rightarrow> job pqueue \<Rightarrow> system \<Rightarrow> system" where
  "set_queue BuildQ q s = s\<lparr>sys_build := q\<rparr>"
| "set_queue PushQ q s = s\<lparr>sys_push := q\<rparr>"

definition put_job :: "which \<Rightarrow> job \<Rightarrow> system \<Rightarrow> system" where
  "put_job w j s = set_queue w (q_put j (queue_of w s)) s"

definition set_phase :: "nat \<Rightarrow> phase \<Rightarrow> system \<Rightarrow> system" where
  "set_phase n p s = s\<lparr>sys_workers := (sys_workers s)[n := (sys_workers s ! n)\<lparr>wk_phase := p\<rparr>]\<rparr>"

section \<open>build\_queue\<close>

definition build_queue :: "store \<Rightarrow> job pqueue" where
  "build_queue st =
     fold (\<lambda>i q.
       if status_at st i \<in> {UNMATCHED, SKIPPED, UNBUILDABLE} then q
       else if (case parent_at st i of None \<Rightarrow> True | Some p \<Rightarrow> status_at st p = SKIPPED)
       then q_put (Job (BuildTask i False)) q
       else q) [0..<length st] q_new"

section \<open>Steps\<close>

text \<open>\<open>WorkerThread.run\<close>; no result: the worker waits in \<open>get\<close>, or has ended.\<close>

definition worker_step :: "conf \<Rightarrow> env \<Rightarrow> nat \<Rightarrow> system \<Rightarrow> system option" where
  "worker_step c env n s =
     (let w = sys_workers s ! n
      in case wk_phase w of
           Polling \<Rightarrow> Some (set_phase n (if wk_stop w then Stopped else Getting) s)
         | Getting \<Rightarrow>
             (case q_get (queue_of (wk_queue w) s) of
                None \<Rightarrow> None
              | Some (Tombstone, q) \<Rightarrow>
                  Some (put_job (wk_queue w) Tombstone (set_queue (wk_queue w) q (set_phase n Stopped s)))
              | Some (Job t, q) \<Rightarrow>
                  Some (set_queue (wk_queue w) q (set_phase n (Attempting t 0)
                    (s\<lparr>sys_started := sys_started s @ started_by t\<rparr>))))
         | Attempting t k \<Rightarrow>
             if k \<ge> conf_retries c + 1 \<or> wk_stop w then Some (set_phase n (Ending t) s)
             else (case task_run c env t (sys_ts s) of
                     (r, ts', t', puts) \<Rightarrow>
                       Some (fold (\<lambda>u. put_job PushQ (Job u)) puts
                         (set_phase n
                           (if r = Inr () \<and> t_success t' then Ending t'
                            else Attempting (task_reset t') (k + 1))
                           (s\<lparr>sys_ts := ts'\<rparr>))))
         | Ending t \<Rightarrow>
             Some (set_phase n
               (Queueing (if t_success t \<and> \<not> wk_stop w
                          then task_followups c (ts_images (sys_ts s)) t else [])) s)
         | Queueing (t # ts) \<Rightarrow> Some (put_job (wk_queue w) (Job t) (set_phase n (Queueing ts) s))
         | Queueing [] \<Rightarrow>
             (case q_task_done (queue_of (wk_queue w) s) of
                Inl e \<Rightarrow> Some (set_phase n Stopped s)
              | Inr q \<Rightarrow> Some (set_queue (wk_queue w) q (set_phase n Polling s)))
         | Stopped \<Rightarrow> None)"

definition all_stopped :: "system \<Rightarrow> bool" where
  "all_stopped s \<longleftrightarrow> (\<forall>w \<in> set (sys_workers s). wk_phase w = Stopped)"

text \<open>
  After an interrupt the threads are joined with a timeout: the main program may go on with threads
  that have not ended.
\<close>

definition main_step :: "system \<Rightarrow> system option" where
  "main_step s =
     (case sys_main s of
        MainPolling \<Rightarrow>
          if q_unfinished (sys_build s) \<noteq> 0 then Some s else Some (s\<lparr>sys_main := MainBuildEmpty\<rparr>)
      | MainBuildEmpty \<Rightarrow>
          if q_unfinished (sys_push s) \<noteq> 0 then Some (s\<lparr>sys_main := MainPolling\<rparr>)
          else Some (s\<lparr>sys_main := MainPushTomb\<rparr>)
      | MainHandler k \<Rightarrow>
          if k < length (sys_workers s)
          then Some (s\<lparr>sys_workers := (sys_workers s)[k := (sys_workers s ! k)\<lparr>wk_stop := True\<rparr>],
                 sys_main := MainHandler (k + 1)\<rparr>)
          else Some (s\<lparr>sys_main := MainPushTomb\<rparr>)
      | MainPushTomb \<Rightarrow> Some (put_job PushQ Tombstone (s\<lparr>sys_main := MainBuildTomb\<rparr>))
      | MainBuildTomb \<Rightarrow> Some (put_job BuildQ Tombstone (s\<lparr>sys_main := MainJoining\<rparr>))
      | MainJoining \<Rightarrow>
          if all_stopped s then Some (s\<lparr>sys_main := MainDone\<rparr>)
          else if sys_interrupted s then Some (s\<lparr>sys_main := MainLeft\<rparr>) else None
      | MainCut \<Rightarrow> if all_stopped s then Some (s\<lparr>sys_main := MainDone\<rparr>) else Some (s\<lparr>sys_main := MainLeft\<rparr>)
      | MainDone \<Rightarrow> None
      | MainLeft \<Rightarrow> None)"

text \<open>
  The keyboard interrupt. The first one, up to the second tombstone, enters the handler, which tells
  the workers to stop, puts the tombstones and raises again, so that the threads are joined by
  \<open>join\_many\<close>'s handler; the first one during the \<open>join\<close>s only leads to that handler. A second one in the first handler leads to
  \<open>join\_many\<close>'s too, with what the first one did so far; one in the \<open>join\<close>s of \<open>join\_many\<close>'s handler leaves it.
\<close>

definition interrupt_step :: "system \<Rightarrow> system option" where
  "interrupt_step s =
     (case sys_main s of
        MainHandler k \<Rightarrow> Some (s\<lparr>sys_main := MainCut\<rparr>)
      | MainJoining \<Rightarrow>
          Some (if sys_interrupted s then s\<lparr>sys_main := MainLeft\<rparr> else s\<lparr>sys_interrupted := True\<rparr>)
      | MainCut \<Rightarrow> Some (s\<lparr>sys_main := MainLeft\<rparr>)
      | MainDone \<Rightarrow> None
      | MainLeft \<Rightarrow> None
      | _ \<Rightarrow>
          Some (if sys_interrupted s then s\<lparr>sys_main := MainCut\<rparr>
            else s\<lparr>sys_main := MainHandler 0, sys_interrupted := True\<rparr>))"

datatype label = Worker nat env | Main | Interrupt

fun sys_step :: "conf \<Rightarrow> label \<Rightarrow> system \<Rightarrow> system option" where
  "sys_step c (Worker n env) s = (if n < length (sys_workers s) then worker_step c env n s else None)"
| "sys_step c Main s = main_step s"
| "sys_step c Interrupt s = interrupt_step s"

definition new_worker :: "which \<Rightarrow> worker" where
  "new_worker q = \<lparr>wk_queue = q, wk_phase = Polling, wk_stop = False\<rparr>"

definition sys_init :: "conf \<Rightarrow> store \<Rightarrow> system" where
  "sys_init c st =
     \<lparr>sys_ts = \<lparr>ts_images = st, ts_effects = []\<rparr>, sys_build = build_queue st, sys_push = q_new,
      sys_workers = replicate (conf_threads c) (new_worker BuildQ) @
        replicate (conf_push_threads c) (new_worker PushQ),
      sys_main = MainPolling, sys_interrupted = False, sys_started = []\<rparr>"

text \<open>A run: the labels of its steps and the system they lead to.\<close>

inductive sys_run :: "conf \<Rightarrow> store \<Rightarrow> label list \<Rightarrow> system \<Rightarrow> bool" for c st where
  sys_run_init: "sys_run c st [] (sys_init c st)"
| sys_run_step: "sys_run c st ls s \<Longrightarrow> sys_step c l s = Some s' \<Longrightarrow> sys_run c st (ls @ [l]) s'"

inductive_cases sys_run_cases: "sys_run c st ls s"

text \<open>The rule for invariants of the runs.\<close>

lemma sys_run_invariant:
  assumes "sys_run c st ls s" and "I (sys_init c st)"
    and "\<And>l s s'. I s \<Longrightarrow> sys_step c l s = Some s' \<Longrightarrow> I s'"
  shows "I s"
  using assms by (induction rule: sys_run.induct) blast+

section \<open>Sums over the workers\<close>

definition rest_sum :: "(worker \<Rightarrow> 'a::comm_monoid_add) \<Rightarrow> nat \<Rightarrow> worker list \<Rightarrow> 'a" where
  "rest_sum f n ws = sum_list (map f (take n ws)) + sum_list (map f (drop (Suc n) ws))"

lemma sum_split: "n < length ws \<Longrightarrow> sum_list (map f ws) = f (ws ! n) + rest_sum f n ws"
proof -
  assume n: "n < length ws"
  have "sum_list (map f ws) = sum_list (map f (take n ws @ ws ! n # drop (Suc n) ws))"
    using n by (simp add: id_take_nth_drop [symmetric])
  then show ?thesis by (simp add: rest_sum_def ac_simps)
qed

lemma rest_update [simp]: "n < length ws \<Longrightarrow> rest_sum f n (ws[n := w]) = rest_sum f n ws"
  by (simp add: rest_sum_def)

lemma sum_update: "n < length ws \<Longrightarrow> sum_list (map f (ws[n := w])) = f w + rest_sum f n ws"
  using sum_split [of n "ws[n := w]" f] by simp

section \<open>Simple facts about the steps\<close>

lemma queue_of_set [simp]:
  "queue_of v (set_queue w q s) = (if v = w then q else queue_of v s)"
  by (cases v; cases w) simp_all

lemma set_queue_fields [simp]:
  "sys_ts (set_queue w q s) = sys_ts s" "sys_workers (set_queue w q s) = sys_workers s"
  "sys_main (set_queue w q s) = sys_main s" "sys_interrupted (set_queue w q s) = sys_interrupted s"
  "sys_started (set_queue w q s) = sys_started s"
  by (cases w; simp)+

lemma set_phase_fields [simp]:
  "sys_ts (set_phase n p s) = sys_ts s" "queue_of w (set_phase n p s) = queue_of w s"
  "sys_main (set_phase n p s) = sys_main s" "sys_interrupted (set_phase n p s) = sys_interrupted s"
  "sys_started (set_phase n p s) = sys_started s"
  "sys_workers (set_phase n p s) = (sys_workers s)[n := (sys_workers s ! n)\<lparr>wk_phase := p\<rparr>]"
  by (cases w; simp add: set_phase_def)+

lemma queue_of_update [simp]:
  "queue_of w (s\<lparr>sys_ts := x\<rparr>) = queue_of w s" "queue_of w (s\<lparr>sys_started := y\<rparr>) = queue_of w s"
  "queue_of w (s\<lparr>sys_main := m\<rparr>) = queue_of w s" "queue_of w (s\<lparr>sys_workers := ws\<rparr>) = queue_of w s"
  "queue_of w (s\<lparr>sys_interrupted := b\<rparr>) = queue_of w s"
  by (cases w; simp)+

lemma put_job_fields [simp]:
  "sys_ts (put_job w j s) = sys_ts s" "sys_workers (put_job w j s) = sys_workers s"
  "sys_main (put_job w j s) = sys_main s" "sys_interrupted (put_job w j s) = sys_interrupted s"
  "sys_started (put_job w j s) = sys_started s"
  "queue_of v (put_job w j s) = (if v = w then q_put j (queue_of w s) else queue_of v s)"
  by (simp_all add: put_job_def)

lemma put_jobs_fields [simp]:
  "sys_ts (fold (\<lambda>u. put_job w (Job u)) us s) = sys_ts s"
  "sys_workers (fold (\<lambda>u. put_job w (Job u)) us s) = sys_workers s"
  "sys_main (fold (\<lambda>u. put_job w (Job u)) us s) = sys_main s"
  "sys_interrupted (fold (\<lambda>u. put_job w (Job u)) us s) = sys_interrupted s"
  "sys_started (fold (\<lambda>u. put_job w (Job u)) us s) = sys_started s"
  by (induction us arbitrary: s) simp_all

lemma queue_put_jobs:
  "queue_of v (fold (\<lambda>u. put_job w (Job u)) us s) =
     (if v = w then fifo.put_all (map Job us) (queue_of w s) else queue_of v s)"
  by (induction us arbitrary: s) simp_all

lemma build_queue_items:
  "build_queue st = fifo.put_all (map (\<lambda>i. Job (BuildTask i False)) (root_images st)) q_new"
proof -
  have "fold (\<lambda>i q.
       if status_at st i \<in> {UNMATCHED, SKIPPED, UNBUILDABLE} then q
       else if (case parent_at st i of None \<Rightarrow> True | Some p \<Rightarrow> status_at st p = SKIPPED)
       then q_put (Job (BuildTask i False)) q else q) is q =
     fifo.put_all (map (\<lambda>i. Job (BuildTask i False)) (filter (\<lambda>i. child_queued st i \<and> is_root st i) is)) q"
    for "is" q
    by (induction "is" arbitrary: q) (auto simp: child_queued_def is_root_def)
  then show ?thesis by (simp only: build_queue_def root_images_def)
qed

end
