(* ===== verification/Worker_Refinement.thy ===== *)
theory Worker_Refinement
  imports Worker_Threads
begin

text \<open>
  The threads refine the machine of \<open>Task_Pool\<close>: forgetting the queues, the threads and the
  main program turns every step of the system into a step of the machine or into none. So what
  holds of every schedule of the machine holds of every run of the threads.
\<close>

section \<open>The abstraction\<close>

fun job_task :: "job \<Rightarrow> task list" where
  "job_task (Job t) = [t]"
| "job_task Tombstone = []"

definition job_tasks :: "job list \<Rightarrow> task multiset" where
  "job_tasks js = mset (concat (map job_task js))"

lemma job_tasks_simps [simp]:
  "job_tasks [] = {#}" "job_tasks (Job t # js) = add_mset t (job_tasks js)"
  "job_tasks (Tombstone # js) = job_tasks js" "job_tasks (xs @ ys) = job_tasks xs + job_tasks ys"
  by (simp_all add: job_tasks_def)

lemma job_tasks_map: "job_tasks (map Job ts) = mset ts"
  by (induction ts) simp_all

fun phase_waiting :: "phase \<Rightarrow> task multiset" where
  "phase_waiting (Queueing ts) = mset ts"
| "phase_waiting _ = {#}"

fun phase_running :: "phase \<Rightarrow> (task \<times> stage) multiset" where
  "phase_running (Attempting t k) = {#(t, if k = 0 then Fresh else Tried)#}"
| "phase_running (Ending t) = {#(t, Ended)#}"
| "phase_running _ = {#}"

definition queued_tasks :: "system \<Rightarrow> task multiset" where
  "queued_tasks s = job_tasks (q_items (queue_of BuildQ s)) + job_tasks (q_items (queue_of PushQ s))"

definition sys_pool :: "system \<Rightarrow> pool" where
  "sys_pool s =
     \<lparr>pl_ts = sys_ts s,
      pl_waiting = queued_tasks s + sum_list (map (\<lambda>w. phase_waiting (wk_phase w)) (sys_workers s)),
      pl_running = sum_list (map (\<lambda>w. phase_running (wk_phase w)) (sys_workers s)),
      pl_started = sys_started s, pl_stop = sys_interrupted s\<rparr>"

lemma queued_put: "queued_tasks (put_job w (Job t) s) = add_mset t (queued_tasks s)"
  by (cases w) (simp_all add: queued_tasks_def q_put_def put_job_def)

lemma queued_put_tombstone: "queued_tasks (put_job w Tombstone s) = queued_tasks s"
  by (cases w) (simp_all add: queued_tasks_def q_put_def put_job_def)

lemma queued_puts: "queued_tasks (fold (\<lambda>u. put_job w (Job u)) us s) = mset us + queued_tasks s"
  by (induction us arbitrary: s) (simp_all add: queued_put)

lemma queued_get:
  "q_get (queue_of w s) = Some (Job t, q) \<Longrightarrow> queued_tasks s = add_mset t (queued_tasks (set_queue w q s))"
  "q_get (queue_of w s) = Some (Tombstone, q) \<Longrightarrow> queued_tasks (set_queue w q s) = queued_tasks s"
  by (cases w; simp add: queued_tasks_def q_get_Some)+

lemma queued_done: "q_items q = q_items (queue_of w s) \<Longrightarrow> queued_tasks (set_queue w q s) = queued_tasks s"
  by (cases w) (simp_all add: queued_tasks_def)

lemma queued_other [simp]:
  "queued_tasks (set_phase n p s) = queued_tasks s" "queued_tasks (s\<lparr>sys_ts := x\<rparr>) = queued_tasks s"
  "queued_tasks (s\<lparr>sys_started := y\<rparr>) = queued_tasks s" "queued_tasks (s\<lparr>sys_main := m\<rparr>) = queued_tasks s"
  "queued_tasks (s\<lparr>sys_workers := ws\<rparr>) = queued_tasks s"
  "queued_tasks (s\<lparr>sys_interrupted := b\<rparr>) = queued_tasks s"
  by (simp_all add: queued_tasks_def)

text \<open>The pool after worker \<open>n\<close> went to another phase, with other parts of the state given.\<close>

lemma sys_pool_split:
  assumes "n < length (sys_workers s)"
  shows "sys_pool s =
     \<lparr>pl_ts = sys_ts s,
      pl_waiting = queued_tasks s + (phase_waiting (wk_phase (sys_workers s ! n)) +
        rest_sum (\<lambda>w. phase_waiting (wk_phase w)) n (sys_workers s)),
      pl_running = phase_running (wk_phase (sys_workers s ! n)) +
        rest_sum (\<lambda>w. phase_running (wk_phase w)) n (sys_workers s),
      pl_started = sys_started s, pl_stop = sys_interrupted s\<rparr>"
  by (simp add: sys_pool_def sum_split [OF assms])

lemma sys_pool_phase:
  assumes "n < length (sys_workers s)" and "sys_workers s' = (sys_workers s)[n := (sys_workers s ! n)\<lparr>wk_phase := p\<rparr>]"
  shows "sys_pool s' =
     \<lparr>pl_ts = sys_ts s',
      pl_waiting = queued_tasks s' + (phase_waiting p +
        rest_sum (\<lambda>w. phase_waiting (wk_phase w)) n (sys_workers s)),
      pl_running = phase_running p + rest_sum (\<lambda>w. phase_running (wk_phase w)) n (sys_workers s),
      pl_started = sys_started s', pl_stop = sys_interrupted s'\<rparr>"
  using assms(1) by (simp add: sys_pool_def assms(2) sum_update)

section \<open>The simulation\<close>

definition stop_inv :: "system \<Rightarrow> bool" where
  "stop_inv s \<longleftrightarrow> (\<forall>w \<in> set (sys_workers s). wk_stop w \<longrightarrow> sys_interrupted s) \<and>
     ((\<exists>k. sys_main s = MainHandler k) \<or> sys_main s = MainCut \<or> sys_main s = MainLeft \<longrightarrow> sys_interrupted s) \<and>
     (sys_main s \<in> {MainPolling, MainBuildEmpty} \<longrightarrow> \<not> sys_interrupted s)"

lemma stop_inv_worker: "stop_inv s \<Longrightarrow> n < length (sys_workers s) \<Longrightarrow> wk_stop (sys_workers s ! n) \<Longrightarrow> sys_interrupted s"
  by (auto simp: stop_inv_def)

lemma worker_step_simulates:
  assumes n: "n < length (sys_workers s)" and stop: "stop_inv s"
    and step: "worker_step c env n s = Some s'"
  shows "sys_pool s' = sys_pool s \<or> pool_step c (sys_pool s) (sys_pool s')"
proof -
  let ?w = "sys_workers s ! n"
  note split = sys_pool_split [OF n]
  note after = sys_pool_phase [OF n]
  show ?thesis
  proof (cases "wk_phase ?w")
    case Polling
    then have "s' = set_phase n (if wk_stop ?w then Stopped else Getting) s"
      using step by (simp add: worker_step_def Let_def)
    then have "sys_pool s' = sys_pool s"
      unfolding split by (subst after [of s' "if wk_stop ?w then Stopped else Getting"]) (simp_all add: Polling)
    then show ?thesis ..
  next
    case Getting
    show ?thesis
    proof (cases "q_get (queue_of (wk_queue ?w) s)")
      case None
      with step Getting show ?thesis by (simp add: worker_step_def Let_def)
    next
      case (Some jq)
      then obtain j q where get: "q_get (queue_of (wk_queue ?w) s) = Some (j, q)" by (cases jq) simp
      show ?thesis
      proof (cases j)
        case Tombstone
        have s': "s' = put_job (wk_queue ?w) Tombstone (set_queue (wk_queue ?w) q (set_phase n Stopped s))"
          using step Getting get Tombstone by (simp add: worker_step_def Let_def)
        have "queued_tasks s' = queued_tasks s"
          using queued_get(2) [of "wk_queue ?w" "set_phase n Stopped s" q] get Tombstone
          by (simp add: s' queued_put_tombstone)
        then have "sys_pool s' = sys_pool s"
          unfolding split by (subst after [of s' Stopped]) (simp_all add: Getting s')
        then show ?thesis ..
      next
        case (Job t)
        let ?s1 = "set_phase n (Attempting t 0) (s\<lparr>sys_started := sys_started s @ started_by t\<rparr>)"
        have s': "s' = set_queue (wk_queue ?w) q ?s1"
          using step Getting get Job by (simp add: worker_step_def Let_def)
        have q: "queued_tasks s = add_mset t (queued_tasks s')"
          using queued_get(1) [of "wk_queue ?w" ?s1 t q] get Job by (simp add: s')
        let ?W = "queued_tasks s' + rest_sum (\<lambda>w. phase_waiting (wk_phase w)) n (sys_workers s)"
        have "pl_waiting (sys_pool s) = add_mset t ?W" by (simp add: split Getting q)
        from pool_take [OF this, of c] show ?thesis
          by (subst (asm) (2) split, subst after [of s' "Attempting t 0"]) (simp_all add: Getting s' split)
      qed
    qed
  next
    case (Attempting t k)
    let ?g = "if k = 0 then Fresh else Tried"
    let ?R = "rest_sum (\<lambda>w. phase_running (wk_phase w)) n (sys_workers s)"
    have r: "pl_running (sys_pool s) = add_mset (t, ?g) ?R" by (simp add: split Attempting)
    show ?thesis
    proof (cases "k \<ge> conf_retries c + 1 \<or> wk_stop ?w")
      case True
      then have s': "s' = set_phase n (Ending t) s" using step Attempting by (simp add: worker_step_def Let_def)
      have "?g = Tried \<or> ?g = Fresh \<and> pl_stop (sys_pool s)"
        using True stop_inv_worker [OF stop n] by (auto simp: sys_pool_def)
      from pool_give_up [OF r this, of c] show ?thesis
        by (subst after [of s' "Ending t"]) (simp_all add: Attempting s' split)
    next
      case False
      obtain r1 ts' t' puts where run: "task_run c env t (sys_ts s) = (r1, ts', t', puts)"
        by (cases "task_run c env t (sys_ts s)")
      let ?p = "if r1 = Inr () \<and> t_success t' then Ending t' else Attempting (task_reset t') (k + 1)"
      have s': "s' = fold (\<lambda>u. put_job PushQ (Job u)) puts (set_phase n ?p (s\<lparr>sys_ts := ts'\<rparr>))"
        using step Attempting False run by (simp add: worker_step_def Let_def)
      have "task_run c env t (pl_ts (sys_pool s)) = (r1, ts', t', puts)" using run by (simp add: sys_pool_def)
      from pool_attempt [OF r _ this] have
        "pool_step c (sys_pool s) ((sys_pool s)\<lparr>pl_ts := ts', pl_waiting := mset puts + pl_waiting (sys_pool s),
           pl_running := add_mset (if r1 = Inr () \<and> t_success t' then (t', Ended) else (task_reset t', Tried)) ?R\<rparr>)"
        by simp
      moreover have "sys_pool s' = (sys_pool s)\<lparr>pl_ts := ts', pl_waiting := mset puts + pl_waiting (sys_pool s),
           pl_running := add_mset (if r1 = Inr () \<and> t_success t' then (t', Ended) else (task_reset t', Tried)) ?R\<rparr>"
        by (subst after [of s' ?p]) (simp_all add: Attempting s' split queued_puts ac_simps)
      ultimately show ?thesis by simp
    qed
  next
    case (Ending t)
    let ?R = "rest_sum (\<lambda>w. phase_running (wk_phase w)) n (sys_workers s)"
    let ?fs = "if t_success t \<and> \<not> wk_stop ?w then task_followups c (ts_images (sys_ts s)) t else []"
    have s': "s' = set_phase n (Queueing ?fs) s" using step Ending by (simp add: worker_step_def Let_def)
    have r: "pl_running (sys_pool s) = add_mset (t, Ended) ?R" by (simp add: split Ending)
    have "?fs = (if t_success t then task_followups c (ts_images (pl_ts (sys_pool s))) t else []) \<or>
        ?fs = [] \<and> pl_stop (sys_pool s)"
      using stop_inv_worker [OF stop n] by (auto simp: sys_pool_def)
    from pool_finish [OF r this] show ?thesis
      by (subst after [of s' "Queueing ?fs"]) (simp_all add: Ending s' split ac_simps)
  next
    case (Queueing us)
    show ?thesis
    proof (cases us)
      case (Cons t ts)
      then have "s' = put_job (wk_queue ?w) (Job t) (set_phase n (Queueing ts) s)"
        using step Queueing by (simp add: worker_step_def Let_def)
      then have "sys_pool s' = sys_pool s"
        unfolding split
        by (subst after [of s' "Queueing ts"]) (simp_all add: Queueing Cons queued_put)
      then show ?thesis ..
    next
      case Nil
      show ?thesis
      proof (cases "q_task_done (queue_of (wk_queue ?w) s)")
        case (Inl e)
        then have "s' = set_phase n Stopped s" using step Queueing Nil by (simp add: worker_step_def Let_def)
        then have "sys_pool s' = sys_pool s"
          unfolding split by (subst after [of s' Stopped]) (simp_all add: Queueing Nil)
        then show ?thesis ..
      next
        case (Inr q)
        then have s': "s' = set_queue (wk_queue ?w) q (set_phase n Polling s)"
          using step Queueing Nil by (simp add: worker_step_def Let_def)
        have "queued_tasks s' = queued_tasks s"
          using Inr queued_done [of q "wk_queue ?w" "set_phase n Polling s"]
          by (auto simp: s' q_task_done_def split: if_splits)
        then have "sys_pool s' = sys_pool s"
          unfolding split by (subst after [of s' Polling]) (simp_all add: Queueing Nil s')
        then show ?thesis ..
      qed
    qed
  next
    case Stopped
    with step show ?thesis by (simp add: worker_step_def Let_def)
  qed
qed

lemma worker_step_frame:
  assumes "worker_step c env n s = Some s'" and "n < length (sys_workers s)"
  shows "sys_main s' = sys_main s" and "sys_interrupted s' = sys_interrupted s"
    and "\<exists>p. sys_workers s' = (sys_workers s)[n := (sys_workers s ! n)\<lparr>wk_phase := p\<rparr>]"
  using assms
  by (auto simp: worker_step_def Let_def split: phase.splits option.splits prod.splits job.splits
      if_splits list.splits sum.splits)

lemma worker_step_workers:
  assumes step: "worker_step c env n s = Some s'" and n: "n < length (sys_workers s)"
  shows "length (sys_workers s') = length (sys_workers s)"
    and "m < length (sys_workers s) \<Longrightarrow> wk_queue (sys_workers s' ! m) = wk_queue (sys_workers s ! m)"
    and "m < length (sys_workers s) \<Longrightarrow> wk_stop (sys_workers s' ! m) = wk_stop (sys_workers s ! m)"
  using worker_step_frame(3) [OF step n] n by (auto simp: nth_list_update split: if_splits)

lemma stop_inv_step:
  assumes inv: "stop_inv s" and step: "sys_step c l s = Some s'"
  shows "stop_inv s'"
proof (cases l)
  case (Worker n env)
  then have n: "n < length (sys_workers s)" and w: "worker_step c env n s = Some s'"
    using step by (auto split: if_splits)
  have "wk_stop v \<longrightarrow> sys_interrupted s'" if v: "v \<in> set (sys_workers s')" for v
  proof -
    obtain m where m: "m < length (sys_workers s)" "v = sys_workers s' ! m"
      using v worker_step_workers(1) [OF w n] by (auto simp: in_set_conv_nth)
    have "wk_stop v = wk_stop (sys_workers s ! m)" using worker_step_workers(3) [OF w n m(1)] m(2) by simp
    with stop_inv_worker [OF inv m(1)] worker_step_frame(2) [OF w n] show ?thesis by simp
  qed
  then show ?thesis using inv worker_step_frame(1,2) [OF w n] by (simp add: stop_inv_def)
next
  case Main
  then show ?thesis
    using step inv set_update_subset_insert
    by (fastforce simp: stop_inv_def main_step_def split: main_phase.splits if_splits)
next
  case Interrupt
  then show ?thesis using step inv by (auto simp: stop_inv_def interrupt_step_def split: main_phase.splits if_splits)
qed

lemma sys_pool_main:
  assumes "main_step s = Some s'"
  shows "sys_pool s' = sys_pool s"
proof -
  have upd: "map (\<lambda>w. f (wk_phase w)) (ws[k := (ws ! k)\<lparr>wk_stop := True\<rparr>]) = map (\<lambda>w. f (wk_phase w)) ws"
    for f :: "phase \<Rightarrow> 'z" and k ws
    by (rule list_update_same_field) simp
  show ?thesis
    using assms
    by (auto simp: main_step_def sys_pool_def queued_put_tombstone upd split: main_phase.splits if_splits)
qed

lemma sys_step_simulates:
  assumes "stop_inv s" and "sys_step c l s = Some s'"
  shows "sys_pool s' = sys_pool s \<or> pool_step c (sys_pool s) (sys_pool s')"
proof (cases l)
  case (Worker n env)
  then show ?thesis using assms worker_step_simulates [of n s c env s'] by (auto split: if_splits)
next
  case Main
  then show ?thesis using assms(2) sys_pool_main by simp
next
  case Interrupt
  then have "sys_pool s' = sys_pool s \<or> sys_pool s' = (sys_pool s)\<lparr>pl_stop := True\<rparr>"
    using assms(2) by (auto simp: interrupt_step_def sys_pool_def split: main_phase.splits if_splits)
  then show ?thesis using pool_stop [of c "sys_pool s"] by auto
qed

lemma sum_list_replicate_empty: "sum_list (replicate n {#}) = {#}"
  by (induction n) simp_all

lemma sys_pool_init: "sys_pool (sys_init c st) = pool_init st"
proof -
  have "q_items (build_queue st) = map Job (map (\<lambda>i. BuildTask i False) (root_images st))"
    unfolding build_queue_items fifo.items_put_all by (simp add: q_new_def)
  then have "queued_tasks (sys_init c st) = mset (map (\<lambda>i. BuildTask i False) (root_images st))"
    unfolding queued_tasks_def by (simp only: queue_of.simps sys_init_def system.simps job_tasks_map)
      (simp add: q_new_def)
  then show ?thesis
    by (simp add: sys_pool_def pool_init_def) (simp add: sys_init_def new_worker_def sum_list_replicate_empty)
qed

lemma stop_inv_init: "stop_inv (sys_init c st)"
  by (auto simp: stop_inv_def sys_init_def new_worker_def)

lemma sys_run_refines:
  "sys_run c st ls s \<Longrightarrow> stop_inv s \<and> pool_reachable c st (sys_pool s)"
proof (induction rule: sys_run.induct)
  case sys_run_init
  then show ?case by (simp add: stop_inv_init sys_pool_init pool_start)
next
  case (sys_run_step ls s l s')
  then have "stop_inv s'" using stop_inv_step by blast
  moreover have "pool_reachable c st (sys_pool s')"
    using sys_step_simulates [of s c l s'] sys_run_step pool_go by metis
  ultimately show ?case ..
qed

lemma sys_run_inv:
  "sys_run c st ls s \<Longrightarrow> forest_links st \<Longrightarrow> pool_inv c st (sys_pool s)"
  using sys_run_refines pool_reachable_inv by blast

end
