(* ===== verification/Worker_Progress.thy ===== *)
theory Worker_Progress
  imports Worker_Refinement
begin

text \<open>
  Why a build ends: the counters of unfinished tasks count the tasks that wait or run, so the main
  program stops the threads only when nothing is left to do; a measure that every action of a
  worker decreases bounds their number; and as long as a task is unfinished some worker can act.
\<close>

section \<open>The counters of unfinished tasks\<close>

definition busy :: "phase \<Rightarrow> bool" where
  "busy p \<longleftrightarrow> (case p of Attempting t k \<Rightarrow> True | Ending t \<Rightarrow> True | Queueing ts \<Rightarrow> True | _ \<Rightarrow> False)"

lemma busy_simps [simp]:
  "\<not> busy Polling" "\<not> busy Getting" "busy (Attempting t k)" "busy (Ending t)" "busy (Queueing ts)" "\<not> busy Stopped"
  by (simp_all add: busy_def)

definition busy_at :: "which \<Rightarrow> worker \<Rightarrow> nat" where
  "busy_at q w = (if wk_queue w = q \<and> busy (wk_phase w) then 1 else 0)"

definition busy_count :: "which \<Rightarrow> system \<Rightarrow> nat" where
  "busy_count q s = sum_list (map (busy_at q) (sys_workers s))"

definition job_count :: "which \<Rightarrow> system \<Rightarrow> nat" where
  "job_count q s = size (job_tasks (q_items (queue_of q s)))"

text \<open>The main program has not yet put the tombstone of the queue.\<close>

fun before_tomb :: "which \<Rightarrow> main_phase \<Rightarrow> bool" where
  "before_tomb q MainJoining = False"
| "before_tomb q MainDone = False"
| "before_tomb q MainBuildTomb = (q = BuildQ)"
| "before_tomb q _ = True"

definition counter_ok :: "which \<Rightarrow> system \<Rightarrow> bool" where
  "counter_ok q s \<longleftrightarrow> job_count q s + busy_count q s \<le> q_unfinished (queue_of q s) \<and>
     (before_tomb q (sys_main s) \<and> \<not> sys_interrupted s \<longrightarrow> Tombstone \<notin> set (q_items (queue_of q s)) \<and>
        q_unfinished (queue_of q s) = job_count q s + busy_count q s) \<and>
     (\<not> before_tomb q (sys_main s) \<and> sys_main s \<noteq> MainDone \<longrightarrow> Tombstone \<in> set (q_items (queue_of q s)))"

lemma busy_count_phase:
  assumes "n < length (sys_workers s)"
    and "sys_workers s' = (sys_workers s)[n := (sys_workers s ! n)\<lparr>wk_phase := p\<rparr>]"
  shows "busy_count q s' + busy_at q (sys_workers s ! n) =
    busy_count q s + (if wk_queue (sys_workers s ! n) = q \<and> busy p then 1 else 0)"
  using assms by (simp add: busy_count_def assms(2) sum_update sum_split [of n "sys_workers s"] busy_at_def)

lemma job_count_put: "job_count q (put_job w (Job t) s) = job_count q s + (if q = w then 1 else 0)"
  by (simp add: job_count_def q_put_def)

lemma counter_put_job: "counter_ok q (put_job w (Job t) s) \<longleftrightarrow> counter_ok q s"
proof -
  have "q_unfinished (queue_of q (put_job w (Job t) s)) = q_unfinished (queue_of q s) + (if q = w then 1 else 0)"
    by (simp add: q_put_def)
  moreover have "Tombstone \<in> set (q_items (queue_of q (put_job w (Job t) s))) \<longleftrightarrow> Tombstone \<in> set (q_items (queue_of q s))"
    by (simp add: q_put_def)
  moreover have "busy_count q (put_job w (Job t) s) = busy_count q s" by (simp add: busy_count_def)
  ultimately show ?thesis unfolding counter_ok_def job_count_put by simp
qed

lemma counter_put_jobs: "counter_ok q (fold (\<lambda>u. put_job w (Job u)) us s) \<longleftrightarrow> counter_ok q s"
  by (induction us arbitrary: s) (simp_all add: counter_put_job)

lemma busy_count_pos:
  "n < length (sys_workers s) \<Longrightarrow> busy (wk_phase (sys_workers s ! n)) \<Longrightarrow>
     0 < busy_count (wk_queue (sys_workers s ! n)) s"
  by (simp add: busy_count_def sum_split [of n "sys_workers s"] busy_at_def)

lemma busy_count_zero:
  assumes "busy_count q s = 0" and "n < length (sys_workers s)" and "wk_queue (sys_workers s ! n) = q"
  shows "\<not> busy (wk_phase (sys_workers s ! n))"
  using busy_count_pos [OF assms(2)] assms by auto

text \<open>\<open>task\_done\<close> is never called too many times.\<close>

lemma task_done_ok:
  assumes "counter_ok q s" and "n < length (sys_workers s)" and "wk_queue (sys_workers s ! n) = q"
    and "busy (wk_phase (sys_workers s ! n))"
  shows "q_task_done (queue_of q s) = Inr ((queue_of q s)\<lparr>q_unfinished := q_unfinished (queue_of q s) - 1\<rparr>)"
  using assms(1) busy_count_pos [OF assms(2,4)] assms(3) by (auto simp: q_task_done_def counter_ok_def)

text \<open>A step of worker \<open>n\<close> that changes its phase and at most its own queue.\<close>

lemma counter_phase:
  assumes n: "n < length (sys_workers s)" and ok: "counter_ok q s"
    and w: "sys_workers s' = (sys_workers s)[n := (sys_workers s ! n)\<lparr>wk_phase := p\<rparr>]"
    and m: "sys_main s' = sys_main s" "sys_interrupted s' = sys_interrupted s"
    and same: "queue_of q s' = queue_of q s"
    and busy: "wk_queue (sys_workers s ! n) = q \<Longrightarrow> busy p = busy (wk_phase (sys_workers s ! n))"
  shows "counter_ok q s'"
proof -
  have "busy_count q s' = busy_count q s"
    using busy_count_phase [OF n w, of q] busy by (auto simp: busy_at_def split: if_splits)
  then show ?thesis using ok by (simp add: counter_ok_def job_count_def same m)
qed

lemma counter_worker:
  assumes ok: "\<And>q. counter_ok q s" and n: "n < length (sys_workers s)"
    and step: "worker_step c env n s = Some s'"
  shows "counter_ok q s'"
proof -
  let ?w = "sys_workers s ! n"
  let ?v = "wk_queue ?w"
  note phase = counter_phase [OF n ok]
  show ?thesis
  proof (cases "wk_phase ?w")
    case Polling
    then have s': "s' = set_phase n (if wk_stop ?w then Stopped else Getting) s"
      using step by (simp add: worker_step_def Let_def)
    show ?thesis by (rule phase [of s' "if wk_stop ?w then Stopped else Getting"]) (simp_all add: s' Polling)
  next
    case Getting
    show ?thesis
    proof (cases "q_get (queue_of ?v s)")
      case None
      with step Getting show ?thesis by (simp add: worker_step_def Let_def)
    next
      case (Some jq)
      then obtain j r where get: "q_get (queue_of ?v s) = Some (j, r)" by (cases jq) simp
      then have items: "q_items (queue_of ?v s) = j # q_items r" and unf: "q_unfinished r = q_unfinished (queue_of ?v s)"
        by (simp_all add: q_get_Some)
      show ?thesis
      proof (cases j)
        case Tombstone
        have s': "s' = put_job ?v Tombstone (set_queue ?v r (set_phase n Stopped s))"
          using step Getting get Tombstone by (simp add: worker_step_def Let_def)
        have ws: "sys_workers s' = (sys_workers s)[n := ?w\<lparr>wk_phase := Stopped\<rparr>]" by (simp add: s')
        have "busy_count q s' = busy_count q s"
          using busy_count_phase [OF n ws, of q] by (simp add: busy_at_def Getting)
        moreover have "job_count q s' = job_count q s"
          using items Tombstone by (simp add: s' job_count_def q_put_def)
        ultimately show ?thesis
          using ok [of q] items unf Tombstone by (auto simp: counter_ok_def s' q_put_def)
      next
        case (Job t)
        have s': "s' = set_queue ?v r (set_phase n (Attempting t 0)
            (s\<lparr>sys_started := sys_started s @ started_by t\<rparr>))"
          using step Getting get Job by (simp add: worker_step_def Let_def)
        have ws: "sys_workers s' = (sys_workers s)[n := ?w\<lparr>wk_phase := Attempting t 0\<rparr>]" by (simp add: s')
        have "busy_count q s' = busy_count q s + (if ?v = q then 1 else 0)"
          using busy_count_phase [OF n ws, of q] by (simp add: busy_at_def Getting)
        moreover have "job_count q s = job_count q s' + (if ?v = q then 1 else 0)"
          using items Job by (auto simp: s' job_count_def)
        ultimately show ?thesis
          using ok [of q] items unf Job by (auto simp: counter_ok_def s')
      qed
    qed
  next
    case (Attempting t k)
    show ?thesis
    proof (cases "k \<ge> conf_retries c + 1 \<or> wk_stop ?w")
      case True
      then have s': "s' = set_phase n (Ending t) s" using step Attempting by (simp add: worker_step_def Let_def)
      show ?thesis by (rule phase [of s' "Ending t"]) (simp_all add: s' Attempting)
    next
      case False
      obtain r1 ts' t' puts where run: "task_run c env t (sys_ts s) = (r1, ts', t', puts)"
        by (cases "task_run c env t (sys_ts s)")
      let ?p = "if r1 = Inr () \<and> t_success t' then Ending t' else Attempting (task_reset t') (k + 1)"
      let ?s1 = "set_phase n ?p (s\<lparr>sys_ts := ts'\<rparr>)"
      have s': "s' = fold (\<lambda>u. put_job PushQ (Job u)) puts ?s1"
        using step Attempting False run by (simp add: worker_step_def Let_def)
      have "counter_ok q ?s1" by (rule phase [of ?s1 ?p]) (simp_all add: Attempting)
      then show ?thesis by (simp add: s' counter_put_jobs)
    qed
  next
    case (Ending t)
    let ?fs = "if t_success t \<and> \<not> wk_stop ?w then task_followups c (ts_images (sys_ts s)) t else []"
    have s': "s' = set_phase n (Queueing ?fs) s" using step Ending by (simp add: worker_step_def Let_def)
    show ?thesis by (rule phase [of s' "Queueing ?fs"]) (simp_all add: s' Ending)
  next
    case (Queueing us)
    show ?thesis
    proof (cases us)
      case (Cons t ts)
      let ?s1 = "set_phase n (Queueing ts) s"
      have s': "s' = put_job ?v (Job t) ?s1"
        using step Queueing Cons by (simp add: worker_step_def Let_def)
      have "counter_ok q ?s1" by (rule phase [of ?s1 "Queueing ts"]) (simp_all add: Queueing)
      then show ?thesis by (simp add: s' counter_put_job)
    next
      case Nil
      have fin: "q_task_done (queue_of ?v s) =
          Inr ((queue_of ?v s)\<lparr>q_unfinished := q_unfinished (queue_of ?v s) - 1\<rparr>)"
        by (rule task_done_ok [OF ok n refl]) (simp add: Queueing)
      let ?q = "(queue_of ?v s)\<lparr>q_unfinished := q_unfinished (queue_of ?v s) - 1\<rparr>"
      have s': "s' = set_queue ?v ?q (set_phase n Polling s)"
        using step Queueing Nil fin by (simp add: worker_step_def Let_def)
      have ws: "sys_workers s' = (sys_workers s)[n := ?w\<lparr>wk_phase := Polling\<rparr>]" by (simp add: s')
      have "busy_count q s' + (if ?v = q then 1 else 0) = busy_count q s"
        using busy_count_phase [OF n ws, of q] by (simp add: busy_at_def Queueing)
      moreover have "job_count q s' = job_count q s" by (simp add: s' job_count_def)
      ultimately show ?thesis using ok [of q] by (auto simp: counter_ok_def s')
    qed
  next
    case Stopped
    with step show ?thesis by (simp add: worker_step_def Let_def)
  qed
qed

lemma counter_step:
  assumes ok: "\<And>q. counter_ok q s" and stop: "stop_inv s" and step: "sys_step c l s = Some s'"
  shows "counter_ok q s'"
proof (cases l)
  case (Worker n env)
  then show ?thesis using step counter_worker [OF ok] by (auto split: if_splits)
next
  case Main
  have busy: "map (busy_at q) (ws[k := (ws ! k)\<lparr>wk_stop := True\<rparr>]) = map (busy_at q) ws" for ws k
    by (rule list_update_same_field) (simp add: busy_at_def)
  have put: "counter_ok q (put_job w Tombstone (s\<lparr>sys_main := m\<rparr>))"
    if "sys_main s = m'" "before_tomb w m'" "\<not> before_tomb w m" "m \<noteq> MainDone" "m' \<noteq> MainDone" "\<And>v. v \<noteq> w \<Longrightarrow> before_tomb v m = before_tomb v m'" for w m m'
    using that ok [of q]
    by (cases "q = w") (auto simp: counter_ok_def job_count_def busy_count_def q_put_def)
  have tombs: "counter_ok q (put_job PushQ Tombstone (s\<lparr>sys_main := MainBuildTomb\<rparr>))" if "sys_main s = MainPushTomb"
    using that by (intro put [OF that]) (auto split: which.splits, metis which.exhaust)
  have tombs': "counter_ok q (put_job BuildQ Tombstone (s\<lparr>sys_main := MainJoining\<rparr>))" if "sys_main s = MainBuildTomb"
    using that by (intro put [OF that]) auto
  have moved: "counter_ok q (s\<lparr>sys_workers := ws, sys_main := m\<rparr>)"
    if "map (busy_at q) ws = map (busy_at q) (sys_workers s)" "before_tomb q m = before_tomb q (sys_main s) \<or> sys_interrupted s"
      "before_tomb q (sys_main s) \<longrightarrow> before_tomb q m \<or> m = MainDone" "sys_main s \<noteq> MainDone" for ws m
    using that ok [of q] by (auto simp: counter_ok_def job_count_def busy_count_def)
  show ?thesis
  proof (cases "sys_main s")
    case MainPushTomb
    with step Main tombs show ?thesis by (simp add: main_step_def)
  next
    case MainBuildTomb
    with step Main tombs' show ?thesis by (simp add: main_step_def)
  next
    case MainPolling
    with step Main ok [of q] moved [of "sys_workers s" MainBuildEmpty] show ?thesis
      by (auto simp: main_step_def split: if_splits)
  next
    case MainBuildEmpty
    with step Main moved [of "sys_workers s" MainPolling] moved [of "sys_workers s" MainPushTomb] show ?thesis
      by (auto simp: main_step_def split: if_splits)
  next
    case (MainHandler k)
    with step Main moved [OF busy, of "MainHandler (k + 1)" k] moved [of "sys_workers s" MainPushTomb] show ?thesis
      by (auto simp: main_step_def split: if_splits)
  next
    case MainJoining
    with step Main moved [of "sys_workers s" MainDone] moved [of "sys_workers s" MainLeft] show ?thesis
      by (auto simp: main_step_def split: if_splits)
  next
    case MainCut
    with step Main stop moved [of "sys_workers s" MainDone] moved [of "sys_workers s" MainLeft] show ?thesis
      by (auto simp: main_step_def stop_inv_def split: if_splits)
  qed (use step Main in \<open>simp_all add: main_step_def\<close>)
next
  case Interrupt
  have moved: "counter_ok q (s\<lparr>sys_main := m, sys_interrupted := True\<rparr>)"
    if "before_tomb q m" for m
    using that ok [of q] by (simp add: counter_ok_def job_count_def busy_count_def)
  show ?thesis
    using step Interrupt ok [of q] stop moved [of "MainHandler 0"]
    by (auto simp: interrupt_step_def counter_ok_def job_count_def busy_count_def stop_inv_def split: main_phase.splits if_splits)
qed

section \<open>Nothing is left when the main program goes on\<close>

definition idle :: "which \<Rightarrow> system \<Rightarrow> bool" where
  "idle q s \<longleftrightarrow> job_count q s = 0 \<and> busy_count q s = 0"

lemma job_task_in: "Job t \<in> set js \<Longrightarrow> job_tasks js \<noteq> {#}"
  by (induction js) (auto simp: job_tasks_def)

lemma idle_no_job: "idle q s \<Longrightarrow> Job t \<notin> set (q_items (queue_of q s))"
  using job_task_in by (auto simp: idle_def job_count_def)

lemma idle_phase:
  assumes n: "n < length (sys_workers s)" and i: "idle q s"
    and w: "sys_workers s' = (sys_workers s)[n := (sys_workers s ! n)\<lparr>wk_phase := p\<rparr>]"
    and jobs: "job_tasks (q_items (queue_of q s')) = job_tasks (q_items (queue_of q s))"
    and p: "wk_queue (sys_workers s ! n) = q \<Longrightarrow> \<not> busy p"
  shows "idle q s'"
  using busy_count_phase [OF n w, of q] i p by (auto simp: idle_def job_count_def jobs split: if_splits)

lemma idle_queue:
  "queue_of q (put_job w j s) = queue_of q s" if "q \<noteq> w"
  using that by simp

lemma idle_worker:
  assumes n: "n < length (sys_workers s)" and i: "idle q s" and also_build: "idle BuildQ s"
    and step: "worker_step c env n s = Some s'"
  shows "idle q s'"
proof -
  let ?w = "sys_workers s ! n"
  let ?v = "wk_queue ?w"
  note phase = idle_phase [OF n i]
  show ?thesis
  proof (cases "idle ?v s")
    case True
    then have nb: "\<not> busy (wk_phase ?w)" using busy_count_zero [OF _ n refl] by (simp add: idle_def)
    show ?thesis
    proof (cases "wk_phase ?w")
      case Polling
      then have s': "s' = set_phase n (if wk_stop ?w then Stopped else Getting) s"
        using step by (simp add: worker_step_def Let_def)
      show ?thesis by (rule phase [of s' "if wk_stop ?w then Stopped else Getting"]) (simp_all add: s')
    next
      case Getting
      obtain j r where get: "q_get (queue_of ?v s) = Some (j, r)"
        using step Getting by (cases "q_get (queue_of ?v s)") (auto simp: worker_step_def Let_def)
      then have items: "q_items (queue_of ?v s) = j # q_items r" by (simp add: q_get_Some)
      then have j: "j = Tombstone" using idle_no_job [OF True] by (cases j) auto
      have s': "s' = put_job ?v Tombstone (set_queue ?v r (set_phase n Stopped s))"
        using step Getting get j by (simp add: worker_step_def Let_def)
      show ?thesis by (rule phase [of s' Stopped]) (auto simp: s' q_put_def items j)
    qed (use nb step in \<open>auto simp: worker_step_def\<close>)
  next
    case False
    then have v: "?v = PushQ" "q = BuildQ \<or> \<not> idle PushQ s" using also_build by (cases ?v; cases q; auto)+
    with i have q: "q = BuildQ" by (cases q) auto
    obtain p where p: "sys_workers s' = (sys_workers s)[n := ?w\<lparr>wk_phase := p\<rparr>]"
      using worker_step_frame(3) [OF step n] by blast
    have "queue_of BuildQ s' = queue_of BuildQ s"
      using step v(1)
      by (auto simp: worker_step_def Let_def queue_put_jobs
          split: phase.splits option.splits prod.splits job.splits if_splits list.splits sum.splits
          simp del: queue_of.simps set_queue.simps)
    then show ?thesis using phase [OF p] v(1) q by simp
  qed
qed

definition exit_ok :: "system \<Rightarrow> bool" where
  "exit_ok s \<longleftrightarrow>
     (sys_main s = MainBuildEmpty \<longrightarrow> idle BuildQ s) \<and>
     (\<not> sys_interrupted s \<and> sys_main s \<in> {MainPushTomb, MainBuildTomb, MainJoining, MainDone} \<longrightarrow>
        idle BuildQ s \<and> idle PushQ s) \<and>
     (\<forall>w \<in> set (sys_workers s). wk_phase w = Stopped \<longrightarrow>
        wk_stop w \<or> \<not> before_tomb (wk_queue w) (sys_main s) \<or> sys_interrupted s) \<and>
     (sys_main s = MainDone \<longrightarrow> all_stopped s)"

lemma idle_main: "idle q (s\<lparr>sys_main := m\<rparr>) = idle q s"
  by (simp add: idle_def job_count_def busy_count_def)

lemma idle_tomb: "idle q (put_job w Tombstone s) = idle q s"
  by (simp add: idle_def job_count_def busy_count_def q_put_def)

lemma counter_idle:
  "counter_ok q s \<Longrightarrow> before_tomb q (sys_main s) \<Longrightarrow> \<not> sys_interrupted s \<Longrightarrow> q_unfinished (queue_of q s) = 0 \<longleftrightarrow> idle q s"
  by (simp add: counter_ok_def idle_def)

text \<open>A worker stops for a tombstone in its queue or for its stop flag.\<close>

lemma stopped_worker:
  assumes ok: "\<And>q. counter_ok q s" and n: "n < length (sys_workers s)"
    and step: "worker_step c env n s = Some s'" and st: "wk_phase (sys_workers s' ! n) = Stopped"
  shows "wk_stop (sys_workers s ! n) \<or> \<not> before_tomb (wk_queue (sys_workers s ! n)) (sys_main s) \<or> sys_interrupted s"
proof -
  let ?w = "sys_workers s ! n"
  have tomb: "\<not> before_tomb (wk_queue ?w) (sys_main s) \<or> sys_interrupted s"
    if "q_get (queue_of (wk_queue ?w) s) = Some (Tombstone, r)" for r
    using that ok [of "wk_queue ?w"] by (auto simp: counter_ok_def q_get_Some)
  show ?thesis
  proof (cases "wk_phase ?w")
    case (Queueing us)
    then show ?thesis
      using step st n task_done_ok [OF ok n refl]
      by (cases us) (auto simp: worker_step_def Let_def)
  next
    case Getting
    then show ?thesis
      using step st n tomb
      by (auto simp: worker_step_def Let_def split: option.splits prod.splits job.splits)
  qed (use step st n in \<open>auto simp: worker_step_def Let_def split: if_splits prod.splits\<close>)
qed

lemma exit_ok_step:
  assumes ok: "\<And>q. counter_ok q s" and stop: "stop_inv s" and ex: "exit_ok s" and step: "sys_step c l s = Some s'"
  shows "exit_ok s'"
proof (cases l)
  case (Worker n env)
  then have n: "n < length (sys_workers s)" and w: "worker_step c env n s = Some s'"
    using step by (auto split: if_splits)
  note fr = worker_step_frame(1,2) [OF w n] worker_step_workers [OF w n]
  have stopped: "wk_stop v \<or> \<not> before_tomb (wk_queue v) (sys_main s') \<or> sys_interrupted s'"
    if v: "v \<in> set (sys_workers s')" "wk_phase v = Stopped" for v
  proof -
    obtain m where m: "m < length (sys_workers s)" "v = sys_workers s' ! m"
      using v(1) fr(3) by (auto simp: in_set_conv_nth)
    have "wk_stop (sys_workers s ! m) \<or> \<not> before_tomb (wk_queue (sys_workers s ! m)) (sys_main s) \<or> sys_interrupted s"
    proof (cases "m = n")
      case True
      then show ?thesis using stopped_worker [OF ok n w] v(2) m(2) by simp
    next
      case False
      then have "sys_workers s' ! m = sys_workers s ! m" using worker_step_frame(3) [OF w n] by auto
      then show ?thesis using ex v(2) m nth_mem [OF m(1)] by (auto simp: exit_ok_def)
    qed
    then show ?thesis using fr(1,2,4,5) m by simp
  qed
  have all: "all_stopped s \<Longrightarrow> False"
    using w n nth_mem [OF n] by (auto simp: all_stopped_def worker_step_def Let_def)
  show ?thesis
    unfolding exit_ok_def
  proof (intro conjI impI ballI)
    assume "sys_main s' = MainBuildEmpty"
    then have "idle BuildQ s" using ex fr(1) by (simp add: exit_ok_def)
    then show "idle BuildQ s'" using idle_worker [OF n _ _ w] by blast
  next
    assume "\<not> sys_interrupted s' \<and> sys_main s' \<in> {MainPushTomb, MainBuildTomb, MainJoining, MainDone}"
    then have "idle BuildQ s" "idle PushQ s" using ex fr(1,2) by (auto simp: exit_ok_def)
    then show "idle BuildQ s'" "idle PushQ s'" using idle_worker [OF n _ _ w] by blast+
  next
    fix v assume "v \<in> set (sys_workers s')" "wk_phase v = Stopped"
    then show "wk_stop v \<or> \<not> before_tomb (wk_queue v) (sys_main s') \<or> sys_interrupted s'" by (rule stopped)
  next
    assume "sys_main s' = MainDone"
    then show "all_stopped s'" using ex all fr(1) by (auto simp: exit_ok_def)
  qed
next
  case Main
  show ?thesis
  proof (cases "sys_main s")
    case MainPolling
    with step Main ex stop counter_idle [OF ok, of BuildQ] show ?thesis
      by (auto simp: main_step_def exit_ok_def idle_main stop_inv_def split: if_splits)
  next
    case MainBuildEmpty
    with step Main ex stop counter_idle [OF ok, of PushQ] show ?thesis
      by (auto simp: main_step_def exit_ok_def idle_main stop_inv_def split: if_splits)
  next
    case (MainHandler k)
    then have "sys_interrupted s" using stop by (auto simp: stop_inv_def)
    then show ?thesis using step Main MainHandler
      by (auto simp: main_step_def exit_ok_def split: if_splits)
  next
    case MainPushTomb
    with step Main ex show ?thesis
      by (auto simp: main_step_def exit_ok_def idle_main idle_tomb)
  next
    case MainBuildTomb
    with step Main ex show ?thesis
      by (auto simp: main_step_def exit_ok_def idle_main idle_tomb)
  next
    case MainJoining
    with step Main ex show ?thesis
      by (auto simp: main_step_def exit_ok_def idle_main all_stopped_def split: if_splits)
  next
    case MainCut
    then have "sys_interrupted s" using stop by (auto simp: stop_inv_def)
    with step Main MainCut show ?thesis
      by (auto simp: main_step_def exit_ok_def all_stopped_def split: if_splits)
  qed (use step Main in \<open>simp_all add: main_step_def\<close>)
next
  case Interrupt
  with step ex stop show ?thesis
    by (auto simp: interrupt_step_def exit_ok_def stop_inv_def split: main_phase.splits if_splits)
qed

section \<open>The invariants of a run\<close>

definition queues_ok :: "conf \<Rightarrow> system \<Rightarrow> bool" where
  "queues_ok c s \<longleftrightarrow> map wk_queue (sys_workers s) =
     replicate (conf_threads c) BuildQ @ replicate (conf_push_threads c) PushQ"

lemma queues_ok_step: "queues_ok c s \<Longrightarrow> sys_step c l s = Some s' \<Longrightarrow> queues_ok c s'"
proof (cases l)
  case (Worker n env)
  assume ok: "queues_ok c s" and step: "sys_step c l s = Some s'"
  then have n: "n < length (sys_workers s)" and w: "worker_step c env n s = Some s'"
    using Worker by (auto split: if_splits)
  have "map wk_queue (sys_workers s') = map wk_queue (sys_workers s)"
    using worker_step_workers(1,2) [OF w n] by (intro nth_equalityI) simp_all
  with ok show ?thesis by (simp add: queues_ok_def)
next
  case Main
  assume ok: "queues_ok c s" and step: "sys_step c l s = Some s'"
  have "map wk_queue (ws[k := (ws ! k)\<lparr>wk_stop := True\<rparr>]) = map wk_queue ws" for ws :: "worker list" and k
    by (rule list_update_same_field) simp
  with Main ok step show ?thesis
    by (auto simp: main_step_def queues_ok_def split: main_phase.splits if_splits)
next
  case Interrupt
  assume "queues_ok c s" "sys_step c l s = Some s'"
  with Interrupt show ?thesis by (auto simp: interrupt_step_def queues_ok_def split: main_phase.splits if_splits)
qed

lemma counter_init: "counter_ok q (sys_init c st)"
proof -
  have items: "q_items (build_queue st) = map Job (map (\<lambda>i. BuildTask i False) (root_images st))"
    unfolding build_queue_items fifo.items_put_all by (simp add: q_new_def)
  have unf: "q_unfinished (build_queue st) = length (root_images st)"
    unfolding build_queue_items fifo.unfinished_put_all by (simp add: q_new_def)
  have "busy_count q (sys_init c st) = 0"
    by (simp add: busy_count_def sys_init_def busy_at_def new_worker_def sum_list_replicate)
  moreover have "job_count BuildQ (sys_init c st) = length (root_images st)"
    by (simp only: job_count_def queue_of.simps sys_init_def system.simps items job_tasks_map) simp
  moreover have "job_count PushQ (sys_init c st) = 0"
    by (simp add: job_count_def sys_init_def q_new_def)
  moreover have "Tombstone \<notin> set (q_items (build_queue st))" unfolding items by auto
  ultimately show ?thesis
    by (cases q) (simp_all add: counter_ok_def sys_init_def unf q_new_def)
qed

text \<open>What holds in every state of a run.\<close>

definition run_inv :: "conf \<Rightarrow> system \<Rightarrow> bool" where
  "run_inv c s \<longleftrightarrow> stop_inv s \<and> (\<forall>q. counter_ok q s) \<and> exit_ok s \<and> queues_ok c s"

lemma run_inv: "sys_run c st ls s \<Longrightarrow> run_inv c s"
proof (rule sys_run_invariant [where I = "run_inv c"])
  show "run_inv c (sys_init c st)"
    by (simp add: run_inv_def stop_inv_init counter_init)
      (auto simp: exit_ok_def queues_ok_def sys_init_def new_worker_def)
  fix l s s' assume "run_inv c s" "sys_step c l s = Some s'"
  then show "run_inv c s'"
    unfolding run_inv_def using stop_inv_step counter_step exit_ok_step queues_ok_step by blast
qed

section \<open>Progress\<close>

lemma worker_can_act:
  assumes "wk_phase (sys_workers s ! n) \<noteq> Stopped"
    and "wk_phase (sys_workers s ! n) = Getting \<longrightarrow> q_items (queue_of (wk_queue (sys_workers s ! n)) s) \<noteq> []"
  shows "\<exists>s'. worker_step c env n s = Some s'"
  using assms q_get_None [of "queue_of (wk_queue (sys_workers s ! n)) s"]
  by (auto simp: worker_step_def Let_def
      split: phase.splits option.splits prod.splits job.splits list.splits sum.splits)

lemma queue_has_worker:
  assumes "queues_ok c s" and "0 < conf_threads c" and "0 < conf_push_threads c"
  shows "\<exists>n < length (sys_workers s). wk_queue (sys_workers s ! n) = q"
proof -
  have "q \<in> set (map wk_queue (sys_workers s))"
    using assms by (cases q) (simp_all add: queues_ok_def)
  then show ?thesis by (auto simp: in_set_conv_nth)
qed

lemma busy_count_zero_iff:
  "busy_count q s = 0 \<longleftrightarrow> (\<forall>n < length (sys_workers s). wk_queue (sys_workers s ! n) = q \<longrightarrow> \<not> busy (wk_phase (sys_workers s ! n)))"
proof -
  have "busy_count q s = 0 \<longleftrightarrow> (\<forall>w \<in> set (sys_workers s). wk_queue w = q \<longrightarrow> \<not> busy (wk_phase w))"
    by (auto simp: busy_count_def busy_at_def)
  then show ?thesis by (simp only: all_set_conv_all_nth)
qed

lemma progress:
  assumes inv: "run_inv c s" and threads: "0 < conf_threads c" "0 < conf_push_threads c"
    and waits: "sys_main s \<in> {MainPolling, MainBuildEmpty} \<longrightarrow>
      q_unfinished (sys_build s) \<noteq> 0 \<or> q_unfinished (sys_push s) \<noteq> 0"
    and joins: "sys_main s \<in> {MainPolling, MainBuildEmpty} \<or> sys_main s = MainJoining \<and> \<not> all_stopped s"
  shows "\<exists>n env s'. sys_step c (Worker n env) s = Some s'"
proof -
  have ok: "counter_ok q s" for q using inv by (simp add: run_inv_def)
  have ex: "exit_ok s" and stop: "stop_inv s" and qs: "queues_ok c s" using inv by (simp_all add: run_inv_def)
  have act: ?thesis if "n < length (sys_workers s)" "wk_phase (sys_workers s ! n) \<noteq> Stopped"
      "wk_phase (sys_workers s ! n) = Getting \<longrightarrow> q_items (queue_of (wk_queue (sys_workers s ! n)) s) \<noteq> []" for n
    using worker_can_act [OF that(2,3)] that(1) by (intro exI [of _ n]) auto
  show ?thesis
  proof (cases "sys_main s = MainJoining")
    case True
    with joins obtain w where "w \<in> set (sys_workers s)" "wk_phase w \<noteq> Stopped"
      by (auto simp: all_stopped_def)
    then obtain n where n: "n < length (sys_workers s)" "wk_phase (sys_workers s ! n) \<noteq> Stopped"
      by (auto simp: in_set_conv_nth)
    have "Tombstone \<in> set (q_items (queue_of (wk_queue (sys_workers s ! n)) s))"
      using ok [of "wk_queue (sys_workers s ! n)"] True by (simp add: counter_ok_def)
    then show ?thesis by (intro act [OF n]) auto
  next
    case False
    then have m: "sys_main s \<in> {MainPolling, MainBuildEmpty}" using joins by blast
    then have before: "before_tomb q (sys_main s)" for q by auto
    from m waits obtain q where "q_unfinished (queue_of q s) \<noteq> 0"
      by (metis queue_of.simps)
    then have left: "job_count q s + busy_count q s \<noteq> 0"
      using ok [of q] before stop m by (auto simp: counter_ok_def stop_inv_def)
    have running: "wk_phase (sys_workers s ! n) \<noteq> Stopped" if "n < length (sys_workers s)" for n
      using ex nth_mem [OF that] before stop m by (auto simp: exit_ok_def stop_inv_def)
    show ?thesis
    proof (cases "busy_count q s = 0")
      case False
      then obtain n where "n < length (sys_workers s)" "busy (wk_phase (sys_workers s ! n))"
        by (auto simp: busy_count_zero_iff)
      then show ?thesis by (intro act [of n]) auto
    next
      case True
      with left have items: "q_items (queue_of q s) \<noteq> []" by (auto simp: job_count_def)
      obtain n where "n < length (sys_workers s)" "wk_queue (sys_workers s ! n) = q"
        using queue_has_worker [OF qs threads] by blast
      with items running show ?thesis by (intro act [of n]) auto
    qed
  qed
qed

section \<open>The measure\<close>

fun push_cost :: "nat \<Rightarrow> nat" where "push_cost r = r + 6"

fun into_cost :: "nat \<Rightarrow> nat" where "into_cost r = 2 * r + 12"

fun build_cost :: "nat \<Rightarrow> nat" where "build_cost r = 3 * r + 19"

fun ending_cost :: "nat \<Rightarrow> task \<Rightarrow> nat" where
  "ending_cost r (BuildTask i b) = 5 + into_cost r"
| "ending_cost r (PushTask i b) = 4"
| "ending_cost r (PushIntoQueueTask i b) = 4"

fun hidden_cost :: "nat \<Rightarrow> task \<Rightarrow> nat" where
  "hidden_cost r (PushIntoQueueTask i b) = push_cost r"
| "hidden_cost r t = 0"

definition attempt_cost :: "nat \<Rightarrow> task \<Rightarrow> nat \<Rightarrow> nat" where
  "attempt_cost r t k = 1 + (r + 1 - k) + hidden_cost r t + ending_cost r t"

definition task_cost :: "nat \<Rightarrow> task \<Rightarrow> nat" where
  "task_cost r t = attempt_cost r t 0"

lemma task_cost_simps [simp]:
  "task_cost r (BuildTask i b) = build_cost r" "task_cost r (PushTask i b) = push_cost r"
  "task_cost r (PushIntoQueueTask i b) = into_cost r"
  by (simp_all add: task_cost_def attempt_cost_def)

fun phase_cost :: "nat \<Rightarrow> phase \<Rightarrow> nat" where
  "phase_cost r Stopped = 0"
| "phase_cost r Getting = 1"
| "phase_cost r Polling = 2"
| "phase_cost r (Queueing ts) = 3 + sum_list (map (\<lambda>t. 1 + task_cost r t) ts)"
| "phase_cost r (Ending t) = ending_cost r t"
| "phase_cost r (Attempting t k) = attempt_cost r t k"

definition unqueued :: "store \<Rightarrow> system \<Rightarrow> nat set" where
  "unqueued st s = {i. i < length st \<and> tokens i (sys_pool s) = 0}"

definition work_left :: "conf \<Rightarrow> store \<Rightarrow> system \<Rightarrow> nat" where
  "work_left c st s = (1 + build_cost (conf_retries c)) * card (unqueued st s) +
     sum_mset (image_mset (task_cost (conf_retries c)) (queued_tasks s)) +
     sum_list (map (\<lambda>w. phase_cost (conf_retries c) (wk_phase w)) (sys_workers s))"

lemma pool_step_tokens: "pool_step c s s' \<Longrightarrow> tokens i s \<le> tokens i s'"
  by (induction rule: pool_step.induct) (auto simp: tokens_def started_by_count)

lemma finite_unqueued [simp]: "finite (unqueued st s)"
  by (simp add: unqueued_def)

lemma unqueued_step:
  assumes "stop_inv s" and "sys_step c l s = Some s'"
  shows "unqueued st s' \<subseteq> unqueued st s"
proof -
  have "tokens i (sys_pool s) \<le> tokens i (sys_pool s')" for i
    using sys_step_simulates [OF assms] pool_step_tokens by force
  then show ?thesis by (auto simp: unqueued_def) (metis le_zero_eq)
qed

abbreviation queue_work :: "conf \<Rightarrow> system \<Rightarrow> nat" where
  "queue_work c s \<equiv> sum_mset (image_mset (task_cost (conf_retries c)) (queued_tasks s))"

lemma work_left_phase:
  assumes n: "n < length (sys_workers s)"
    and w: "sys_workers s' = (sys_workers s)[n := (sys_workers s ! n)\<lparr>wk_phase := p\<rparr>]"
    and less: "(1 + build_cost (conf_retries c)) * card (unqueued st s') + queue_work c s' + phase_cost (conf_retries c) p <
      (1 + build_cost (conf_retries c)) * card (unqueued st s) + queue_work c s +
        phase_cost (conf_retries c) (wk_phase (sys_workers s ! n))"
  shows "work_left c st s' < work_left c st s"
  using less n by (simp add: work_left_def w sum_update sum_split [of n "sys_workers s"])

lemma work_left_simple:
  assumes n: "n < length (sys_workers s)" and sub: "unqueued st s' \<subseteq> unqueued st s"
    and w: "sys_workers s' = (sys_workers s)[n := (sys_workers s ! n)\<lparr>wk_phase := p\<rparr>]"
    and less: "queue_work c s' + phase_cost (conf_retries c) p <
      queue_work c s + phase_cost (conf_retries c) (wk_phase (sys_workers s ! n))"
  shows "work_left c st s' < work_left c st s"
proof (rule work_left_phase [OF n w])
  have "card (unqueued st s') \<le> card (unqueued st s)" using sub by (intro card_mono) simp_all
  then have "(1 + build_cost (conf_retries c)) * card (unqueued st s') \<le>
      (1 + build_cost (conf_retries c)) * card (unqueued st s)" by (rule mult_le_mono2)
  with less show "(1 + build_cost (conf_retries c)) * card (unqueued st s') + queue_work c s' + phase_cost (conf_retries c) p <
      (1 + build_cost (conf_retries c)) * card (unqueued st s) + queue_work c s +
        phase_cost (conf_retries c) (wk_phase (sys_workers s ! n))" by linarith
qed

text \<open>The attempts: a run leaves less to do than it found.\<close>

lemma attempt_cost_run:
  assumes run: "task_run c env t ts = (r, ts', t', puts)" and k: "k < conf_retries c + 1"
  shows "sum_list (map (task_cost (conf_retries c)) puts) +
      phase_cost (conf_retries c) (if r = Inr () \<and> t_success t' then Ending t' else Attempting (task_reset t') (k + 1)) <
    attempt_cost (conf_retries c) t k"
proof (cases t)
  case (BuildTask i b)
  with run have "puts = []" "\<exists>b. t' = BuildTask i b" by (auto split: prod.splits sum.splits)
  with BuildTask k show ?thesis by (auto simp: attempt_cost_def task_reset_def)
next
  case (PushTask i b)
  with run have "puts = []" "\<exists>b. t' = PushTask i b" by (auto split: prod.splits sum.splits)
  with PushTask k show ?thesis by (auto simp: attempt_cost_def task_reset_def)
next
  case (PushIntoQueueTask i b)
  with run k show ?thesis by (auto simp: attempt_cost_def)
qed

text \<open>The followups of a build are paid for by the images they queue.\<close>

lemma followups_cost:
  assumes forest: "forest_links st" and inv: "pool_inv c st (sys_pool s)"
    and n: "n < length (sys_workers s)" and p: "wk_phase (sys_workers s ! n) = Ending (BuildTask i True)"
    and w: "s' = set_phase n (Queueing (task_followups c (ts_images (sys_ts s)) (BuildTask i True))) s"
  shows "(1 + build_cost (conf_retries c)) * card (unqueued st s') +
      phase_cost (conf_retries c) (Queueing (task_followups c (ts_images (sys_ts s)) (BuildTask i True))) <
    (1 + build_cost (conf_retries c)) * card (unqueued st s) + ending_cost (conf_retries c) (BuildTask i True)"
proof -
  let ?C = "filter (child_queued (ts_images (sys_ts s))) (children_at (ts_images (sys_ts s)) i)"
  let ?R = "rest_sum (\<lambda>w. phase_running (wk_phase w)) n (sys_workers s)"
  have r: "pl_running (sys_pool s) = add_mset (BuildTask i True, Ended) ?R"
    by (simp add: sys_pool_split [OF n] p)
  then have act: "0 < active i (sys_pool s)" by (simp add: active_def)
  have ist: "i \<in> set (pl_started (sys_pool s))" using active_started(1) [OF inv act] .
  have lt: "i < length st" using inv_started_lt(1) [OF inv ist] .
  have ch: "children_at (ts_images (sys_ts s)) i = children_at st i"
    using same_shape_fields(4) [OF pool_invD(1) [OF inv] lt] by (simp add: sys_pool_def)
  have C: "distinct ?C" "set ?C \<subseteq> unqueued st s"
    using forest_linksD(3,5) [OF forest lt] child_not_queued [OF inv forest act]
    by (auto simp: ch unqueued_def)
  have "sys_pool s' = (sys_pool s)\<lparr>pl_waiting := mset (task_followups c (ts_images (sys_ts s)) (BuildTask i True)) + pl_waiting (sys_pool s),
      pl_running := ?R\<rparr>"
    using n by (subst sys_pool_phase [OF n, of s' "Queueing (task_followups c (ts_images (sys_ts s)) (BuildTask i True))"])
      (simp_all add: w sys_pool_split [OF n] p ac_simps)
  then have tok: "tokens j (sys_pool s') = build_count j (mset (task_followups c (ts_images (sys_ts s)) (BuildTask i True))) + tokens j (sys_pool s)" for j
    by (simp add: tokens_def)
  have cnt: "build_count j (mset (task_followups c (ts_images (sys_ts s)) (BuildTask i True))) = (if j \<in> set ?C then 1 else 0)" for j
    using build_count_followups [of "ts_images (sys_ts s)" i j c] forest_linksD(5) [OF forest lt] by (simp add: ch)
  have "unqueued st s' = unqueued st s - set ?C"
    by (auto simp: unqueued_def tok cnt simp del: task_followups.simps split: if_splits)
  then have "card (unqueued st s') + length ?C = card (unqueued st s)"
    using C card_Diff_subset [of "set ?C" "unqueued st s"] card_mono [OF _ C(2)] distinct_card [OF C(1)] by simp
  then have A: "(1 + build_cost (conf_retries c)) * card (unqueued st s) =
      (1 + build_cost (conf_retries c)) * card (unqueued st s') + (1 + build_cost (conf_retries c)) * length ?C"
    by (metis add_mult_distrib2)
  have "sum_list (map (\<lambda>t. 1 + task_cost (conf_retries c) t) (map (\<lambda>ch. BuildTask ch False) xs)) =
      (1 + build_cost (conf_retries c)) * length xs" for xs
    by (induction xs) (simp_all add: algebra_simps)
  then have "phase_cost (conf_retries c) (Queueing (task_followups c (ts_images (sys_ts s)) (BuildTask i True))) \<le>
      3 + (1 + into_cost (conf_retries c)) + (1 + build_cost (conf_retries c)) * length ?C"
    by (cases "children_at (ts_images (sys_ts s)) i = []") (auto simp del: build_cost.simps into_cost.simps)
  with A show ?thesis by (simp del: build_cost.simps into_cost.simps task_followups.simps)
qed

lemma work_left_worker:
  assumes forest: "forest_links st" and inv: "pool_inv c st (sys_pool s)" and stop: "stop_inv s"
    and n: "n < length (sys_workers s)" and step: "worker_step c env n s = Some s'"
  shows "work_left c st s' < work_left c st s"
proof -
  let ?w = "sys_workers s ! n"
  have sub: "unqueued st s' \<subseteq> unqueued st s"
    using unqueued_step [OF stop, of c "Worker n env" s'] step n by simp
  note simple = work_left_simple [OF n sub]
  show ?thesis
  proof (cases "wk_phase ?w")
    case Polling
    then have s': "s' = set_phase n (if wk_stop ?w then Stopped else Getting) s"
      using step by (simp add: worker_step_def Let_def)
    show ?thesis by (rule simple [of "if wk_stop ?w then Stopped else Getting"]) (simp_all add: s' Polling)
  next
    case Getting
    show ?thesis
    proof (cases "q_get (queue_of (wk_queue ?w) s)")
      case None
      with step Getting show ?thesis by (simp add: worker_step_def Let_def)
    next
      case (Some jq)
      then obtain j q where get: "q_get (queue_of (wk_queue ?w) s) = Some (j, q)" by (cases jq) simp
      show ?thesis
      proof (cases j)
        case Tombstone
        have s': "s' = put_job (wk_queue ?w) Tombstone (set_queue (wk_queue ?w) q (set_phase n Stopped s))"
          using step Getting get Tombstone by (simp add: worker_step_def Let_def)
        have "queued_tasks s' = queued_tasks s"
          using queued_get(2) [of "wk_queue ?w" "set_phase n Stopped s" q] get Tombstone
          by (simp add: s' queued_put_tombstone)
        then show ?thesis by (intro simple [of Stopped]) (simp_all add: s' Getting)
      next
        case (Job t)
        let ?s1 = "set_phase n (Attempting t 0) (s\<lparr>sys_started := sys_started s @ started_by t\<rparr>)"
        have s': "s' = set_queue (wk_queue ?w) q ?s1"
          using step Getting get Job by (simp add: worker_step_def Let_def)
        have "queued_tasks s = add_mset t (queued_tasks s')"
          using queued_get(1) [of "wk_queue ?w" ?s1 t q] get Job by (simp add: s')
        then show ?thesis by (intro simple [of "Attempting t 0"]) (simp_all add: s' Getting task_cost_def)
      qed
    qed
  next
    case (Attempting t k)
    show ?thesis
    proof (cases "k \<ge> conf_retries c + 1 \<or> wk_stop ?w")
      case True
      then have s': "s' = set_phase n (Ending t) s" using step Attempting by (simp add: worker_step_def Let_def)
      show ?thesis by (rule simple [of "Ending t"]) (simp_all add: s' Attempting attempt_cost_def)
    next
      case False
      obtain r1 ts' t' puts where run: "task_run c env t (sys_ts s) = (r1, ts', t', puts)"
        by (cases "task_run c env t (sys_ts s)")
      let ?p = "if r1 = Inr () \<and> t_success t' then Ending t' else Attempting (task_reset t') (k + 1)"
      have s': "s' = fold (\<lambda>u. put_job PushQ (Job u)) puts (set_phase n ?p (s\<lparr>sys_ts := ts'\<rparr>))"
        using step Attempting False run by (simp add: worker_step_def Let_def)
      have "queue_work c s' = sum_list (map (task_cost (conf_retries c)) puts) + queue_work c s"
        by (simp add: s' queued_puts sum_mset_sum_list [symmetric])
      then show ?thesis
        using attempt_cost_run [OF run, of k] False
        by (intro simple [of ?p]) (simp_all add: s' Attempting)
    qed
  next
    case (Ending t)
    let ?fs = "if t_success t \<and> \<not> wk_stop ?w then task_followups c (ts_images (sys_ts s)) t else []"
    have s': "s' = set_phase n (Queueing ?fs) s" using step Ending by (simp add: worker_step_def Let_def)
    show ?thesis
    proof (cases "?fs = []")
      case True
      have "3 < ending_cost r t" for r by (cases t) simp_all
      with True show ?thesis by (intro simple [of "Queueing ?fs"]) (simp_all add: s' Ending)
    next
      case False
      then have ok: "t_success t" "\<not> wk_stop ?w" by (auto split: if_splits)
      with False obtain i where t: "t = BuildTask i True" by (cases t) auto
      have s'': "s' = set_phase n (Queueing (task_followups c (ts_images (sys_ts s)) (BuildTask i True))) s"
        using s' ok t by simp
      have "wk_phase ?w = Ending (BuildTask i True)" using Ending t by simp
      note cost = followups_cost [OF forest inv n this s'']
      show ?thesis
      proof (rule work_left_phase [OF n])
        show "sys_workers s' = (sys_workers s)[n := ?w\<lparr>wk_phase := Queueing (task_followups c (ts_images (sys_ts s)) (BuildTask i True))\<rparr>]"
          by (simp add: s'')
        have "queue_work c s' = queue_work c s" by (simp add: s'')
        then show "(1 + build_cost (conf_retries c)) * card (unqueued st s') + queue_work c s' +
            phase_cost (conf_retries c) (Queueing (task_followups c (ts_images (sys_ts s)) (BuildTask i True))) <
          (1 + build_cost (conf_retries c)) * card (unqueued st s) + queue_work c s +
            phase_cost (conf_retries c) (wk_phase ?w)"
          using cost by (simp only: Ending t phase_cost.simps)
      qed
    qed
  next
    case (Queueing us)
    show ?thesis
    proof (cases us)
      case (Cons t ts)
      have s': "s' = put_job (wk_queue ?w) (Job t) (set_phase n (Queueing ts) s)"
        using step Queueing Cons by (simp add: worker_step_def Let_def)
      show ?thesis by (rule simple [of "Queueing ts"]) (simp_all add: s' Queueing Cons queued_put)
    next
      case Nil
      show ?thesis
      proof (cases "q_task_done (queue_of (wk_queue ?w) s)")
        case (Inl e)
        then have s': "s' = set_phase n Stopped s" using step Queueing Nil by (simp add: worker_step_def Let_def)
        show ?thesis by (rule simple [of Stopped]) (simp_all add: s' Queueing Nil)
      next
        case (Inr q)
        then have s': "s' = set_queue (wk_queue ?w) q (set_phase n Polling s)"
          using step Queueing Nil by (simp add: worker_step_def Let_def)
        have "queued_tasks s' = queued_tasks s"
          using Inr queued_done [of q "wk_queue ?w" "set_phase n Polling s"]
          by (auto simp: s' q_task_done_def split: if_splits)
        then show ?thesis by (intro simple [of Polling]) (simp_all add: s' Queueing Nil)
      qed
    qed
  next
    case Stopped
    with step show ?thesis by (simp add: worker_step_def Let_def)
  qed
qed

section \<open>The bound\<close>

fun is_worker :: "label \<Rightarrow> bool" where
  "is_worker (Worker n env) = True"
| "is_worker _ = False"

lemma work_left_other:
  assumes "sys_step c l s = Some s'" and "\<not> is_worker l"
  shows "work_left c st s' = work_left c st s"
proof -
  have upd: "map (\<lambda>w. f (wk_phase w)) (ws[k := (ws ! k)\<lparr>wk_stop := True\<rparr>]) = map (\<lambda>w. f (wk_phase w)) ws"
    for f :: "phase \<Rightarrow> nat" and ws :: "worker list" and k
    by (rule list_update_same_field) simp
  have pool: "pl_waiting (sys_pool s') = pl_waiting (sys_pool s)" "pl_started (sys_pool s') = pl_started (sys_pool s)"
  proof -
    have "sys_pool s' = sys_pool s \<or> sys_pool s' = (sys_pool s)\<lparr>pl_stop := True\<rparr>"
    proof (cases l)
      case Main
      then show ?thesis using assms(1) sys_pool_main by simp
    next
      case Interrupt
      then show ?thesis using assms(1) by (auto simp: interrupt_step_def sys_pool_def split: main_phase.splits if_splits)
    qed (use assms in auto)
    then show "pl_waiting (sys_pool s') = pl_waiting (sys_pool s)" "pl_started (sys_pool s') = pl_started (sys_pool s)"
      by auto
  qed
  have "unqueued st s' = unqueued st s" by (simp add: unqueued_def tokens_def pool)
  moreover have "queued_tasks s' = queued_tasks s \<and>
      map (\<lambda>w. phase_cost (conf_retries c) (wk_phase w)) (sys_workers s') =
      map (\<lambda>w. phase_cost (conf_retries c) (wk_phase w)) (sys_workers s)"
    using assms
    by (cases l) (auto simp: main_step_def interrupt_step_def queued_put_tombstone upd split: main_phase.splits if_splits)
  ultimately show ?thesis by (simp add: work_left_def)
qed

lemma builds_cost:
  "sum_mset (image_mset (task_cost r) (mset (map (\<lambda>i. BuildTask i False) xs))) = build_cost r * length xs"
  by (induction xs) simp_all

lemma work_left_init:
  "work_left c st (sys_init c st) \<le>
     (1 + build_cost (conf_retries c)) * length st + 2 * (conf_threads c + conf_push_threads c)"
proof -
  let ?a = "1 + build_cost (conf_retries c)" and ?R = "root_images st"
  have tok: "tokens i (pool_init st) = (if i \<in> set ?R then 1 else 0)" for i
    using build_count_map [of ?R i False] by (simp add: tokens_def pool_init_def root_images_def)
  have un: "unqueued st (sys_init c st) = {0..<length st} - set ?R"
    by (auto simp: unqueued_def sys_pool_init tok)
  have sub: "set ?R \<subseteq> {0..<length st}" and d: "distinct ?R" by (auto simp: root_images_def)
  have card: "card (unqueued st (sys_init c st)) + length ?R = length st"
    using card_Diff_subset [OF _ sub] card_mono [OF _ sub] distinct_card [OF d] by (simp add: un)
  have "pl_waiting (sys_pool (sys_init c st)) = mset (map (\<lambda>i. BuildTask i False) ?R)"
    by (simp add: sys_pool_init pool_init_def)
  moreover have "sum_list (map (\<lambda>w. phase_waiting (wk_phase w)) (sys_workers (sys_init c st))) = {#}"
    by (simp add: sys_init_def new_worker_def sum_list_replicate_empty)
  ultimately have "queued_tasks (sys_init c st) = mset (map (\<lambda>i. BuildTask i False) ?R)"
    by (simp add: sys_pool_def)
  then have "queue_work c (sys_init c st) = build_cost (conf_retries c) * length ?R"
    using builds_cost [of "conf_retries c" ?R] by (simp del: build_cost.simps)
  moreover have "sum_list (map (\<lambda>w. phase_cost (conf_retries c) (wk_phase w)) (sys_workers (sys_init c st))) =
      2 * (conf_threads c + conf_push_threads c)"
    by (simp add: sys_init_def new_worker_def sum_list_replicate)
  moreover have "?a * length st = ?a * card (unqueued st (sys_init c st)) + ?a * length ?R"
    by (metis card add_mult_distrib2)
  ultimately show ?thesis unfolding work_left_def by (simp add: algebra_simps)
qed

lemma run_work:
  assumes "sys_run c st ls s" and "forest_links st"
  shows "length (filter is_worker ls) + work_left c st s \<le> work_left c st (sys_init c st)"
  using assms
proof (induction rule: sys_run.induct)
  case (sys_run_step ls s l s')
  have inv: "pool_inv c st (sys_pool s)" "stop_inv s"
    using sys_run_inv sys_run_refines sys_run_step by blast+
  show ?case
  proof (cases "is_worker l")
    case True
    then obtain n env where "l = Worker n env" by (cases l) auto
    then have "work_left c st s' < work_left c st s"
      using sys_run_step.hyps(2) work_left_worker [OF sys_run_step.prems inv] by (auto split: if_splits)
    with True sys_run_step show ?thesis by simp
  next
    case False
    with work_left_other [OF sys_run_step.hyps(2)] sys_run_step show ?thesis by simp
  qed
qed simp

end
