(* ===== verification/Worker_Properties.thy ===== *)
theory Worker_Properties
  imports Worker_Progress Image_Filter Sample_Data
begin

text \<open>
  The properties of the worker threads, for every interleaving of their steps, with a run to the
  end as the example they are applied to.
\<close>

section \<open>A run to the end\<close>

text \<open>The first step that is possible, the workers before the main program.\<close>

fun first_step :: "conf \<Rightarrow> label list \<Rightarrow> system \<Rightarrow> (label \<times> system) option" where
  "first_step c [] s = None"
| "first_step c (l # ls) s =
     (case sys_step c l s of Some s' \<Rightarrow> Some (l, s') | None \<Rightarrow> first_step c ls s)"

fun run_on :: "conf \<Rightarrow> env \<Rightarrow> nat \<Rightarrow> label list \<Rightarrow> system \<Rightarrow> label list \<times> system" where
  "run_on c env 0 ls s = (ls, s)"
| "run_on c env (Suc k) ls s =
     (case first_step c (map (\<lambda>n. Worker n env) [0..<length (sys_workers s)] @ [Main]) s of
        None \<Rightarrow> (ls, s)
      | Some (l, s') \<Rightarrow> run_on c env k (ls @ [l]) s')"

lemma first_step_Some: "first_step c ls s = Some (l, s') \<Longrightarrow> sys_step c l s = Some s'"
  by (induction ls) (auto split: option.splits)

lemma run_on_run: "sys_run c st ls s \<Longrightarrow> run_on c env k ls s = (ls', s') \<Longrightarrow> sys_run c st ls' s'"
proof (induction k arbitrary: ls s)
  case (Suc k)
  then show ?case
    by (auto split: option.splits prod.splits dest!: first_step_Some intro: sys_run_step)
qed simp

definition sample_store :: store where
  "sample_store =
     [(new_image ''base'' ''k/base'' ''/w/base'' ''debian'')\<lparr>img_status := MATCHED, img_children := [1]\<rparr>,
      (new_image ''nova'' ''k/nova'' ''/w/nova'' ''k/base'')\<lparr>img_status := MATCHED, img_parent := Some 0\<rparr>]"

definition sample_end :: "label list \<times> system" where
  "sample_end = run_on sample_conf sample_env 200 [] (sys_init sample_conf sample_store)"

lemma sample_run: "sys_run sample_conf sample_store (fst sample_end) (snd sample_end)"
  by (rule run_on_run [OF sys_run_init, where k = 200 and env = sample_env]) (simp add: sample_end_def)

lemma sample_end_state:
  "sys_main (snd sample_end) = MainDone" "sys_started (snd sample_end) = [0, 1]"
  "map img_status (ts_images (sys_ts (snd sample_end))) = [BUILT, BUILT]"
  "sys_interrupted (snd sample_end) = False"
  by code_simp+

lemma sample_store_fields:
  "map img_parent sample_store = [None, Some 0]" "map img_children sample_store = [[1], []]"
  "map img_status sample_store = [MATCHED, MATCHED]" "length sample_store = 2"
  by (simp_all add: sample_store_def new_image_def)

lemma less_two: "(i::nat) < 2 \<Longrightarrow> i = 0 \<or> i = 1"
  by linarith

lemma sample_store_at:
  "parent_at sample_store 0 = None" "parent_at sample_store (Suc 0) = Some 0"
  "children_at sample_store 0 = [1]" "children_at sample_store (Suc 0) = []"
  "status_at sample_store 0 = MATCHED" "status_at sample_store (Suc 0) = MATCHED"
  by (simp_all add: sample_store_def new_image_def)

lemma sample_store_forest: "forest_links sample_store"
  unfolding forest_links_def sample_store_fields(4)
  by (auto dest!: less_two simp: sample_store_at)

lemma sample_store_ranked: "ranked sample_store (\<lambda>i. i)"
  unfolding ranked_def sample_store_fields(4)
  by (auto dest!: less_two simp: sample_store_at)

lemma sample_store_parents: "parents_queued sample_store"
  unfolding parents_queued_def sample_store_fields(4)
  by (auto dest!: less_two simp: sample_store_at child_queued_def)

section \<open>Safety\<close>

text \<open>
  C9: In every run of the threads, with any number of workers, retries and interrupts, the build
  task of an image is taken from a queue at most once; it is the task of an image that is to be
  built, and its parent, unless there is none or it is skipped, was started before and the engine
  was called for it.
\<close>

theorem images_start_once_after_parent:
  assumes "sys_run c st ls s" and "forest_links st"
  shows "distinct (sys_started s) \<and>
    (\<forall>i \<in> set (sys_started s). i < length st \<and> child_queued st i \<and>
       (\<forall>p. parent_at st i = Some p \<longrightarrow> status_at st p = SKIPPED \<or>
          p \<in> set (sys_started s) \<and> engine_called c (st ! p) (sys_ts s)))"
proof -
  note inv = sys_run_inv [OF assms]
  show ?thesis
    using pool_started_once [OF inv] pool_parent_first [OF inv] by (simp add: sys_pool_def)
qed

theorem images_start_once_after_parent_witness:
  "engine_called sample_conf (sample_store ! 0) (sys_ts (snd sample_end))"
  using images_start_once_after_parent [OF sample_run sample_store_forest]
  by (auto simp: sample_end_state sample_store_at)

text \<open>
  In every run the images keep all but their statuses, an image that was not started keeps its
  status, and a started one has its old status or one that a run of a task writes.
\<close>

theorem statuses_change_by_runs_only:
  assumes "sys_run c st ls s" and "forest_links st" and "i < length st"
  shows "same_shape st (ts_images (sys_ts s)) \<and>
    (status_at (ts_images (sys_ts s)) i = status_at st i \<or>
     i \<in> set (sys_started s) \<and> run_status (status_at (ts_images (sys_ts s)) i))"
proof -
  note inv = sys_run_inv [OF assms(1,2)]
  show ?thesis using pool_invD(1) [OF inv] pool_invD(3) [OF inv assms(3)] by (simp add: sys_pool_def status_ok_def)
qed

theorem statuses_change_by_runs_only_witness:
  "same_shape sample_store (ts_images (sys_ts (snd sample_end)))"
  using statuses_change_by_runs_only [OF sample_run sample_store_forest, of 0] by (simp add: sample_store_fields)

text \<open>
  C21: Forgetting queues, threads and the main program, every run of the threads is a run of the
  machine that keeps the waiting and the running tasks in multisets and takes them in any order.
\<close>

theorem threads_refine_pool:
  assumes "sys_run c st ls s"
  shows "pool_reachable c st (sys_pool s)"
  using sys_run_refines [OF assms] ..

theorem threads_refine_pool_witness:
  "pool_reachable sample_conf sample_store (sys_pool (snd sample_end))"
  by (rule threads_refine_pool [OF sample_run])

text \<open>
  \<open>task\_done\<close> is never called more often than \<open>put\<close>: a worker that is about to call it
  finds the counter of its queue positive.
\<close>

theorem task_done_never_raises:
  assumes "sys_run c st ls s" and "n < length (sys_workers s)"
    and "wk_phase (sys_workers s ! n) = Queueing us"
  shows "\<exists>q. q_task_done (queue_of (wk_queue (sys_workers s ! n)) s) = Inr q"
  using task_done_ok [OF _ assms(2) refl] run_inv [OF assms(1)] assms(3)
  by (auto simp: run_inv_def)

definition sample_middle :: "label list \<times> system" where
  "sample_middle = run_on sample_conf sample_env 5 [] (sys_init sample_conf sample_store)"

lemma sample_middle_run: "sys_run sample_conf sample_store (fst sample_middle) (snd sample_middle)"
  by (rule run_on_run [OF sys_run_init, where k = 5 and env = sample_env]) (simp add: sample_middle_def)

lemma sample_middle_state:
  "length (sys_workers (snd sample_middle)) = 3"
  "case wk_phase (sys_workers (snd sample_middle) ! 0) of Queueing us \<Rightarrow> True | _ \<Rightarrow> False"
  "sys_main (snd sample_middle) = MainPolling" "q_unfinished (sys_build (snd sample_middle)) = 2"
  by code_simp+

theorem task_done_never_raises_witness:
  "\<exists>q. q_task_done (queue_of (wk_queue (sys_workers (snd sample_middle) ! 0)) (snd sample_middle)) = Inr q"
proof -
  obtain us where "wk_phase (sys_workers (snd sample_middle) ! 0) = Queueing us"
    using sample_middle_state(2) by (auto split: phase.splits)
  then show ?thesis by (intro task_done_never_raises [OF sample_middle_run]) (simp_all add: sample_middle_state)
qed

section \<open>Ending\<close>

lemma run_idle:
  assumes "sys_run c st ls s" and "\<not> sys_interrupted s"
    and "sys_main s \<in> {MainPushTomb, MainBuildTomb, MainJoining, MainDone}"
  shows "idle q s"
proof -
  have "exit_ok s" using run_inv [OF assms(1)] by (simp add: run_inv_def)
  then have "idle BuildQ s \<and> idle PushQ s" using assms(2,3) unfolding exit_ok_def by blast
  then show ?thesis by (cases q) simp_all
qed

lemma idle_not_busy:
  assumes "\<And>q. idle q s" and "w \<in> set (sys_workers s)"
  shows "\<not> busy (wk_phase w)"
proof -
  obtain n where n: "n < length (sys_workers s)" "w = sys_workers s ! n"
    using assms(2) by (metis in_set_conv_nth)
  have "busy_count (wk_queue w) s = 0" using assms(1) [of "wk_queue w"] by (simp add: idle_def)
  then show ?thesis using busy_count_zero [OF _ n(1)] n(2) by simp
qed

text \<open>
  C29: Once the main program, not interrupted, has left its wait for the two counters, no task
  waits in a queue and no worker has a task.
\<close>

theorem main_leaves_nothing_behind:
  assumes "sys_run c st ls s" and "\<not> sys_interrupted s"
    and "sys_main s \<in> {MainPushTomb, MainBuildTomb, MainJoining, MainDone}"
  shows "queued_tasks s = {#} \<and> (\<forall>w \<in> set (sys_workers s). \<not> busy (wk_phase w))"
proof -
  note idle = run_idle [OF assms]
  have "\<not> busy (wk_phase w)" if "w \<in> set (sys_workers s)" for w
    using idle_not_busy [OF idle that] .
  then show ?thesis using idle [of BuildQ] idle [of PushQ] by (simp add: idle_def job_count_def queued_tasks_def)
qed

theorem main_leaves_nothing_behind_witness: "queued_tasks (snd sample_end) = {#}"
  using main_leaves_nothing_behind [OF sample_run] by (simp add: sample_end_state)

lemma idle_pool:
  assumes "sys_run c st ls s" and "\<not> sys_interrupted s"
    and "sys_main s \<in> {MainPushTomb, MainBuildTomb, MainJoining, MainDone}"
  shows "pl_waiting (sys_pool s) = {#} \<and> pl_running (sys_pool s) = {#}"
proof -
  note idle = run_idle [OF assms]
  note nb = idle_not_busy [OF idle]
  have zero: "sum_list (map f ws) = {#}" if "\<forall>w \<in> set ws. f w = {#}" for f :: "worker \<Rightarrow> 'z multiset" and ws
    using that by (induction ws) auto
  have "phase_waiting p = {#}" "phase_running p = {#}" if "\<not> busy p" for p
    using that by (cases p; simp)+
  then show ?thesis
    using zero [of "sys_workers s" "\<lambda>w. phase_waiting (wk_phase w)"]
      zero [of "sys_workers s" "\<lambda>w. phase_running (wk_phase w)"] nb idle [of BuildQ] idle [of PushQ]
    by (simp add: sys_pool_def idle_def job_count_def queued_tasks_def)
qed

lemma build_is_complete:
  assumes "sys_run c st ls s" and "forest_links st" and "ranked st depth" and "parents_queued st"
    and "\<not> sys_interrupted s" and "sys_main s \<in> {MainPushTomb, MainBuildTomb, MainJoining, MainDone}"
    and "i < length st" and "child_queued st i"
  shows "i \<in> set (sys_started s) \<or>
    (\<exists>a \<in> set (sys_started s). a \<noteq> i \<and> ancestor st i a \<and> status_at (ts_images (sys_ts s)) a \<noteq> BUILT)"
  using pool_complete [OF sys_run_inv [OF assms(1,2)] assms(2-4), of i] idle_pool [OF assms(1,5,6)] assms(5,7,8)
  by (simp add: sys_pool_def)

text \<open>
  C10: When the main program, not interrupted, has left its wait, every image that was to be built
  has been started, or one of its ancestors was started and did not end as built.
\<close>

theorem no_image_is_forgotten:
  assumes "sys_run c st ls s" and "forest_links st" and "ranked st depth" and "parents_queued st"
    and "\<not> sys_interrupted s" and "sys_main s \<in> {MainPushTomb, MainBuildTomb, MainJoining, MainDone}"
    and "i < length st" and "child_queued st i"
  shows "i \<in> set (sys_started s) \<or>
    (\<exists>a \<in> set (sys_started s). a \<noteq> i \<and> ancestor st i a \<and> status_at (ts_images (sys_ts s)) a \<noteq> BUILT)"
  using assms by (rule build_is_complete)

theorem no_image_is_forgotten_witness:
  "1 \<in> set (sys_started (snd sample_end)) \<or>
    (\<exists>a \<in> set (sys_started (snd sample_end)). a \<noteq> 1 \<and> ancestor sample_store 1 a \<and>
       status_at (ts_images (sys_ts (snd sample_end))) a \<noteq> BUILT)"
  by (rule no_image_is_forgotten [OF sample_run sample_store_forest sample_store_ranked sample_store_parents])
    (simp_all add: sample_end_state sample_store_fields sample_store_at child_queued_def)

text \<open>
  C16: The workers of a run take at most (3 r + 20) n + 2 w steps together, for r retries, n images
  and w workers, whatever the interleaving, the results of the tasks and the interrupt.
\<close>

theorem worker_steps_bounded:
  assumes "sys_run c st ls s" and "forest_links st"
  shows "length (filter is_worker ls) \<le>
    (3 * conf_retries c + 20) * length st + 2 * (conf_threads c + conf_push_threads c)"
proof -
  have eq: "3 * conf_retries c + 20 = 1 + build_cost (conf_retries c)" by simp
  show ?thesis unfolding eq by (rule order_trans [OF add_leD1 [OF run_work [OF assms]] work_left_init])
qed

theorem worker_steps_bounded_witness: "length (filter is_worker (fst sample_end)) \<le> 52"
  using worker_steps_bounded [OF sample_run sample_store_forest]
  by (simp add: sample_store_fields sample_conf_def)

text \<open>
  With at least one worker for each queue the threads never block one another: while the main
  program waits for a counter that is not zero, or joins threads that have not ended, some worker
  can take a step.
\<close>

theorem threads_never_deadlock:
  assumes "sys_run c st ls s" and "0 < conf_threads c" and "0 < conf_push_threads c"
    and "sys_main s \<in> {MainPolling, MainBuildEmpty} \<and>
        (q_unfinished (sys_build s) \<noteq> 0 \<or> q_unfinished (sys_push s) \<noteq> 0) \<or>
      sys_main s = MainJoining \<and> \<not> all_stopped s"
  shows "\<exists>n env s'. sys_step c (Worker n env) s = Some s'"
  by (rule progress [OF run_inv [OF assms(1)] assms(2,3)]) (use assms(4) in auto)

theorem threads_never_deadlock_witness:
  "\<exists>n env s'. sys_step sample_conf (Worker n env) (snd sample_middle) = Some s'"
  by (rule threads_never_deadlock [OF sample_middle_run])
    (simp_all add: sample_middle_state sample_conf_def)

end
