(* ===== verification/Py_Glob.thy ===== *)
theory Py_Glob
  imports File_System
begin

text \<open>
  \<open>glob.glob\<close> and \<open>fnmatch\<close> for the wildcards of paths, \<open>os.walk\<close> and \<open>os.path.relpath\<close>. Names
  come in the order of the directory.
\<close>

section \<open>fnmatch\<close>

text \<open>The end of a bracket expression: the characters up to the closing bracket, the first one being free.\<close>

fun take_bracket :: "string \<Rightarrow> (string \<times> string) option" where
  "take_bracket [] = None"
| "take_bracket (c # cs) =
     (if c = CHR '']'' then Some ([], cs)
      else (case take_bracket cs of None \<Rightarrow> None | Some (s, r) \<Rightarrow> Some (c # s, r)))"

definition bracket :: "string \<Rightarrow> (bool \<times> string \<times> string) option" where
  "bracket p =
     (let (neg, p1) = (case p of c # cs \<Rightarrow> if c = CHR ''!'' then (True, cs) else (False, p) | [] \<Rightarrow> (False, p))
      in case p1 of
           [] \<Rightarrow> None
         | c # cs \<Rightarrow>
             if c = CHR '']''
             then (case take_bracket cs of Some (s, r) \<Rightarrow> Some (neg, c # s, r) | None \<Rightarrow> None)
             else (case take_bracket (c # cs) of Some (s, r) \<Rightarrow> Some (neg, s, r) | None \<Rightarrow> None))"

fun in_bracket :: "string \<Rightarrow> char \<Rightarrow> bool" where
  "in_bracket [] x = False"
| "in_bracket (a # d # b # cs) x =
     (if d = CHR ''-'' then (of_char a :: nat) \<le> of_char x \<and> (of_char x :: nat) \<le> of_char b \<or> in_bracket cs x
      else a = x \<or> in_bracket (d # b # cs) x)"
| "in_bracket (a # cs) x = (a = x \<or> in_bracket cs x)"

lemma take_bracket_shorter: "take_bracket p = Some (s, r) \<Longrightarrow> length r < length p"
  by (induction p arbitrary: s r) (auto split: if_splits option.splits)

lemma bracket_shorter: "bracket p = Some (neg, s, r) \<Longrightarrow> length r < length p"
  by (cases p)
    (auto simp: bracket_def Let_def split: if_splits option.splits list.splits
      dest!: take_bracket_shorter)

function fnmatch :: "string \<Rightarrow> string \<Rightarrow> bool" where
  "fnmatch [] s = (s = [])"
| "fnmatch (c # p) s =
     (if c = CHR ''*'' then fnmatch p s \<or> (if s = [] then False else fnmatch (c # p) (tl s))
      else if c = CHR ''?'' then s \<noteq> [] \<and> fnmatch p (tl s)
      else (case (if c = CHR ''['' then bracket p else None) of
              Some (neg, cs, r) \<Rightarrow> s \<noteq> [] \<and> in_bracket cs (hd s) \<noteq> neg \<and> fnmatch r (tl s)
            | None \<Rightarrow> s \<noteq> [] \<and> hd s = c \<and> fnmatch p (tl s)))"
  by pat_completeness auto
termination
  by (relation "measure (\<lambda>(p, s). length p + length s)")
    (auto dest!: bracket_shorter split: if_splits simp: length_greater_0_conv [symmetric] simp del: length_greater_0_conv)

definition has_magic :: "string \<Rightarrow> bool" where
  "has_magic p \<longleftrightarrow> CHR ''*'' \<in> set p \<or> CHR ''?'' \<in> set p \<or> CHR ''['' \<in> set p"

definition is_hidden :: "string \<Rightarrow> bool" where
  "is_hidden s \<longleftrightarrow> py_startswith s ''.''"

section \<open>glob\<close>

text \<open>\<open>\_listdir\<close>: the names of a directory, nothing for what is not one; with \<open>dironly\<close> the directories.\<close>

definition glob_listdir :: "host \<Rightarrow> 'c node \<Rightarrow> string \<Rightarrow> bool \<Rightarrow> string list" where
  "glob_listdir h root d dironly =
     (case os_stat h root (if d = [] then ''.'' else d) of
        Some (Dir m es) \<Rightarrow>
          filter (\<lambda>n. dironly \<longrightarrow> os_isdir h root (path_join d n)) (map fst es)
      | _ \<Rightarrow> [])"

definition glob1 :: "host \<Rightarrow> 'c node \<Rightarrow> string \<Rightarrow> string \<Rightarrow> bool \<Rightarrow> string list" where
  "glob1 h root d pattern dironly =
     filter (fnmatch pattern)
       (filter (\<lambda>n. is_hidden pattern \<or> \<not> is_hidden n) (glob_listdir h root d dironly))"

definition glob0 :: "host \<Rightarrow> 'c node \<Rightarrow> string \<Rightarrow> string \<Rightarrow> string list" where
  "glob0 h root d name =
     (if name \<noteq> [] then if os_lexists h root (path_join d name) then [name] else []
      else if os_isdir h root d then [name] else [])"

text \<open>The directory part of a pattern is shorter than the pattern: its length bounds the recursion.\<close>

primrec glob_n :: "nat \<Rightarrow> host \<Rightarrow> 'c node \<Rightarrow> string \<Rightarrow> bool \<Rightarrow> string list" where
  "glob_n 0 h root p dironly = []"
| "glob_n (Suc k) h root p dironly =
     (let d = path_dirname p; b = path_basename p
      in if \<not> has_magic p
         then (if b \<noteq> [] then if os_lexists h root p then [p] else []
               else if os_isdir h root d then [p] else [])
         else if d = [] then glob1 h root d b dironly
         else concat (map (\<lambda>dir. map (path_join dir)
                (if has_magic b then glob1 h root dir b dironly else glob0 h root dir b))
              (if d \<noteq> p \<and> has_magic d then glob_n k h root d True else [d])))"

definition glob_glob :: "host \<Rightarrow> 'c node \<Rightarrow> string \<Rightarrow> string list" where
  "glob_glob h root p = glob_n (Suc (length p)) h root p False"

section \<open>walk\<close>

text \<open>
  \<open>os.walk\<close>, top-down, not following links below the top: for each directory its path, the names
  of its directories (links to directories included) and its other names.
\<close>

definition walk_dirs :: "host \<Rightarrow> 'c node \<Rightarrow> string \<Rightarrow> (string \<times> 'c node) list \<Rightarrow> string list" where
  "walk_dirs h root tp es = filter (\<lambda>n. os_isdir h root (path_join tp n)) (map fst es)"

definition walk_files :: "host \<Rightarrow> 'c node \<Rightarrow> string \<Rightarrow> (string \<times> 'c node) list \<Rightarrow> string list" where
  "walk_files h root tp es = filter (\<lambda>n. \<not> os_isdir h root (path_join tp n)) (map fst es)"

fun walk_node :: "host \<Rightarrow> 'c node \<Rightarrow> string \<Rightarrow> 'c node \<Rightarrow> (string \<times> string list \<times> string list) list"
  and walk_entries :: "host \<Rightarrow> 'c node \<Rightarrow> string \<Rightarrow> (string \<times> 'c node) list \<Rightarrow> (string \<times> string list \<times> string list) list" where
  "walk_node h root tp (Dir m es) =
     (tp, walk_dirs h root tp es, walk_files h root tp es) # walk_entries h root tp es"
| "walk_node h root tp (File m x) = []"
| "walk_node h root tp (Link t) = []"
| "walk_entries h root tp [] = []"
| "walk_entries h root tp ((n, x) # es) = walk_node h root (path_join tp n) x @ walk_entries h root tp es"

definition os_walk :: "host \<Rightarrow> 'c node \<Rightarrow> string \<Rightarrow> (string \<times> string list \<times> string list) list" where
  "os_walk h root tp = (case os_stat h root tp of Some n \<Rightarrow> walk_node h root tp n | None \<Rightarrow> [])"

section \<open>relpath\<close>

fun drop_common :: "string list \<Rightarrow> string list \<Rightarrow> string list \<times> string list" where
  "drop_common (a # as) (b # bs) = (if a = b then drop_common as bs else (a # as, b # bs))"
| "drop_common as bs = (as, bs)"

text \<open>\<open>os.path.relpath(path, start)\<close>.\<close>

definition path_relpath :: "string \<Rightarrow> string \<Rightarrow> string \<Rightarrow> string" where
  "path_relpath cwd path start =
     (let parts = (\<lambda>p. filter (\<lambda>x. x \<noteq> []) (py_split slash (path_abspath cwd p)));
          (start_rest, path_rest) = drop_common (parts start) (parts path);
          rel = replicate (length start_rest) ''..'' @ path_rest
      in if rel = [] then ''.'' else foldl path_join (hd rel) (tl rel))"

end
