(* ===== verification/Config_File.thy ===== *)
theory Config_File
  imports Py_Glob
begin

text \<open>
  \<open>docker/base/set\_configs.py\<close>, first part: the exceptions, the documents, owners and
  permissions (\<open>user\_group\<close>, \<open>handle\_permissions\<close>) and the class \<open>ConfigFile\<close>, which copies a
  configuration file into a container or checks it there.

  A file holds text or a document of JSON (the \<open>json\<close> module only moves documents in and out of
  files). The recursion of \<open>\_merge\_directories\<close> is bounded by Python's own limit
  (\<open>sce\_depth\<close> calls), which raises a RecursionError.
\<close>

section \<open>Exceptions and documents\<close>

datatype exit_class = ImmutableConfig | InvalidConfig | MissingRequiredSource | UserNotFound
  | ConfigFileBadState | ConfigFileCommandDiffers | StateMismatch

datatype sc_exn = Exiting exit_class nat | PyError py_exn

record cfg_entry =
  ce_source :: "string option"
  ce_dest :: "string option"
  ce_owner :: "string option"
  ce_perm :: "string option"
  ce_optional :: bool
  ce_preserve :: bool
  ce_merge :: bool
  ce_unknown_key :: bool

record perm_entry =
  pe_path :: "string option"
  pe_owner :: "string option"
  pe_recurse :: bool
  pe_perm :: "string option"
  pe_exclude :: "string list"

record config_doc =
  cfg_command :: "string option"
  cfg_files :: "cfg_entry list option"
  cfg_permissions :: "perm_entry list"

record default_entry =
  de_source :: string
  de_dest :: "string option"

type_synonym defaults_state = "(string, default_entry) dict"

datatype content = Text string | ConfigDoc config_doc | StateDoc defaults_state

record sc_env =
  sce_host :: host
  sce_strategy :: "string option"
  sce_search :: "string \<Rightarrow> string \<Rightarrow> bool"
  sce_depth :: nat

type_synonym 'a sc_prog = "(sc_exn, content node, 'a) prog"

abbreviation sc_raise :: "py_exn \<Rightarrow> 'a sc_prog" where
  "sc_raise e \<equiv> p_raise (PyError e)"

abbreviation sc_exit :: "exit_class \<Rightarrow> 'a sc_prog" where
  "sc_exit e \<equiv> p_raise (Exiting e 1)"

fun is_os_error :: "sc_exn \<Rightarrow> bool" where
  "is_os_error (PyError (OSError p)) = True"
| "is_os_error _ = False"

text \<open>\<open>try: m except OSError: log\<close>.\<close>

definition ignore_os_error :: "unit sc_prog \<Rightarrow> unit sc_prog" where
  "ignore_os_error m = p_catch m (\<lambda>e. if is_os_error e then p_return () else p_raise e)"

section \<open>Owners\<close>

definition user_group :: "string \<Rightarrow> string \<times> string" where
  "user_group owner =
     (if CHR '':'' \<in> set owner
      then let user = takeWhile (\<lambda>c. c \<noteq> CHR '':'') owner;
               group = tl (dropWhile (\<lambda>c. c \<noteq> CHR '':'') owner)
           in (user, if group = [] then user else group)
      else (owner, owner))"

definition user_group_of :: "string option \<Rightarrow> (string \<times> string) sc_prog" where
  "user_group_of owner =
     (case owner of None \<Rightarrow> sc_raise (TypeError ''argument of type NoneType is not iterable'')
      | Some o' \<Rightarrow> p_return (user_group o'))"

definition lookup_id :: "(string \<times> nat) list \<Rightarrow> string \<Rightarrow> nat sc_prog" where
  "lookup_id db name = (case map_of db name of Some n \<Rightarrow> p_return n | None \<Rightarrow> sc_raise (KeyError name))"

definition lookup_name :: "(string \<times> nat) list \<Rightarrow> nat \<Rightarrow> string sc_prog" where
  "lookup_name db n =
     (case find (\<lambda>(name, k). k = n) db of Some (name, k) \<Rightarrow> p_return name
      | None \<Rightarrow> sc_raise (KeyError ''id not found''))"

section \<open>Permissions\<close>

text \<open>
  \<open>int(s, base)\<close> for strings up to character 255: blanks around it, a sign, digits that single underscores may
  separate. For base 0 a prefix gives the base, after which an underscore may stand, and a decimal number has no leading zeros.
\<close>

definition digit_value :: "char \<Rightarrow> nat option" where
  "digit_value c =
     (let n = of_char c
      in if 48 \<le> n \<and> n \<le> 57 then Some (n - 48)
         else if 97 \<le> n \<and> n \<le> 122 then Some (n - 87)
         else if 65 \<le> n \<and> n \<le> 90 then Some (n - 55)
         else None)"

fun digits_value :: "nat \<Rightarrow> bool \<Rightarrow> nat \<Rightarrow> string \<Rightarrow> nat option" where
  "digits_value base after_digit acc [] = (if after_digit then Some acc else None)"
| "digits_value base after_digit acc (c # cs) =
     (if c = CHR ''_'' then (if after_digit then digits_value base False acc cs else None)
      else (case digit_value c of
              Some d \<Rightarrow> if d < base then digits_value base True (acc * base + d) cs else None
            | None \<Rightarrow> None))"

definition signed_value :: "(string \<Rightarrow> nat option) \<Rightarrow> string \<Rightarrow> int option" where
  "signed_value digits s =
     (if py_startswith s ''-'' then map_option (\<lambda>n. - int n) (digits (tl s))
      else map_option int (digits (if py_startswith s ''+'' then tl s else s)))"

definition prefix_base :: "char \<Rightarrow> nat option" where
  "prefix_base c =
     (if c \<in> {CHR ''o'', CHR ''O''} then Some 8
      else if c \<in> {CHR ''x'', CHR ''X''} then Some 16
      else if c \<in> {CHR ''b'', CHR ''B''} then Some 2
      else None)"

definition literal_value :: "string \<Rightarrow> nat option" where
  "literal_value s =
     (case s of
        z # c # cs \<Rightarrow>
          (case (if z = CHR ''0'' then prefix_base c else None) of
             Some base \<Rightarrow> digits_value base False 0 (if py_startswith cs ''_'' then tl cs else cs)
           | None \<Rightarrow>
               (case digits_value 10 False 0 s of
                  Some n \<Rightarrow> if z = CHR ''0'' \<and> n \<noteq> 0 then None else Some n
                | None \<Rightarrow> None))
      | _ \<Rightarrow> digits_value 10 False 0 s)"

definition py_int0 :: "string \<Rightarrow> int option" where
  "py_int0 s = signed_value literal_value (py_strip s)"

definition py_int10 :: "string \<Rightarrow> int option" where
  "py_int10 s = signed_value (digits_value 10 False 0) (py_strip s)"

definition octal_literal :: "string \<Rightarrow> string" where
  "octal_literal perm =
     (if length perm = 4 \<and> perm ! 1 \<noteq> CHR ''o'' then take 1 perm @ ''o'' @ drop 1 perm else perm)"

definition perm_number :: "string \<Rightarrow> int option" where
  "perm_number perm = py_int0 (octal_literal perm)"

text \<open>A directory gets the execute bit where it gets the read bit.\<close>

definition dir_perm :: "int \<Rightarrow> int" where
  "dir_perm perm =
     (let p1 = (if perm AND 256 \<noteq> 0 then perm OR 64 else perm);
          p2 = (if p1 AND 32 \<noteq> 0 then p1 OR 8 else p1)
      in if p2 AND 4 \<noteq> 0 then p2 OR 1 else p2)"

definition set_perms :: "sc_env \<Rightarrow> string \<Rightarrow> nat \<Rightarrow> nat \<Rightarrow> string option \<Rightarrow> unit sc_prog" where
  "set_perms env path uid gid perm =
     p_bind (p_gets (\<lambda>root. os_exists (sce_host env) root path)) (\<lambda>present.
       if \<not> present then p_return ()
       else p_then (ignore_os_error (os_chown PyError (sce_host env) path uid gid))
         (case perm of
            None \<Rightarrow> p_return ()
          | Some s \<Rightarrow>
              if s = [] then p_return ()
              else (case perm_number s of
                      None \<Rightarrow> sc_raise (ValueError s)
                    | Some n \<Rightarrow>
                        p_bind (p_gets (\<lambda>root. os_isdir (sce_host env) root path)) (\<lambda>d.
                          ignore_os_error (os_chmod PyError (sce_host env) path (if d then dir_perm n else n))))))"

definition handle_exclusion :: "sc_env \<Rightarrow> string list \<Rightarrow> nat \<Rightarrow> nat \<Rightarrow> string option \<Rightarrow> string \<Rightarrow> unit sc_prog" where
  "handle_exclusion env exclude uid gid perm full_path =
     (if exclude \<noteq> []
      then p_for exclude (\<lambda>pattern.
        if \<not> sce_search env pattern full_path then set_perms env full_path uid gid perm else p_return ())
      else set_perms env full_path uid gid perm)"

definition walk_paths :: "host \<Rightarrow> content node \<Rightarrow> string \<Rightarrow> string list" where
  "walk_paths h root dest =
     concat (map (\<lambda>(r, dirs, files). map (path_join r) dirs @ map (path_join r) files) (os_walk h root dest))"

definition handle_permission :: "sc_env \<Rightarrow> perm_entry \<Rightarrow> unit sc_prog" where
  "handle_permission env e =
     p_bind (user_group_of (pe_owner e)) (\<lambda>(user, group).
     p_bind (lookup_id (host_users (sce_host env)) user) (\<lambda>uid.
     p_bind (lookup_id (host_groups (sce_host env)) group) (\<lambda>gid.
       case pe_path e of
         None \<Rightarrow> sc_raise (TypeError ''expected str'')
       | Some path \<Rightarrow>
           p_bind (p_gets (\<lambda>root. glob_glob (sce_host env) root path)) (\<lambda>dests.
             p_for dests (\<lambda>dest.
               p_then (set_perms env dest uid gid (pe_perm e))
                 (p_bind (p_gets (\<lambda>root. pe_recurse e \<and> os_isdir (sce_host env) root dest)) (\<lambda>recurse.
                   if recurse
                   then p_bind (p_gets (\<lambda>root. walk_paths (sce_host env) root dest)) (\<lambda>paths.
                     p_for paths (handle_exclusion env (pe_exclude e) uid gid (pe_perm e)))
                   else p_return ())))))))"

definition handle_permissions :: "sc_env \<Rightarrow> perm_entry list \<Rightarrow> unit sc_prog" where
  "handle_permissions env ps = p_for ps (handle_permission env)"

section \<open>ConfigFile\<close>

record config_file =
  cf_source :: string
  cf_dest :: string
  cf_owner :: "string option"
  cf_perm :: "string option"
  cf_optional :: bool
  cf_preserve :: bool
  cf_merge :: bool

text \<open>\<open>ConfigFile(**data)\<close>.\<close>

definition make_config_file :: "cfg_entry \<Rightarrow> config_file sc_prog" where
  "make_config_file e =
     (if ce_unknown_key e then sc_raise (TypeError ''unexpected keyword argument'')
      else (case (ce_source e, ce_dest e) of
              (Some s, Some d) \<Rightarrow>
                p_return \<lparr>cf_source = s, cf_dest = d, cf_owner = ce_owner e, cf_perm = ce_perm e,
                  cf_optional = ce_optional e, cf_preserve = ce_preserve e, cf_merge = ce_merge e\<rparr>
            | _ \<Rightarrow> sc_raise (TypeError ''missing required positional argument'')))"

definition delete_path :: "sc_env \<Rightarrow> string \<Rightarrow> unit sc_prog" where
  "delete_path env path =
     p_bind (p_gets (\<lambda>root. root)) (\<lambda>root.
       if \<not> os_lexists (sce_host env) root path then p_return ()
       else if os_isdir (sce_host env) root path then shutil_rmtree PyError (sce_host env) path
       else os_remove PyError (sce_host env) path)"

definition create_parent_dirs :: "sc_env \<Rightarrow> string \<Rightarrow> unit sc_prog" where
  "create_parent_dirs env path =
     p_bind (p_gets (\<lambda>root. os_exists (sce_host env) root (path_dirname path))) (\<lambda>present.
       if present then p_return () else makedirs PyError (sce_host env) False (path_dirname path))"

definition stat_meta :: "sc_env \<Rightarrow> string \<Rightarrow> meta sc_prog" where
  "stat_meta env path =
     p_bind (p_gets (\<lambda>root. os_stat (sce_host env) root path)) (\<lambda>n.
       case (case n of Some x \<Rightarrow> node_meta x | None \<Rightarrow> None) of
         Some m \<Rightarrow> p_return m | None \<Rightarrow> sc_raise (OSError path))"

text \<open>\<open>shutil.copy\<close>: into a directory under the name of the source; content, then mode.\<close>

definition shutil_copy :: "sc_env \<Rightarrow> string \<Rightarrow> string \<Rightarrow> unit sc_prog" where
  "shutil_copy env src dst0 =
     p_bind (p_gets (\<lambda>root. root)) (\<lambda>root.
       let dst = (if os_isdir (sce_host env) root dst0 then path_join dst0 (path_basename src) else dst0)
       in if os_exists (sce_host env) root src \<and> os_exists (sce_host env) root dst \<and>
             locate (sce_host env) root True src = locate (sce_host env) root True dst
          then sc_raise (OSError src)
          else p_bind (read_file PyError (sce_host env) src) (\<lambda>x.
            p_then (write_file PyError (sce_host env) dst x)
              (p_bind (stat_meta env src) (\<lambda>m. os_chmod PyError (sce_host env) dst (S_IMODE (m_mode m))))))"

definition set_properties_from_file :: "sc_env \<Rightarrow> string \<Rightarrow> string \<Rightarrow> unit sc_prog" where
  "set_properties_from_file env src dest =
     p_bind (stat_meta env src) (\<lambda>m.
       p_then (os_chmod PyError (sce_host env) dest (S_IMODE (m_mode m)))
         (os_chown PyError (sce_host env) dest (m_uid m) (m_gid m)))"

definition set_properties_from_conf :: "sc_env \<Rightarrow> config_file \<Rightarrow> string \<Rightarrow> unit sc_prog" where
  "set_properties_from_conf env f path =
     handle_permissions env [\<lparr>pe_path = Some path, pe_owner = cf_owner f, pe_recurse = False,
       pe_perm = cf_perm f, pe_exclude = []\<rparr>]"

definition set_properties :: "sc_env \<Rightarrow> config_file \<Rightarrow> string \<Rightarrow> string \<Rightarrow> unit sc_prog" where
  "set_properties env f src dest =
     (if cf_preserve f then set_properties_from_file env src dest else set_properties_from_conf env f dest)"

definition copy_file :: "sc_env \<Rightarrow> config_file \<Rightarrow> string \<Rightarrow> string \<Rightarrow> unit sc_prog" where
  "copy_file env f src dest =
     p_then (delete_path env dest)
       (p_bind (p_gets (\<lambda>root. os_readlink (sce_host env) root src)) (\<lambda>link.
         case (if cf_merge f \<and> cf_preserve f then link else None) of
           Some target \<Rightarrow> os_symlink PyError (sce_host env) target dest
         | None \<Rightarrow> p_then (shutil_copy env src dest) (set_properties env f src dest)))"

primrec merge_directories :: "nat \<Rightarrow> sc_env \<Rightarrow> config_file \<Rightarrow> string \<Rightarrow> string \<Rightarrow> unit sc_prog" where
  "merge_directories 0 env f src dest = sc_raise RecursionError"
| "merge_directories (Suc k) env f src dest =
     p_bind (p_gets (\<lambda>root. os_isdir (sce_host env) root src)) (\<lambda>d.
       if d
       then p_then
         (p_bind (p_gets (\<lambda>root. os_lexists (sce_host env) root dest \<and> \<not> os_isdir (sce_host env) root dest))
           (\<lambda>blocked. if blocked then delete_path env dest else p_return ()))
         (p_then
           (p_bind (p_gets (\<lambda>root. os_isdir (sce_host env) root dest))
             (\<lambda>present. if present then p_return () else makedirs PyError (sce_host env) False dest))
           (p_then (set_properties env f src dest)
             (p_bind (list_dir PyError (sce_host env) src) (\<lambda>names.
               p_for names (\<lambda>n. merge_directories k env f (path_join src n) (path_join dest n))))))
       else copy_file env f src dest)"

text \<open>A destination that ends with a slash is the directory to copy into.\<close>

definition entry_dest :: "string \<Rightarrow> string \<Rightarrow> string" where
  "entry_dest dest src = (if py_endswith dest ''/'' then path_join dest (path_basename src) else dest)"

definition copy_source :: "sc_env \<Rightarrow> config_file \<Rightarrow> string \<Rightarrow> unit sc_prog" where
  "copy_source env f src =
     (let dest = entry_dest (cf_dest f) src
      in p_then (if cf_merge f then p_return () else delete_path env dest)
           (p_then (create_parent_dirs env dest)
             (merge_directories (sce_depth env) env f src dest)))"

definition config_file_copy :: "sc_env \<Rightarrow> config_file \<Rightarrow> unit sc_prog" where
  "config_file_copy env f =
     p_bind (p_gets (\<lambda>root. glob_glob (sce_host env) root (cf_source f))) (\<lambda>sources.
       if sources = [] then (if cf_optional f then p_return () else sc_exit MissingRequiredSource)
       else p_for sources (copy_source env f))"

section \<open>Checking\<close>

definition octal_digit :: "nat \<Rightarrow> char" where
  "octal_digit n = char_of (48 + n mod 8)"

text \<open>\<open>oct(st\_mode)[-4:]\<close>.\<close>

definition octal4 :: "nat \<Rightarrow> string" where
  "octal4 mode = map octal_digit [mode div 512, mode div 64, mode div 8, mode]"

definition cmp_file :: "sc_env \<Rightarrow> config_file \<Rightarrow> string \<Rightarrow> string \<Rightarrow> bool sc_prog" where
  "cmp_file env f src dest =
     p_bind (p_gets (\<lambda>root. root)) (\<lambda>root.
       if os_exists (sce_host env) root src \<noteq> os_exists (sce_host env) root dest then p_return False
       else p_bind (read_file PyError (sce_host env) src) (\<lambda>x.
         p_bind (read_file PyError (sce_host env) dest) (\<lambda>y.
           if x \<noteq> y then p_return False
           else p_bind (stat_meta env dest) (\<lambda>m.
             if cf_perm f \<noteq> Some (octal4 (m_mode m)) then p_return False
             else p_bind (user_group_of (cf_owner f)) (\<lambda>(user, group).
               p_bind (lookup_name (host_users (sce_host env)) (m_uid m)) (\<lambda>actual_user.
                 if actual_user \<noteq> user then p_return False
                 else p_bind (lookup_name (host_groups (sce_host env)) (m_gid m)) (\<lambda>actual_group.
                   p_return (actual_group = group))))))))"

text \<open>The checks of \<open>\_cmp\_dir\<close> in the order of the walk; a directory is looked up as the code does it.\<close>

fun all_checks :: "bool sc_prog list \<Rightarrow> bool sc_prog" where
  "all_checks [] = p_return True"
| "all_checks (c # cs) = p_bind c (\<lambda>ok. if ok then all_checks cs else p_return False)"

definition host_cwd_path :: "host \<Rightarrow> string" where
  "host_cwd_path h = ''/'' @ py_join ''/'' (host_cwd h)"

definition cmp_dir_entry :: "sc_env \<Rightarrow> config_file \<Rightarrow> string \<Rightarrow> string \<Rightarrow> string \<Rightarrow> bool sc_prog" where
  "cmp_dir_entry env f src dest full_path =
     p_bind (stat_meta env (path_join dest (path_relpath (host_cwd_path (sce_host env)) src full_path))) (\<lambda>m.
       p_return (cf_perm f = Some (octal4 (m_mode m))))"

definition cmp_dir :: "sc_env \<Rightarrow> config_file \<Rightarrow> string \<Rightarrow> string \<Rightarrow> bool sc_prog" where
  "cmp_dir env f src dest =
     p_bind (p_gets (\<lambda>root. os_walk (sce_host env) root src)) (\<lambda>steps.
       all_checks (concat (map (\<lambda>(r, dirs, files).
         map (\<lambda>d. cmp_dir_entry env f src dest (path_join r d)) dirs @
         map (\<lambda>n. cmp_file env f (path_join r n)
               (path_join dest (path_relpath (host_cwd_path (sce_host env)) (path_join r n) src))) files) steps)))"

definition check_source :: "sc_env \<Rightarrow> config_file \<Rightarrow> string \<Rightarrow> bool sc_prog" where
  "check_source env f src =
     p_bind (p_gets (\<lambda>root. os_isdir (sce_host env) root src)) (\<lambda>d.
       if d then cmp_dir env f src (entry_dest (cf_dest f) src)
       else cmp_file env f src (entry_dest (cf_dest f) src))"

fun bad_sources :: "sc_env \<Rightarrow> config_file \<Rightarrow> string list \<Rightarrow> string list sc_prog" where
  "bad_sources env f [] = p_return []"
| "bad_sources env f (s # ss) =
     p_bind (check_source env f s) (\<lambda>ok.
       p_bind (bad_sources env f ss) (\<lambda>bad. p_return (if ok then bad else s # bad)))"

definition config_file_check :: "sc_env \<Rightarrow> config_file \<Rightarrow> unit sc_prog" where
  "config_file_check env f =
     p_bind (p_gets (\<lambda>root. glob_glob (sce_host env) root (cf_source f))) (\<lambda>sources.
       if sources = [] then (if cf_optional f then p_return () else sc_exit MissingRequiredSource)
       else p_bind (bad_sources env f sources) (\<lambda>bad.
         if bad \<noteq> [] then sc_exit ConfigFileBadState else p_return ()))"

end
