(* ===== verification/Set_Configs.thy ===== *)
theory Set_Configs
  imports Config_File
begin

text \<open>
  \<open>docker/base/set\_configs.py\<close>, second part: loading and validating the document, copying what it
  names, the defaults that are saved at the first start of a container and put back at the next
  ones, the strategies, the check, and \<open>main\<close>.
\<close>

section \<open>Loading\<close>

definition entry_valid :: "cfg_entry \<Rightarrow> bool" where
  "entry_valid e \<longleftrightarrow> ce_source e \<noteq> None \<and> ce_dest e \<noteq> None \<and>
     (ce_owner e \<noteq> None \<and> ce_perm e \<noteq> None \<or> ce_preserve e)"

definition validate_config :: "config_doc \<Rightarrow> unit sc_prog" where
  "validate_config c =
     (if cfg_command c = None then sc_exit InvalidConfig
      else p_for (case cfg_files c of None \<Rightarrow> [] | Some fs \<Rightarrow> fs)
             (\<lambda>e. if entry_valid e then p_return () else sc_exit InvalidConfig))"

text \<open>Not called by the script itself.\<close>

definition validate_source :: "sc_env \<Rightarrow> cfg_entry \<Rightarrow> bool sc_prog" where
  "validate_source env e =
     (case ce_source e of
        None \<Rightarrow> sc_raise (TypeError ''argument of type NoneType is not iterable'')
      | Some source \<Rightarrow>
          p_bind (p_gets (\<lambda>root. os_exists (sce_host env) root source)) (\<lambda>present.
            if CHR ''*'' \<notin> set source \<and> \<not> present
            then (if ce_optional e then p_return False else sc_exit MissingRequiredSource)
            else p_return True))"

definition config_json :: string where
  "config_json = ''/var/lib/kolla/config_files/config.json''"

definition load_from_file :: "sc_env \<Rightarrow> config_doc sc_prog" where
  "load_from_file env =
     p_bind (read_file PyError (sce_host env) config_json) (\<lambda>x.
       case x of
         ConfigDoc c \<Rightarrow> p_return c
       | Text t \<Rightarrow> sc_exit InvalidConfig
       | StateDoc s \<Rightarrow> p_return \<lparr>cfg_command = None, cfg_files = None, cfg_permissions = []\<rparr>)"

definition load_config :: "sc_env \<Rightarrow> config_doc sc_prog" where
  "load_config env =
     p_bind (load_from_file env) (\<lambda>c. p_then (validate_config c) (p_return c))"

section \<open>Copying\<close>

definition run_command :: string where
  "run_command = ''/run_command''"

definition copy_config :: "sc_env \<Rightarrow> config_doc \<Rightarrow> unit sc_prog" where
  "copy_config env c =
     p_then
       (case cfg_files c of
          None \<Rightarrow> p_return ()
        | Some es \<Rightarrow> p_for es (\<lambda>e. p_bind (make_config_file e) (config_file_copy env)))
       (case cfg_command c of
          None \<Rightarrow> sc_raise (KeyError ''command'')
        | Some cmd \<Rightarrow>
            p_then (write_file PyError (sce_host env) run_command (Text cmd))
              (ignore_os_error (os_chmod PyError (sce_host env) run_command 420)))"

section \<open>Defaults\<close>

definition kolla_defaults :: string where
  "kolla_defaults = ''/etc/kolla/defaults''"

definition kolla_defaults_state :: string where
  "kolla_defaults_state = kolla_defaults @ ''/'' @ ''state''"

definition get_defaults_state :: "sc_env \<Rightarrow> defaults_state sc_prog" where
  "get_defaults_state env =
     p_then (makedirs PyError (sce_host env) True kolla_defaults)
       (p_bind (p_gets (\<lambda>root. os_exists (sce_host env) root kolla_defaults_state)) (\<lambda>present.
         if present
         then p_bind (read_file PyError (sce_host env) kolla_defaults_state) (\<lambda>x.
           case x of
             StateDoc s \<Rightarrow> p_return s
           | Text t \<Rightarrow> sc_raise (ValueError ''not a JSON document'')
           | ConfigDoc c \<Rightarrow> sc_raise (TypeError ''not a state document''))
         else p_return []))"

definition set_defaults_state :: "sc_env \<Rightarrow> defaults_state \<Rightarrow> unit sc_prog" where
  "set_defaults_state env s = write_file PyError (sce_host env) kolla_defaults_state (StateDoc s)"

text \<open>The files the state names: copies that preserve the properties.\<close>

definition default_file :: "string \<Rightarrow> string \<Rightarrow> config_file" where
  "default_file src dest =
     \<lparr>cf_source = src, cf_dest = dest, cf_owner = None, cf_perm = None, cf_optional = False,
      cf_preserve = True, cf_merge = False\<rparr>"

definition remove_default :: "sc_env \<Rightarrow> string \<Rightarrow> unit sc_prog" where
  "remove_default env k =
     p_bind (p_gets (\<lambda>root. root)) (\<lambda>root.
       if \<not> os_exists (sce_host env) root k then p_return ()
       else if os_isfile (sce_host env) root k then os_remove PyError (sce_host env) k
       else shutil_rmtree PyError (sce_host env) k)"

text \<open>The entry of the state is swapped in place; the result is the state afterwards.\<close>

fun swap_entry :: "default_entry \<Rightarrow> default_entry" where
  "swap_entry v = (case de_dest v of
       None \<Rightarrow> v | Some d \<Rightarrow> v\<lparr>de_source := d, de_dest := Some (de_source v)\<rparr>)"

fun remove_or_restore_configs :: "sc_env \<Rightarrow> defaults_state \<Rightarrow> defaults_state sc_prog" where
  "remove_or_restore_configs env [] = p_return []"
| "remove_or_restore_configs env ((k, v) # s) =
     p_then
       (case de_dest v of
          None \<Rightarrow> remove_default env k
        | Some d \<Rightarrow> config_file_copy env (default_file d (de_source v)))
       (p_bind (remove_or_restore_configs env s) (\<lambda>s'. p_return ((k, swap_entry v) # s')))"

definition backup_dest :: "string \<Rightarrow> string \<Rightarrow> string" where
  "backup_dest src dest = (if py_endswith dest ''/'' then dest @ path_basename src else dest)"

definition backup_entry :: "sc_env \<Rightarrow> cfg_entry \<Rightarrow> defaults_state \<Rightarrow> defaults_state sc_prog" where
  "backup_entry env e s =
     (case (ce_source e, ce_dest e) of
        (Some src, Some dest) \<Rightarrow>
          if dest \<in> set (dict_keys s) then p_return s
          else let dst = backup_dest src dest
               in p_bind (p_gets (\<lambda>root. (os_exists (sce_host env) root src, os_exists (sce_host env) root dst)))
                 (\<lambda>(src_there, dst_there).
                    if \<not> src_there \<or> dst \<in> set (dict_keys s) then p_return s
                    else if dst_there
                    then p_then (config_file_copy env (default_file dst (kolla_defaults @ dst)))
                           (p_return (dict_set dst \<lparr>de_source = dst, de_dest = Some (kolla_defaults @ dst)\<rparr> s))
                    else p_return (dict_set dst \<lparr>de_source = dst, de_dest = None\<rparr> s))
      | _ \<Rightarrow> sc_raise (KeyError ''dest''))"

fun backup_entries :: "sc_env \<Rightarrow> cfg_entry list \<Rightarrow> defaults_state \<Rightarrow> defaults_state sc_prog" where
  "backup_entries env [] s = p_return s"
| "backup_entries env (e # es) s = p_bind (backup_entry env e s) (backup_entries env es)"

definition backup_configs :: "sc_env \<Rightarrow> config_doc \<Rightarrow> defaults_state \<Rightarrow> defaults_state sc_prog" where
  "backup_configs env c s = (case cfg_files c of None \<Rightarrow> p_return s | Some es \<Rightarrow> backup_entries env es s)"

definition handle_defaults :: "sc_env \<Rightarrow> config_doc \<Rightarrow> unit sc_prog" where
  "handle_defaults env c =
     p_bind (get_defaults_state env) (\<lambda>s.
     p_bind (remove_or_restore_configs env s) (\<lambda>s1.
     p_bind (backup_configs env c s1) (set_defaults_state env)))"

section \<open>Strategies\<close>

definition configured :: string where
  "configured = ''/configured''"

definition set_config :: "sc_env \<Rightarrow> config_doc \<Rightarrow> unit sc_prog" where
  "set_config env c =
     p_then (handle_defaults env c)
       (p_then (copy_config env c) (handle_permissions env (cfg_permissions c)))"

definition os_mknod :: "sc_env \<Rightarrow> string \<Rightarrow> unit sc_prog" where
  "os_mknod env p =
     create PyError (sce_host env) p
       (File \<lparr>m_mode = 384, m_uid = host_uid (sce_host env), m_gid = host_gid (sce_host env)\<rparr> (Text []))"

definition execute_config_strategy :: "sc_env \<Rightarrow> config_doc \<Rightarrow> unit sc_prog" where
  "execute_config_strategy env c =
     (if sce_strategy env = Some ''COPY_ALWAYS'' then set_config env c
      else if sce_strategy env = Some ''COPY_ONCE''
      then p_bind (p_gets (\<lambda>root. os_exists (sce_host env) root configured)) (\<lambda>present.
             if present then p_raise (Exiting ImmutableConfig 0)
             else p_then (set_config env c) (os_mknod env configured))
      else sc_exit InvalidConfig)"

section \<open>The check\<close>

definition execute_command_check :: "sc_env \<Rightarrow> config_doc \<Rightarrow> unit sc_prog" where
  "execute_command_check env c =
     p_bind (read_file PyError (sce_host env) run_command) (\<lambda>x.
       case cfg_command c of
         None \<Rightarrow> sc_raise (TypeError ''can only concatenate str'')
       | Some cmd \<Rightarrow> if x = Text cmd then p_return () else sc_exit ConfigFileCommandDiffers)"

fun current_dests :: "cfg_entry list \<Rightarrow> string list" where
  "current_dests [] = []"
| "current_dests (e # es) =
     (case (ce_source e, ce_dest e) of
        (Some src, Some dest) \<Rightarrow> (if dest = [] then [] else [entry_dest dest src])
      | _ \<Rightarrow> []) @ current_dests es"

definition execute_config_check :: "sc_env \<Rightarrow> config_doc \<Rightarrow> unit sc_prog" where
  "execute_config_check env c =
     (let es = (case cfg_files c of None \<Rightarrow> [] | Some es \<Rightarrow> es)
      in p_bind (get_defaults_state env) (\<lambda>s.
           if filter (\<lambda>k. k \<notin> set (current_dests es)) (dict_keys s) \<noteq> [] then sc_exit StateMismatch
           else p_for es (\<lambda>e. p_bind (make_config_file e) (config_file_check env))))"

section \<open>main\<close>

definition sc_main_body :: "sc_env \<Rightarrow> bool \<Rightarrow> unit sc_prog" where
  "sc_main_body env check =
     p_bind (load_config env) (\<lambda>c.
       if check then p_then (execute_command_check env c) (execute_config_check env c)
       else execute_config_strategy env c)"

definition exit_code_of :: "sc_exn \<Rightarrow> nat" where
  "exit_code_of e = (case e of Exiting c n \<Rightarrow> n | PyError x \<Rightarrow> 2)"

definition sc_main :: "sc_env \<Rightarrow> bool \<Rightarrow> nat sc_prog" where
  "sc_main env check = p_catch (p_then (sc_main_body env check) (p_return 0)) (\<lambda>e. p_return (exit_code_of e))"

end
