(* ===== verification/Container_Programs.thy ===== *)
theory Container_Programs
  imports Set_Configs
begin

text \<open>
  Interfaces of frames: what the operations on files promise of a relation between the tree before
  and after (the \<open>assumes\<close>), the programs of \<open>set\_configs.py\<close> built from them promise too, together with a condition on the exceptions. A program
  that only reads needs a preorder, the permissions need \<open>chmod\<close> and \<open>chown\<close>, the check needs
  \<open>mkdir\<close>, and the copying of a configuration needs them all.
\<close>

section \<open>Programs that only read\<close>

locale container_frame = program_frame R E for R :: "content node \<Rightarrow> content node \<Rightarrow> bool"
    and E :: "sc_exn \<Rightarrow> bool" +
  fixes env :: sc_env
  assumes python_error: "E (PyError e)"
    and declared_error: "E (Exiting c 1)"
begin

lemma sat_raise_python: "p_sat R E (sc_raise e)"
  by (intro sat_raise python_error)

lemma sat_raise_declared: "p_sat R E (sc_exit c)"
  by (intro sat_raise declared_error)

lemmas sat_rules = sat_intros sat_raise_python sat_raise_declared

lemma sat_content:
  "(\<And>t. p_sat R E (f t)) \<Longrightarrow> (\<And>c. p_sat R E (g c)) \<Longrightarrow> (\<And>s. p_sat R E (h s)) \<Longrightarrow>
     p_sat R E (case x of Text t \<Rightarrow> f t | ConfigDoc c \<Rightarrow> g c | StateDoc s \<Rightarrow> h s)"
  by (simp split: content.split)

lemma sat_read_file: "p_sat R E (read_file PyError h p)"
  unfolding read_file_def
  by (intro sat_bind sat_gets) (auto intro: sat_rules split: option.split node.split)

lemma sat_list_dir: "p_sat R E (list_dir PyError h p)"
  unfolding list_dir_def
  by (intro sat_bind sat_gets) (auto intro: sat_rules split: option.split node.split)

lemma sat_stat_meta: "p_sat R E (stat_meta env p)"
  unfolding stat_meta_def by (intro sat_rules)

lemma sat_user_group_of: "p_sat R E (user_group_of ow)"
  unfolding user_group_of_def by (intro sat_rules)

lemma sat_lookup: "p_sat R E (lookup_id db name)" "p_sat R E (lookup_name db n)"
  unfolding lookup_id_def lookup_name_def by (intro sat_rules)+

lemma sat_make_config_file: "p_sat R E (make_config_file e)"
  unfolding make_config_file_def by (intro sat_rules)

lemmas sat_reads =
  sat_content sat_read_file sat_list_dir sat_stat_meta sat_user_group_of sat_lookup
  sat_make_config_file

lemma sat_validate_config: "p_sat R E (validate_config c)"
  unfolding validate_config_def by (intro sat_rules)

lemma sat_load_config: "p_sat R E (load_config env)"
  unfolding load_config_def load_from_file_def
  by (intro sat_rules sat_reads sat_validate_config)

lemma sat_cmp_file: "p_sat R E (cmp_file env f src dest)"
  unfolding cmp_file_def by (intro sat_rules sat_reads)

lemma sat_all_checks: "(\<And>c. c \<in> set cs \<Longrightarrow> p_sat R E c) \<Longrightarrow> p_sat R E (all_checks cs)"
  by (induction cs) (auto intro!: sat_rules)

lemma sat_cmp_dir: "p_sat R E (cmp_dir env f src dest)"
  unfolding cmp_dir_def cmp_dir_entry_def
  by (intro sat_bind sat_gets sat_all_checks)
    (auto intro!: sat_bind sat_stat_meta sat_return sat_cmp_file)

lemma sat_bad_sources: "p_sat R E (bad_sources env f ss)"
  by (induction ss) (auto simp: check_source_def intro!: sat_rules sat_cmp_dir sat_cmp_file)

lemma sat_config_file_check: "p_sat R E (config_file_check env f)"
  unfolding config_file_check_def by (intro sat_rules sat_bad_sources)

lemma sat_execute_command_check: "p_sat R E (execute_command_check env c)"
  unfolding execute_command_check_def by (intro sat_rules sat_reads)

end

section \<open>Permissions\<close>

locale meta_frame = container_frame +
  assumes sat_chmod: "p_sat R E (os_chmod PyError (sce_host env) p mode)"
    and sat_chown: "p_sat R E (os_chown PyError (sce_host env) p uid gid)"
begin

lemma sat_ignore_os_error: "p_sat R E m \<Longrightarrow> p_sat R E (ignore_os_error m)"
  unfolding ignore_os_error_def
  by (rule sat_catch) (auto intro!: sat_rules sat_raise within_intros within_branches)

lemma sat_set_perms: "p_sat R E (set_perms env path uid gid perm)"
  unfolding set_perms_def by (intro sat_rules sat_ignore_os_error sat_chmod sat_chown)

lemma sat_handle_exclusion: "p_sat R E (handle_exclusion env exclude uid gid perm path)"
  unfolding handle_exclusion_def by (intro sat_rules sat_set_perms)

lemma sat_handle_permission: "p_sat R E (handle_permission env e)"
  unfolding handle_permission_def
  by (intro sat_rules sat_reads sat_set_perms sat_handle_exclusion)

lemma sat_handle_permissions: "p_sat R E (handle_permissions env ps)"
  unfolding handle_permissions_def by (intro sat_for sat_handle_permission)

lemma sat_set_properties: "p_sat R E (set_properties env f src dest)"
  unfolding set_properties_def set_properties_from_file_def set_properties_from_conf_def
  by (intro sat_rules sat_reads sat_chmod sat_chown sat_handle_permissions)

end

section \<open>The check\<close>

text \<open>The directories that may be made are a set of paths with their parents.\<close>

locale growth_frame = container_frame R E env
    for R :: "content node \<Rightarrow> content node \<Rightarrow> bool" and E :: "sc_exn \<Rightarrow> bool" and env :: sc_env +
  fixes made :: "string \<Rightarrow> bool"
  assumes sat_mkdir: "made p \<Longrightarrow> p_sat R E (os_mkdir PyError (sce_host env) p)"
    and made_parent: "made p \<Longrightarrow> made (fst (split_tail p))"
    and made_defaults: "made kolla_defaults"
begin

lemma sat_makedirs_n: "made p \<Longrightarrow> p_sat R E (makedirs_n k PyError (sce_host env) exist_ok p)"
  by (induction k arbitrary: p) (auto intro!: sat_rules sat_mkdir made_parent)

lemma sat_makedirs: "made p \<Longrightarrow> p_sat R E (makedirs PyError (sce_host env) exist_ok p)"
  unfolding makedirs_def by (rule sat_makedirs_n)

lemma sat_get_defaults_state: "p_sat R E (get_defaults_state env)"
  unfolding get_defaults_state_def by (intro sat_rules sat_reads sat_makedirs made_defaults)

lemma sat_execute_config_check: "p_sat R E (execute_config_check env c)"
  unfolding execute_config_check_def Let_def
  by (intro sat_rules sat_reads sat_get_defaults_state sat_config_file_check)

lemma sat_main_body_check: "p_sat R E (sc_main_body env True)"
  unfolding sc_main_body_def
  by (simp, intro sat_rules sat_load_config sat_execute_command_check sat_execute_config_check)

end

section \<open>Copying a configuration\<close>

locale change_frame = meta_frame R E env + growth_frame R E env "\<lambda>p. True"
    for R :: "content node \<Rightarrow> content node \<Rightarrow> bool" and E :: "sc_exn \<Rightarrow> bool" and env :: sc_env +
  assumes sat_remove: "p_sat R E (os_remove PyError (sce_host env) p)"
    and sat_rmtree: "p_sat R E (shutil_rmtree PyError (sce_host env) p)"
    and sat_symlink: "p_sat R E (os_symlink PyError (sce_host env) t p)"
    and sat_write_file: "p_sat R E (write_file PyError (sce_host env) p x)"
    and sat_mknod: "p_sat R E (os_mknod env p)"
begin

lemma sat_delete_path: "p_sat R E (delete_path env p)"
  unfolding delete_path_def by (intro sat_rules sat_remove sat_rmtree)

lemma sat_create_parent_dirs: "p_sat R E (create_parent_dirs env p)"
  unfolding create_parent_dirs_def by (intro sat_rules sat_makedirs TrueI)

lemma sat_shutil_copy: "p_sat R E (shutil_copy env src dst)"
  unfolding shutil_copy_def Let_def
  by (intro sat_rules sat_reads sat_write_file sat_chmod)

lemma sat_copy_file: "p_sat R E (copy_file env f src dest)"
  unfolding copy_file_def
  by (intro sat_rules sat_delete_path sat_symlink sat_shutil_copy sat_set_properties)

lemma sat_merge_directories: "p_sat R E (merge_directories k env f src dest)"
  by (induction k arbitrary: src dest)
    (auto intro!: sat_rules sat_reads sat_delete_path sat_makedirs sat_set_properties sat_copy_file)

lemma sat_config_file_copy: "p_sat R E (config_file_copy env f)"
  unfolding config_file_copy_def copy_source_def Let_def
  by (intro sat_rules sat_delete_path sat_create_parent_dirs sat_merge_directories)

lemma sat_copy_config: "p_sat R E (copy_config env c)"
  unfolding copy_config_def
  by (intro sat_rules sat_reads sat_config_file_copy sat_write_file sat_ignore_os_error sat_chmod)

lemma sat_remove_or_restore: "p_sat R E (remove_or_restore_configs env s)"
proof (induction s)
  case (Cons e s)
  then show ?case
    by (cases e) (auto simp: remove_default_def
        intro!: sat_rules sat_remove sat_rmtree sat_config_file_copy)
qed (simp add: sat_return)

lemma sat_backup_entry: "p_sat R E (backup_entry env e s)"
  unfolding backup_entry_def Let_def by (intro sat_rules sat_config_file_copy)

lemma sat_backup_configs: "p_sat R E (backup_configs env c s)"
proof -
  have "p_sat R E (backup_entries env es s)" for es
    by (induction es arbitrary: s) (auto intro!: sat_rules sat_backup_entry)
  then show ?thesis unfolding backup_configs_def by (intro sat_rules)
qed

lemma sat_set_config: "p_sat R E (set_config env c)"
  unfolding set_config_def handle_defaults_def set_defaults_state_def
  by (intro sat_rules sat_get_defaults_state sat_remove_or_restore sat_backup_configs
      sat_write_file sat_copy_config sat_handle_permissions)

lemma sat_main_body:
  assumes "sce_strategy env = Some ''COPY_ONCE'' \<Longrightarrow> E (Exiting ImmutableConfig 0)"
  shows "p_sat R E (sc_main_body env check)"
proof -
  have "p_sat R E (execute_config_strategy env c)" for c
    unfolding execute_config_strategy_def
    by (intro sat_rules sat_raise sat_set_config sat_mknod assms) simp_all
  then show ?thesis
    unfolding sc_main_body_def
    by (intro sat_rules sat_load_config sat_execute_command_check sat_execute_config_check)
qed

lemma within_main: "p_within R (sc_main env check)"
proof -
  have "p_within R (execute_config_strategy env c)" for c
    unfolding execute_config_strategy_def
    by (intro within_intros within_branches p_sat_within [OF sat_set_config] p_sat_within [OF sat_mknod])
  then have "p_within R (sc_main_body env check)"
    unfolding sc_main_body_def
    by (intro within_intros within_branches p_sat_within [OF sat_load_config] p_sat_within [OF sat_execute_command_check]
        p_sat_within [OF sat_execute_config_check])
  then show ?thesis unfolding sc_main_def by (intro within_intros within_branches)
qed

end

end
