(* ===== verification/Config_File_Props.thy ===== *)
theory Config_File_Props
  imports Config_File File_System_Props
begin

text \<open>
  What the class \<open>ConfigFile\<close> does with a regular file at a plain path: the source is copied, and
  owner and mode come from the configuration or from the source; and what a later check answers.
\<close>

section \<open>Deleting\<close>

text \<open>The tree in which nothing is left at a position.\<close>

definition cleared :: "string list \<Rightarrow> 'c node \<Rightarrow> 'c node" where
  "cleared q root = (if fs_get root q = None then root else fs_del q root)"

lemma cleared_there: "q \<noteq> [] \<Longrightarrow> fs_get (cleared q root) q = None"
  by (simp add: cleared_def fs_get_del)

lemma cleared_apart: "apart q r \<Longrightarrow> fs_get (cleared q root) r = fs_get root r"
  by (simp add: cleared_def fs_get_del_apart)

lemma plain_at_cleared: "plain_at root q \<Longrightarrow> plain_at (cleared q root) q"
  by (simp add: cleared_def plain_at_del)

text \<open>A position where a file can be put: nothing there, or a regular file, and not on a read-only mount.\<close>

definition target_at :: "host \<Rightarrow> 'c node \<Rightarrow> string list \<Rightarrow> bool" where
  "target_at h root q \<longleftrightarrow> plain_at root q \<and> \<not> (\<exists>m es. fs_get root q = Some (Dir m es)) \<and> writable h q"

lemma target_at_code [code]: "target_at h root q \<longleftrightarrow> plain_at root q \<and> \<not> dir_at root q \<and> writable h q"
  by (simp add: target_at_def dir_at_iff)

lemma target_at_cases:
  assumes "target_at h root q"
  obtains "fs_get root q = None" | m x where "fs_get root q = Some (File m x)"
  using assms unfolding target_at_def plain_at_def is_link_node_def
  by (metis node.exhaust option.exhaust)

lemma target_at_cleared: "target_at h root q \<Longrightarrow> target_at h (cleared q root) q"
  by (auto simp: target_at_def plain_at_cleared cleared_there plain_at_def [of root q])

lemma delete_path_target:
  assumes "target_at (sce_host env) root q"
  shows "delete_path env (path_of q) root = (Inr (), cleared q root)"
proof -
  have "plain_at root q" using assms by (simp add: target_at_def)
  with assms show ?thesis
    by (cases rule: target_at_cases [OF assms])
      (simp_all add: delete_path_def p_bind_def p_gets_def p_return_def plain_queries
        plain_operations cleared_def target_at_def)
qed

lemma create_parent_dirs_plain:
  assumes "plain_at root q"
  shows "create_parent_dirs env (path_of q) root = (Inr (), root)"
  using os_exists_above [OF assms, of "sce_host env"]
  by (simp add: create_parent_dirs_def p_bind_def p_gets_def p_return_def)

section \<open>Copying one file\<close>

text \<open>Files at two different positions are apart.\<close>

lemma file_apart_target:
  assumes "fs_get root p = Some (File m x)" and "target_at h root q" and "p \<noteq> q"
  shows "apart q p"
  unfolding apart_def
proof
  show "\<not> prefix q p"
  proof
    assume "prefix q p"
    then obtain c r where "p = q @ c # r" using assms(3) by (metis neq_Nil_conv prefix_def self_append_conv)
    with fs_get_above [of root q c r] assms(1, 2) show False by (auto simp: target_at_def)
  qed
  show "\<not> prefix p q"
  proof
    assume "prefix p q"
    moreover have "q \<noteq> []" using assms(2) by (simp add: target_at_def plain_at_def)
    ultimately have "prefix p (butlast q)"
      using assms(3) by (metis append_butlast_last_id prefix_snoc)
    then obtain r where "butlast q = p @ r" by (auto simp: prefix_def)
    with assms(1, 2) show False
      by (cases r) (auto simp: target_at_def plain_at_def fs_get_append)
  qed
qed

text \<open>The file at \<open>q\<close> with the meta data \<open>m\<close>; the rest of the tree as in \<open>root\<close>.\<close>

definition file_placed :: "'c node \<Rightarrow> string list \<Rightarrow> meta \<Rightarrow> 'c \<Rightarrow> 'c node \<Rightarrow> bool" where
  "file_placed root q m x root' \<longleftrightarrow> plain_at root' q \<and> fs_get root' q = Some (File m x) \<and>
     (\<forall>r. apart q r \<longrightarrow> fs_get root' r = fs_get root r)"

lemma file_placed_put:
  "file_placed root q m x root' \<Longrightarrow> file_placed root q m' y (fs_put q (File m' y) root')"
  by (simp add: file_placed_def plain_at_put fs_get_put_plain fs_get_put_apart is_link_node_def)

lemma file_placed_new:
  "target_at h root q \<Longrightarrow> file_placed root q m x (fs_put q (File m x) (cleared q root))"
  by (simp add: file_placed_def plain_at_put fs_get_put_plain fs_get_put_apart is_link_node_def
      plain_at_cleared cleared_apart target_at_def)

lemma os_chmod_placed:
  assumes "file_placed root q m x root'" and "writable h q" and "c_int mode"
  shows "\<exists>root''. os_chmod wrap h (path_of q) mode root' = (Inr (), root'') \<and>
           file_placed root q (m\<lparr>m_mode := nat (mode mod 4096)\<rparr>) x root''"
  using assms file_placed_put [OF assms(1)] by (auto simp: file_placed_def os_chmod_plain)

lemma os_chown_placed:
  assumes "file_placed root q m x root'" and "writable h q"
  shows "\<exists>root''. os_chown wrap h (path_of q) uid gid root' = (Inr (), root'') \<and>
           file_placed root q (m\<lparr>m_uid := uid, m_gid := gid, m_mode := clear_setid (m_mode m)\<rparr>) x root''"
  using assms file_placed_put [OF assms(1)] by (auto simp: file_placed_def os_chown_plain)

lemma stat_meta_plain:
  "plain_at root q \<Longrightarrow> fs_get root q = Some (File m x) \<Longrightarrow> stat_meta env (path_of q) root = (Inr m, root)"
  by (simp add: stat_meta_def p_bind_def p_gets_def p_return_def os_stat_plain)

lemma shutil_copy_placed:
  assumes src: "names_ok p" "p \<noteq> []" "fs_get root p = Some (File m x)"
    and dst: "target_at (sce_host env) root q" "p \<noteq> q"
  shows "\<exists>root'. shutil_copy env (path_of p) (path_of q) (cleared q root) = (Inr (), root') \<and>
           file_placed root q ((new_file_meta (sce_host env))\<lparr>m_mode := m_mode m mod 4096\<rparr>) x root'"
proof -
  let ?h = "sce_host env"
  let ?w = "fs_put q (File (new_file_meta ?h) x) (cleared q root)"
  have q: "plain_at (cleared q root) q" "fs_get (cleared q root) q = None" "writable ?h q"
    using target_at_cleared [OF dst(1)] dst(1) by (auto simp: target_at_def cleared_there plain_at_def)
  have apart: "apart q p" by (rule file_apart_target [OF src(3) dst])
  then have p: "fs_get (cleared q root) p = Some (File m x)" "fs_get ?w p = Some (File m x)"
    using src(3) by (simp_all add: cleared_apart fs_get_put_apart)
  note plain_p = plain_at_file [OF src(1, 2) p(1)] plain_at_file [OF src(1, 2) p(2)]
  obtain root' where chmod: "os_chmod PyError ?h (path_of q) (S_IMODE (m_mode m)) ?w = (Inr (), root')"
      and placed: "file_placed root q ((new_file_meta ?h)\<lparr>m_mode := m_mode m mod 4096\<rparr>) x root'"
    using os_chmod_placed [OF file_placed_new [OF dst(1)] q(3) c_int_imode(1)] unfolding c_int_imode(2) by blast
  have "shutil_copy env (path_of p) (path_of q) (cleared q root) = (Inr (), root')"
    by (simp add: shutil_copy_def Let_def p_then_def p_bind_def p_gets_def os_isdir_plain [OF q(1)]
        os_exists_plain [OF q(1)] q(2) read_file_plain [OF plain_p(1) p(1)] write_file_plain [OF q]
        stat_meta_plain [OF plain_p(2) p(2)] chmod)
  with placed show ?thesis by blast
qed

text \<open>Properties from the source: the mode is copied before the owner, and the change of owner clears the set-id bits.\<close>

definition preserved_meta :: "meta \<Rightarrow> meta" where
  "preserved_meta m = \<lparr>m_mode = clear_setid (m_mode m mod 4096), m_uid = m_uid m, m_gid = m_gid m\<rparr>"

lemma meta_updates [simp]:
  "m\<lparr>m_uid := u, m_gid := g, m_mode := n\<rparr> = \<lparr>m_mode = n, m_uid = u, m_gid = g\<rparr>"
  "\<lparr>m_mode = k, m_uid = u, m_gid = g\<rparr>\<lparr>m_mode := n\<rparr> = \<lparr>m_mode = n, m_uid = u, m_gid = g\<rparr>"
  by (cases m) simp_all

lemma set_properties_from_file_placed:
  assumes "names_ok p" and "p \<noteq> []" and "fs_get root p = Some (File m x)" and "apart q p"
    and "file_placed root q m0 x root0" and "writable (sce_host env) q"
  shows "\<exists>root'. set_properties_from_file env (path_of p) (path_of q) root0 = (Inr (), root') \<and>
           file_placed root q (preserved_meta m) x root'"
proof -
  have "fs_get root0 p = Some (File m x)"
    using assms(3-5) by (simp add: file_placed_def)
  with assms(1, 2) have stat: "stat_meta env (path_of p) root0 = (Inr m, root0)"
    by (intro stat_meta_plain plain_at_file)
  obtain root1 where chmod: "os_chmod PyError (sce_host env) (path_of q) (S_IMODE (m_mode m)) root0 = (Inr (), root1)"
      and placed1: "file_placed root q (m0\<lparr>m_mode := m_mode m mod 4096\<rparr>) x root1"
    using os_chmod_placed [OF assms(5, 6) c_int_imode(1)] unfolding c_int_imode(2) by blast
  obtain root2 where "os_chown PyError (sce_host env) (path_of q) (m_uid m) (m_gid m) root1 = (Inr (), root2)"
      and "file_placed root q (preserved_meta m) x root2"
    using os_chown_placed [OF placed1 assms(6), of PyError "m_uid m" "m_gid m"]
    by (auto simp: preserved_meta_def)
  with stat chmod show ?thesis
    by (auto simp: set_properties_from_file_def p_then_def p_bind_def)
qed

text \<open>Properties from the configuration.\<close>

definition conf_meta :: "host \<Rightarrow> config_file \<Rightarrow> meta option" where
  "conf_meta h f =
     (case (cf_owner f, cf_perm f) of
        (Some ow, Some s) \<Rightarrow>
          (case (map_of (host_users h) (fst (user_group ow)), map_of (host_groups h) (snd (user_group ow)), perm_number s) of
             (Some uid, Some gid, Some n) \<Rightarrow>
               if s \<noteq> [] \<and> c_int n then Some \<lparr>m_mode = nat (n mod 4096), m_uid = uid, m_gid = gid\<rparr> else None
           | _ \<Rightarrow> None)
      | _ \<Rightarrow> None)"

lemma set_perms_placed:
  assumes "file_placed root q m x root0" and "writable (sce_host env) q" and "s \<noteq> []" and "perm_number s = Some n"
    and "c_int n"
  shows "\<exists>root'. set_perms env (path_of q) uid gid (Some s) root0 = (Inr (), root') \<and>
           file_placed root q \<lparr>m_mode = nat (n mod 4096), m_uid = uid, m_gid = gid\<rparr> x root'"
proof -
  obtain root1 where chown: "os_chown PyError (sce_host env) (path_of q) uid gid root0 = (Inr (), root1)"
      and placed1: "file_placed root q (m\<lparr>m_uid := uid, m_gid := gid, m_mode := clear_setid (m_mode m)\<rparr>) x root1"
    using os_chown_placed [OF assms(1, 2)] by blast
  obtain root2 where chmod: "os_chmod PyError (sce_host env) (path_of q) n root1 = (Inr (), root2)"
      and placed2: "file_placed root q \<lparr>m_mode = nat (n mod 4096), m_uid = uid, m_gid = gid\<rparr> x root2"
    using os_chmod_placed [OF placed1 assms(2, 5), of PyError] by auto
  have "plain_at root0 q" "fs_get root0 q = Some (File m x)" using assms(1) by (simp_all add: file_placed_def)
  moreover have "plain_at root1 q" "\<nexists>m es. fs_get root1 q = Some (Dir m es)"
    using placed1 by (simp_all add: file_placed_def)
  ultimately show ?thesis
    using placed2
    by (simp add: set_perms_def p_then_def p_bind_def p_gets_def p_return_def ignore_os_error_def
        p_catch_def os_exists_plain os_isdir_plain assms(3, 4) chown chmod)
qed

lemma glob_plain:
  assumes "plain_at root q" and "fs_get root q \<noteq> None" and "\<not> has_magic (path_of q)"
  shows "glob_glob h root (path_of q) = [path_of q]"
proof -
  obtain p c where q: "q = p @ [c]" using assms(1) by (metis append_butlast_last_id plain_at_def)
  then have "path_basename (path_of q) \<noteq> []"
    using assms(1) path_basename_of [of p c] by (simp add: plain_at_def plain_component_def)
  with assms show ?thesis by (simp add: glob_glob_def os_lexists_plain Let_def)
qed

lemma set_properties_from_conf_placed:
  assumes "file_placed root q m x root0" and "writable (sce_host env) q" and "conf_meta (sce_host env) f = Some m'"
    and "\<not> has_magic (path_of q)"
  shows "\<exists>root'. set_properties_from_conf env f (path_of q) root0 = (Inr (), root') \<and> file_placed root q m' x root'"
proof -
  obtain ow s uid gid n where f: "cf_owner f = Some ow" "cf_perm f = Some s"
      "map_of (host_users (sce_host env)) (fst (user_group ow)) = Some uid"
      "map_of (host_groups (sce_host env)) (snd (user_group ow)) = Some gid"
      "perm_number s = Some n" "s \<noteq> []" "c_int n" "m' = \<lparr>m_mode = nat (n mod 4096), m_uid = uid, m_gid = gid\<rparr>"
    using assms(3) by (auto simp: conf_meta_def split: option.splits if_splits)
  obtain root' where "set_perms env (path_of q) uid gid (Some s) root0 = (Inr (), root')"
      and "file_placed root q m' x root'"
    using set_perms_placed [OF assms(1, 2) f(6, 5, 7)] f(8) by blast
  moreover have "glob_glob (sce_host env) root0 (path_of q) = [path_of q]"
    using assms(1, 4) by (intro glob_plain) (simp_all add: file_placed_def)
  ultimately show ?thesis
    by (simp add: set_properties_from_conf_def handle_permissions_def handle_permission_def f(1-4)
        user_group_of_def lookup_id_def p_then_def p_bind_def p_gets_def p_return_def case_prod_beta)
qed

text \<open>The meta data a copied file ends with.\<close>

definition copied_meta :: "host \<Rightarrow> config_file \<Rightarrow> meta \<Rightarrow> meta option" where
  "copied_meta h f m = (if cf_preserve f then Some (preserved_meta m) else conf_meta h f)"

text \<open>A regular file that can be copied: the source is at \<open>p\<close>, the target \<open>q\<close> is another position.\<close>

definition copyable :: "sc_env \<Rightarrow> config_file \<Rightarrow> content node \<Rightarrow> string list \<Rightarrow> string list \<Rightarrow> bool" where
  "copyable env f root p q \<longleftrightarrow> cf_source f = path_of p \<and> cf_dest f = path_of q \<and>
     names_ok p \<and> p \<noteq> [] \<and> p \<noteq> q \<and> \<not> has_magic (path_of p) \<and> \<not> has_magic (path_of q) \<and>
     target_at (sce_host env) root q \<and> sce_depth env \<noteq> 0"

lemma copy_file_placed:
  assumes c: "copyable env f root p q" and src: "fs_get root p = Some (File m x)"
    and meta: "copied_meta (sce_host env) f m = Some m'" and root0: "root0 = root \<or> root0 = cleared q root"
  shows "\<exists>root'. copy_file env f (path_of p) (path_of q) root0 = (Inr (), root') \<and> file_placed root q m' x root'"
proof -
  have p: "names_ok p" "p \<noteq> []" "p \<noteq> q" and q: "target_at (sce_host env) root q" "writable (sce_host env) q"
      "\<not> has_magic (path_of q)"
    using c by (simp_all add: copyable_def target_at_def)
  have apart: "apart q p" by (rule file_apart_target [OF src q(1) p(3)])
  have "cleared q (cleared q root) = cleared q root"
    using q(1) cleared_there [of q root] by (simp add: cleared_def [of q "cleared q root"] target_at_def plain_at_def)
  then have delete: "delete_path env (path_of q) root0 = (Inr (), cleared q root)"
    using root0 delete_path_target [OF q(1)] delete_path_target [OF target_at_cleared [OF q(1)]] by auto
  have "fs_get (cleared q root) p = Some (File m x)" using src apart by (simp add: cleared_apart)
  then have "os_readlink (sce_host env) (cleared q root) (path_of p) = None"
    using p by (simp add: os_readlink_def os_lstat_plain plain_at_file)
  moreover obtain root1 m1 where copy: "shutil_copy env (path_of p) (path_of q) (cleared q root) = (Inr (), root1)"
      and placed1: "file_placed root q m1 x root1"
    using shutil_copy_placed [OF p(1, 2) src q(1) p(3)] by blast
  moreover obtain root2 where "set_properties env f (path_of p) (path_of q) root1 = (Inr (), root2)"
      and "file_placed root q m' x root2"
    using meta set_properties_from_file_placed [OF p(1, 2) src apart placed1 q(2)]
      set_properties_from_conf_placed [OF placed1 q(2) _ q(3)]
    by (auto simp: copied_meta_def set_properties_def split: if_splits)
  ultimately show ?thesis
    by (simp add: copy_file_def p_then_def p_bind_def p_gets_def delete)
qed

lemma config_file_copy_placed:
  assumes c: "copyable env f root p q" and src: "fs_get root p = Some (File m x)"
    and meta: "copied_meta (sce_host env) f m = Some m'"
  shows "\<exists>root'. config_file_copy env f root = (Inr (), root') \<and> file_placed root q m' x root'"
proof -
  define root0 where "root0 = (if cf_merge f then root else cleared q root)"
  have root0: "root0 = root \<or> root0 = cleared q root" by (simp add: root0_def)
  have p: "names_ok p" "p \<noteq> []" "p \<noteq> q" and q: "target_at (sce_host env) root q" "plain_at root q" "names_ok q" "q \<noteq> []"
    using c by (simp_all add: copyable_def target_at_def plain_at_def)
  obtain k where k: "sce_depth env = Suc k" using c by (cases "sce_depth env") (auto simp: copyable_def)
  have p0: "fs_get root0 p = Some (File m x)"
    using root0 src file_apart_target [OF src q(1) p(3)] by (auto simp: cleared_apart)
  then have not_dir: "\<not> os_isdir (sce_host env) root0 (path_of p)"
    using p by (simp add: os_isdir_plain plain_at_file)
  have "plain_at root0 q" using root0 q(2) plain_at_cleared by auto
  then have parent: "create_parent_dirs env (path_of q) root0 = (Inr (), root0)"
    by (rule create_parent_dirs_plain)
  obtain root' where copy: "copy_file env f (path_of p) (path_of q) root0 = (Inr (), root')"
      and placed: "file_placed root q m' x root'"
    using copy_file_placed [OF c src meta root0] by blast
  have "merge_directories (Suc k) env f (path_of p) (path_of q) root0 = (Inr (), root')"
    by (simp add: p_bind_def p_gets_def not_dir copy)
  moreover have "entry_dest (cf_dest f) (path_of p) = path_of q"
    using c path_of_no_end_slash [OF q(3, 4)] by (simp add: entry_dest_def copyable_def)
  moreover have "(if cf_merge f then p_return () else delete_path env (path_of q)) root = (Inr (), root0)"
    using delete_path_target [OF q(1)] by (simp add: root0_def p_return_def)
  ultimately have "copy_source env f (path_of p) root = (Inr (), root')"
    by (simp add: copy_source_def Let_def p_then_def p_bind_def parent k)
  moreover have "glob_glob (sce_host env) root (cf_source f) = [path_of p]"
    using c src by (simp add: copyable_def glob_plain plain_at_file)
  ultimately show ?thesis
    using placed by (simp add: config_file_copy_def p_then_def p_bind_def p_gets_def p_return_def)
qed

section \<open>Modes as strings\<close>

lemma of_char_octal_digit: "of_char (octal_digit n) = 48 + n mod 8" for n :: nat
  by (simp add: octal_digit_def)

lemma digit_value_octal: "digit_value (octal_digit n) = Some (n mod 8)"
proof -
  have "n mod 8 < 8" by simp
  then show ?thesis unfolding digit_value_def Let_def of_char_octal_digit by simp
qed

lemma octal_digit_not_o: "octal_digit n \<noteq> CHR ''o''"
  using digit_value_octal [of n] by (auto simp: digit_value_def)

lemma octal_digit_zero: "octal_digit n = CHR ''0'' \<longleftrightarrow> n mod 8 = 0"
proof
  assume "octal_digit n = CHR ''0''"
  then show "n mod 8 = 0" using of_char_octal_digit [of n] by simp
next
  assume "n mod 8 = 0"
  then have "(of_char (octal_digit n) :: nat) = of_char CHR ''0''"
    by (simp add: of_char_octal_digit)
  then show "octal_digit n = CHR ''0''" by (simp only: of_char_eq_iff)
qed

lemma octal_literal_octal4:
  "octal_literal (octal4 n) =
     octal_digit (n div 512) # CHR ''o'' # map octal_digit [n div 64, n div 8, n]"
  by (simp add: octal_literal_def octal4_def octal_digit_not_o)

lemma octal_digits:
  fixes n :: nat
  assumes "n < 4096"
  shows "((n div 512 mod 8 * 8 + n div 64 mod 8) * 8 + n div 8 mod 8) * 8 + n mod 8 = n"
proof -
  have steps: "n div 64 = n div 8 div 8" "n div 512 = n div 8 div 8 div 8"
    by (simp_all add: div_mult2_eq [symmetric])
  have "n div 512 < 8" using assms by (intro less_mult_imp_div_less) simp
  then have "n div 512 mod 8 = n div 512" by simp
  then show ?thesis unfolding steps by (simp only: div_mult_mod_eq)
qed

lemma octal_digit_plain: "\<not> is_space (octal_digit n)" "octal_digit n \<notin> {CHR ''_'', CHR ''-'', CHR ''+''}"
proof -
  have "(of_char (octal_digit n) :: nat) \<in> {48..55}" by (simp add: of_char_octal_digit)
  then show "\<not> is_space (octal_digit n)" "octal_digit n \<notin> {CHR ''_'', CHR ''-'', CHR ''+''}"
    by (auto simp: is_space_def)
qed

lemma perm_number_octal4:
  assumes "n < 4096"
  shows "perm_number (octal4 n) = (if n < 512 then Some (int n) else None)"
proof -
  let ?ds = "map octal_digit [n div 64, n div 8, n]"
  have strip: "py_strip (octal_literal (octal4 n)) = octal_literal (octal4 n)"
    by (simp add: octal_literal_octal4 py_strip_def octal_digit_plain)
  have unsigned: "signed_value literal_value (octal_literal (octal4 n)) =
      map_option int (literal_value (octal_literal (octal4 n)))"
    using octal_digit_plain(2) [of "n div 512"] by (auto simp: signed_value_def octal_literal_octal4 py_startswith_def)
  have digits: "digits_value 8 False 0 ?ds = Some ((n div 64 mod 8 * 8 + n div 8 mod 8) * 8 + n mod 8)"
    using octal_digit_plain(2) by (simp add: digit_value_octal)
  have "literal_value (octal_literal (octal4 n)) = (if n < 512 then Some n else None)"
  proof (cases "n < 512")
    case True
    then have "octal_digit (n div 512) = CHR ''0''" by (simp add: octal_digit_zero)
    moreover have "(n div 64 mod 8 * 8 + n div 8 mod 8) * 8 + n mod 8 = n"
      using octal_digits [OF assms] True by simp
    moreover have "\<not> py_startswith ?ds ''_''" using octal_digit_plain(2) by (simp add: py_startswith_def)
    ultimately show ?thesis
      using True digits by (simp add: octal_literal_octal4 literal_value_def prefix_base_def del: digits_value.simps list.map)
  next
    case False
    have "n div 512 < 8" using assms by (intro less_mult_imp_div_less) simp
    with False have "n div 512 mod 8 \<noteq> 0" by (simp add: div_eq_0_iff)
    then have "octal_digit (n div 512) \<noteq> CHR ''0''" by (simp add: octal_digit_zero)
    moreover have "digit_value CHR ''o'' = Some 24" by (simp add: digit_value_def)
    moreover have "octal_digit (n div 512) \<noteq> CHR ''_''" using octal_digit_plain(2) by blast
    ultimately show ?thesis
      using False by (simp add: octal_literal_octal4 literal_value_def digit_value_octal)
  qed
  then show ?thesis unfolding perm_number_def py_int0_def strip unsigned by simp
qed

lemma octal4_inject: "m < 4096 \<Longrightarrow> n < 4096 \<Longrightarrow> octal4 m = octal4 n \<Longrightarrow> m = n" for m n :: nat
proof -
  assume bounds: "m < 4096" "n < 4096" and eq: "octal4 m = octal4 n"
  have "j mod 8 = k mod 8" if "octal_digit j = octal_digit k" for j k
    using digit_value_octal [of j] digit_value_octal [of k] that by simp
  moreover have "octal_digit (m div 512) = octal_digit (n div 512)" "octal_digit (m div 64) = octal_digit (n div 64)"
      "octal_digit (m div 8) = octal_digit (n div 8)" "octal_digit m = octal_digit n"
    using eq by (simp_all only: octal4_def list.map list.inject)
  ultimately have digits: "m div 512 mod 8 = n div 512 mod 8" "m div 64 mod 8 = n div 64 mod 8"
      "m div 8 mod 8 = n div 8 mod 8" "m mod 8 = n mod 8"
    by blast+
  have "m = ((m div 512 mod 8 * 8 + m div 64 mod 8) * 8 + m div 8 mod 8) * 8 + m mod 8"
    by (rule octal_digits [OF bounds(1), symmetric])
  also have "\<dots> = ((n div 512 mod 8 * 8 + n div 64 mod 8) * 8 + n div 8 mod 8) * 8 + n mod 8"
    by (simp only: digits)
  also have "\<dots> = n" by (rule octal_digits [OF bounds(2)])
  finally show "m = n" .
qed

lemma bit_dir_perm:
  "bit (dir_perm n) i \<longleftrightarrow> bit n i \<or> (i = 6 \<and> bit n 8) \<or> (i = 3 \<and> bit n 5) \<or> (i = 0 \<and> bit n 2)"
proof -
  have test: "(k AND 2 ^ j = 0) = (\<not> bit k j)" for k :: int and j :: nat
    by (rule and_exp_eq_0_iff_not_bit)
  have set: "bit (2 ^ j :: int) k \<longleftrightarrow> j = k" for j k :: nat
    by (auto simp: bit_exp_iff)
  show ?thesis
    unfolding dir_perm_def Let_def
    using test [of _ 8] test [of _ 5] test [of _ 2] set [of 6] set [of 3] set [of 0]
    by (auto simp: bit_or_iff)
qed

section \<open>Checking\<close>

text \<open>The data base of users (or groups) names the number of a name by that name again.\<close>

definition named_back :: "(string \<times> nat) list \<Rightarrow> string \<Rightarrow> bool" where
  "named_back db name \<longleftrightarrow>
     (case map_of db name of None \<Rightarrow> False | Some k \<Rightarrow> map_option fst (find (\<lambda>(x, j). j = k) db) = Some name)"

lemma lookup_name_back:
  "named_back db name \<Longrightarrow> map_of db name = Some k \<Longrightarrow> lookup_name db k s = (Inr name, s)"
  by (auto simp: named_back_def lookup_name_def p_return_def split: option.splits)

lemma cmp_file_without_perm: "cf_perm f = None \<Longrightarrow> fst (cmp_file env f src dest root) \<noteq> Inr True"
  by (simp add: cmp_file_def p_bind_def p_gets_def p_return_def split: prod.split sum.split)

lemma cmp_file_placed:
  assumes placed: "file_placed root q m x root'" and "plain_at root' p" and "fs_get root' p = Some (File m0 x)"
    and perm: "cf_perm f = Some (octal4 (m_mode m))"
    and own: "cf_owner f = Some ow" "map_of (host_users (sce_host env)) (fst (user_group ow)) = Some (m_uid m)"
      "map_of (host_groups (sce_host env)) (snd (user_group ow)) = Some (m_gid m)"
    and named: "named_back (host_users (sce_host env)) (fst (user_group ow))"
      "named_back (host_groups (sce_host env)) (snd (user_group ow))"
  shows "cmp_file env f (path_of p) (path_of q) root' = (Inr True, root')"
proof -
  have q: "plain_at root' q" "fs_get root' q = Some (File m x)" using placed by (simp_all add: file_placed_def)
  show ?thesis
    by (simp add: cmp_file_def p_bind_def p_gets_def p_return_def plain_queries assms(2, 3) q
        read_file_plain [OF assms(2, 3)] read_file_plain [OF q] stat_meta_plain [OF q] perm
        user_group_of_def own(1) case_prod_beta lookup_name_back [OF named(1) own(2)]
        lookup_name_back [OF named(2) own(3)])
qed

end
