(* ===== verification/Container_Frames.thy ===== *)
theory Container_Frames
  imports Container_Programs Config_File_Props
begin

text \<open>
  What the programs of \<open>set\_configs.py\<close> may change, as relations between the tree before and after
  them that hold whether they return or raise: the well-formedness of the tree, which every program
  keeps; everything but modes and owners, for the permissions; everything there is, for the check.
\<close>

section \<open>Well-formed trees\<close>

definition name_ok :: "string \<Rightarrow> bool" where
  "name_ok c \<longleftrightarrow> plain_component c \<and> slash \<notin> set c"

fun node_ok :: "'c node \<Rightarrow> bool" where
  "node_ok (Dir m es) \<longleftrightarrow> m_mode m < 4096 \<and> distinct (map fst es) \<and>
     list_all (\<lambda>e. name_ok (fst e) \<and> node_ok (snd e)) es"
| "node_ok (File m x) \<longleftrightarrow> m_mode m < 4096"
| "node_ok (Link t) \<longleftrightarrow> True"

definition host_ok :: "host \<Rightarrow> bool" where
  "host_ok h \<longleftrightarrow> names_ok (host_cwd h) \<and> host_dir_mode h < 4096 \<and> host_file_mode h < 4096"

lemma names_ok_name_ok: "names_ok q \<longleftrightarrow> list_all name_ok q"
  by (simp add: names_ok_def name_ok_def list_all_iff)

lemma node_ok_map_of:
  "list_all (\<lambda>e. name_ok (fst e) \<and> node_ok (snd e)) es \<Longrightarrow> map_of es c = Some n \<Longrightarrow> node_ok n"
  by (induction es) (auto split: if_splits)

lemma entries_ok_dict_set:
  "list_all (\<lambda>e. name_ok (fst e) \<and> node_ok (snd e)) es \<Longrightarrow> name_ok c \<Longrightarrow> node_ok n \<Longrightarrow>
     list_all (\<lambda>e. name_ok (fst e) \<and> node_ok (snd e)) (dict_set c n es)"
  by (induction es) (auto split: if_splits)

lemma node_ok_get: "node_ok n \<Longrightarrow> fs_get n q = Some x \<Longrightarrow> node_ok x"
proof (induction q arbitrary: n)
  case (Cons c q)
  then show ?case by (cases n) (auto split: option.splits dest: node_ok_map_of)
qed simp

lemma node_ok_dict_set:
  "node_ok (Dir m es) \<Longrightarrow> name_ok c \<Longrightarrow> node_ok n \<Longrightarrow> node_ok (Dir m (dict_set c n es))"
  by (simp add: entries_ok_dict_set dict_distinct_set)

lemma node_ok_put: "node_ok n \<Longrightarrow> node_ok x \<Longrightarrow> names_ok q \<Longrightarrow> node_ok (fs_put q x n)"
proof (induction q arbitrary: n)
  case (Cons c q)
  have c: "name_ok c" using Cons.prems by (simp add: name_ok_def)
  show ?case
  proof (cases n)
    case (Dir m es)
    show ?thesis
    proof (cases "map_of es c")
      case None
      with Dir Cons.prems node_ok_dict_set [of m es c x] c show ?thesis
        by (simp del: node_ok.simps)
    next
      case (Some y)
      then have "node_ok (fs_put q x y)"
        using Dir Cons.prems by (intro Cons.IH) (auto dest: node_ok_map_of)
      with Dir Some Cons.prems node_ok_dict_set c show ?thesis
        by (simp del: node_ok.simps)
    qed
  qed (use Cons.prems in simp_all)
qed simp

lemma distinct_map_filter: "distinct (map f xs) \<Longrightarrow> distinct (map f (filter P xs))"
  by (induction xs) auto

lemma node_ok_del: "node_ok n \<Longrightarrow> names_ok q \<Longrightarrow> node_ok (fs_del q n)"
proof (induction q arbitrary: n)
  case (Cons c q)
  have c: "name_ok c" using Cons.prems by (simp add: name_ok_def)
  show ?case
  proof (cases n)
    case (Dir m es)
    show ?thesis
    proof (cases "q = []")
      case True
      with Dir Cons.prems show ?thesis
        by (auto simp: list_all_iff intro: distinct_map_filter)
    next
      case False
      show ?thesis
      proof (cases "map_of es c")
        case (Some y)
        then have "node_ok (fs_del q y)"
          using Dir Cons.prems by (intro Cons.IH) (auto dest: node_ok_map_of)
        with Dir Some False Cons.prems node_ok_dict_set c show ?thesis
          by (simp del: node_ok.simps)
      qed (use Dir False Cons.prems in simp)
    qed
  qed (use Cons.prems in simp_all)
qed simp

lemma names_ok_butlast: "names_ok q \<Longrightarrow> names_ok (butlast q)"
  by (auto simp: names_ok_def dest: in_set_butlastD)

lemma resolve_names_ok:
  "names_ok acc \<Longrightarrow> \<forall>c \<in> set cs. slash \<notin> set c \<Longrightarrow> resolve root k f acc cs = Some q \<Longrightarrow> names_ok q"
proof (induction k acc cs rule: resolve_induct [where root = root and f = f])
  case (follow k acc c cs t)
  have "resolve root k f (if py_startswith t ''/'' then [] else acc) (py_split slash t @ cs) = Some q"
    using follow.prems(3) resolve_follow [OF follow(1-3)] by simp
  moreover have "\<forall>c \<in> set (py_split slash t @ cs). slash \<notin> set c"
    using follow.prems(2) py_split_no_sep_inside by auto
  ultimately show ?case using follow.IH follow.prems(1) by simp
next
  case (up k acc c cs)
  then show ?case using names_ok_butlast by (simp add: resolve_steps)
qed (auto simp: resolve_steps split: if_splits)

lemma locate_names_ok:
  assumes "host_ok h" and "locate h root f p = Some q"
  shows "names_ok q"
proof (rule resolve_names_ok)
  show "names_ok (if py_startswith p ''/'' then [] else host_cwd h)"
    using assms(1) by (simp add: host_ok_def)
  show "\<forall>c \<in> set (py_split slash p). slash \<notin> set c"
    using py_split_no_sep_inside by blast
  show "resolve root max_links f (if py_startswith p ''/'' then [] else host_cwd h) (py_split slash p) = Some q"
    using assms(2) by (simp add: locate_def split: if_splits)
qed

definition keeps_ok :: "'c node \<Rightarrow> 'c node \<Rightarrow> bool" where
  "keeps_ok s t \<longleftrightarrow> (node_ok s \<longrightarrow> node_ok t)"

interpretation ok_frame: state_frame keeps_ok
  by unfold_locales (simp_all add: keeps_ok_def)

text \<open>A program that looks at the tree and then changes it.\<close>

lemma within_root:
  "(\<And>s. R s (snd (k s s))) \<Longrightarrow> p_within R (p_bind (p_gets (\<lambda>root. root)) k)"
  by (simp add: p_within_def p_bind_def p_gets_def)

lemma alter_run: "f s = t \<Longrightarrow> R s s \<Longrightarrow> R s t \<Longrightarrow> R s (snd (alter wrap h p q f s))"
  by (auto simp: alter_def p_raise_def p_modify_def)

lemma ok_put:
  assumes "host_ok h" and "locate h s b p = Some q" and "node_ok s \<Longrightarrow> node_ok n"
  shows "keeps_ok s (snd (alter wrap h p q (fs_put q n) s))"
  using assms node_ok_put [of s n q] locate_names_ok [OF assms(1, 2)]
  by (simp add: alter_def p_raise_def p_modify_def keeps_ok_def)

lemma ok_del:
  assumes "names_ok q"
  shows "p_within keeps_ok (alter wrap h p q (fs_del q))"
  using assms node_ok_del by (auto simp: p_within_def alter_def p_raise_def p_modify_def keeps_ok_def)

lemma ok_raise: "keeps_ok s (snd (p_raise e s))"
  by (simp add: p_raise_def keeps_ok_def)

lemma ok_within_create:
  assumes "host_ok h" and "node_ok n"
  shows "p_within keeps_ok (create wrap h p n)"
  unfolding create_def
  by (rule within_root) (auto simp: ok_raise assms intro!: ok_put split: option.split)

lemma ok_within_write_file: "host_ok h \<Longrightarrow> p_within keeps_ok (write_file wrap h p x)"
  unfolding write_file_def
  by (rule within_root)
    (auto simp: ok_raise host_ok_def intro!: ok_put dest: node_ok_get split: option.split node.split)

lemma ok_set_meta: "node_ok n \<Longrightarrow> m_mode m < 4096 \<Longrightarrow> node_ok (set_meta m n)"
  by (cases n) simp_all

lemma node_ok_meta: "node_ok n \<Longrightarrow> node_meta n = Some m \<Longrightarrow> m_mode m < 4096"
  by (cases n) auto

lemma ok_within_change_meta:
  assumes "host_ok h" and "\<And>d m. m_mode m < 4096 \<Longrightarrow> m_mode (f d m) < 4096"
  shows "p_within keeps_ok (change_meta wrap h p f)"
  unfolding change_meta_def
  by (rule within_root)
    (auto simp: ok_raise assms(1) intro!: ok_put ok_set_meta assms(2) dest: node_ok_get node_ok_meta split: option.split)

lemma clear_setid_le: "clear_setid m \<le> m"
  by (auto simp: clear_setid_def Let_def intro: le_trans [OF diff_le_self])

lemma ok_within_chmod: "host_ok h \<Longrightarrow> p_within keeps_ok (os_chmod wrap h p mode)"
  unfolding os_chmod_def by (auto intro!: ok_within_change_meta ok_frame.within_if ok_frame.within_raise simp: nat_less_iff)

lemma ok_within_chown: "host_ok h \<Longrightarrow> p_within keeps_ok (os_chown wrap h p uid gid)"
  unfolding os_chown_def
  by (rule ok_within_change_meta) (auto intro: le_less_trans [OF clear_setid_le])

lemma ok_within_remove: "host_ok h \<Longrightarrow> p_within keeps_ok (os_remove wrap h p)"
  unfolding os_remove_def
  by (rule within_root)
    (auto simp: ok_raise dest!: locate_names_ok intro!: p_withinD [OF ok_del] split: option.split)

lemma tree_paths_names_ok:
  "node_ok n \<Longrightarrow> names_ok q \<Longrightarrow> \<forall>r \<in> set (tree_paths q n). names_ok r"
  "list_all (\<lambda>e. name_ok (fst e) \<and> node_ok (snd e)) es \<Longrightarrow> names_ok q \<Longrightarrow>
     \<forall>r \<in> set (entries_paths q es). names_ok r"
  for n :: "'c node" and es :: "(string \<times> 'c node) list"
  by (induction q n and q es rule: tree_paths_entries_paths.induct) (auto simp: name_ok_def)

lemma ok_within_rmtree:
  assumes "host_ok h"
  shows "p_within keeps_ok (shutil_rmtree wrap h p)"
  unfolding shutil_rmtree_def
proof (rule within_root)
  fix s
  show "keeps_ok s (snd ((case locate h s False p of
          None \<Rightarrow> p_raise (wrap (OSError p))
        | Some q \<Rightarrow>
            (case fs_get s q of
               Some (Dir m es) \<Rightarrow> p_for (tree_paths q (Dir m es)) (\<lambda>r. alter wrap h p r (fs_del r))
             | _ \<Rightarrow> p_raise (wrap (OSError p)))) s))" (is "keeps_ok s (snd (?m s))")
  proof (cases "node_ok s")
    case True
    have "p_within keeps_ok (p_for (tree_paths q n) (\<lambda>r. alter wrap h p r (fs_del r)))"
      if "locate h s False p = Some q" and "fs_get s q = Some n" for q n
      using tree_paths_names_ok(1) [OF node_ok_get [OF True that(2)] locate_names_ok [OF assms that(1)]]
      by (intro ok_frame.within_for ok_del) blast
    then show ?thesis
      by (auto simp: ok_raise simp del: tree_paths.simps dest: p_withinD split: option.split node.split)
  qed (simp add: keeps_ok_def)
qed

lemmas ok_operations =
  ok_within_create ok_within_write_file ok_within_chmod ok_within_chown ok_within_remove ok_within_rmtree

text \<open>On a host whose own values are well formed, every program keeps the tree well formed.\<close>

definition keeps_ok_on :: "sc_env \<Rightarrow> 'c node \<Rightarrow> 'c node \<Rightarrow> bool" where
  "keeps_ok_on env s t \<longleftrightarrow> (host_ok (sce_host env) \<longrightarrow> keeps_ok s t)"

text \<open>The operations on files raise nothing but an \<open>OSError\<close>.\<close>

definition nonzero_exit :: "sc_exn \<Rightarrow> bool" where
  "nonzero_exit e \<longleftrightarrow> exit_code_of e \<in> {1, 2}"

lemma nonzero_exit_simps [simp]: "nonzero_exit (PyError e)" "nonzero_exit (Exiting c 1)"
    "nonzero_exit (Exiting c (Suc 0))"
  by (simp_all add: nonzero_exit_def exit_code_of_def)

definition os_error :: "sc_exn \<Rightarrow> bool" where
  "os_error e \<longleftrightarrow> (\<exists>p. e = PyError (OSError p))"

interpretation failing: program_frame "\<lambda>s t. True" os_error
  by unfold_locales simp_all

abbreviation fails_only_os :: "'a sc_prog \<Rightarrow> bool" where
  "fails_only_os m \<equiv> p_sat (\<lambda>s t. True) os_error m"

lemma failing_raise: "fails_only_os (p_raise (PyError (OSError p)))"
  by (rule failing.sat_raise) (simp add: os_error_def)

lemma failing_alter: "fails_only_os (alter PyError h p q f)"
  unfolding alter_def
  by (intro failing.sat_if failing_raise) (simp add: p_sat_def p_within_def p_modify_def)

lemma failing_node:
  "(\<And>m es. p_sat R E (f m es)) \<Longrightarrow> (\<And>m x. p_sat R E (g m x)) \<Longrightarrow> (\<And>t. p_sat R E (h t)) \<Longrightarrow>
     p_sat R E (case n of Dir m es \<Rightarrow> f m es | File m x \<Rightarrow> g m x | Link t \<Rightarrow> h t)"
  by (simp split: node.split)

lemmas failing_intros = failing.sat_intros failing_raise failing_alter failing_node

lemma failing_operations:
  "fails_only_os (create PyError h p n)"
  "fails_only_os (write_file PyError h p x)"
  "fails_only_os (change_meta PyError h p f)"
  "fails_only_os (os_remove PyError h p)"
  "fails_only_os (shutil_rmtree PyError h p)"
  unfolding create_def write_file_def change_meta_def os_remove_def shutil_rmtree_def
  by (intro failing_intros)+

lemma sat_of_within: "p_within R m \<Longrightarrow> fails_only_os m \<Longrightarrow> p_sat R nonzero_exit m"
  unfolding p_sat_def os_error_def using nonzero_exit_simps(1) by blast

lemma sat_chmod_of_within:
  assumes "p_within R (os_chmod PyError h p mode)"
  shows "p_sat R nonzero_exit (os_chmod PyError h p mode :: unit sc_prog)"
proof (cases "c_int mode")
  case True
  then show ?thesis
    using assms sat_of_within [OF _ failing_operations(3)] by (simp add: os_chmod_def)
next
  case False
  then show ?thesis using assms by (simp add: os_chmod_def p_sat_def p_raise_def)
qed

lemma within_keeps_ok_on:
  "(host_ok (sce_host env) \<Longrightarrow> p_within keeps_ok m) \<Longrightarrow> p_within (keeps_ok_on env) m"
  by (auto simp: p_within_def keeps_ok_on_def)

interpretation tree_ok: change_frame "keeps_ok_on env" nonzero_exit env for env
proof unfold_locales
  fix p t :: string and x uid gid mode
  let ?h = "sce_host env"
  note sat = sat_of_within [OF within_keeps_ok_on]
  note within = ok_operations [where wrap = PyError]
  show "p_sat (keeps_ok_on env) nonzero_exit (os_chmod PyError ?h p mode :: unit sc_prog)"
    by (rule sat_chmod_of_within [OF within_keeps_ok_on], erule within(3))
  show "p_sat (keeps_ok_on env) nonzero_exit (os_chown PyError ?h p uid gid :: unit sc_prog)"
    by (rule sat, erule within(4)) (simp_all add: os_chown_def failing_operations)
  show "p_sat (keeps_ok_on env) nonzero_exit (os_remove PyError ?h p :: unit sc_prog)"
    by (rule sat, erule within(5)) (simp_all add: failing_operations)
  show "p_sat (keeps_ok_on env) nonzero_exit (shutil_rmtree PyError ?h p :: unit sc_prog)"
    by (rule sat, erule within(6)) (simp_all add: failing_operations)
  show "p_sat (keeps_ok_on env) nonzero_exit (write_file PyError ?h p x :: unit sc_prog)"
    by (rule sat, erule within(2)) (simp_all add: failing_operations)
  show "p_sat (keeps_ok_on env) nonzero_exit (os_mkdir PyError ?h p :: unit sc_prog)"
    unfolding os_mkdir_def by (rule sat, rule within(1)) (auto simp: host_ok_def failing_operations)
  show "p_sat (keeps_ok_on env) nonzero_exit (os_symlink PyError ?h t p :: unit sc_prog)"
    unfolding os_symlink_def by (rule sat, erule within(1)) (auto simp: failing_operations)
  show "p_sat (keeps_ok_on env) nonzero_exit (os_mknod env p)"
    unfolding os_mknod_def by (rule sat, erule within(1)) (auto simp: failing_operations)
qed (simp_all add: keeps_ok_on_def keeps_ok_def)

text \<open>What \<open>main\<close> can raise before it turns it into an exit code.\<close>

definition small_exit :: "sc_exn \<Rightarrow> bool" where
  "small_exit e \<longleftrightarrow> exit_code_of e \<le> 2"

lemma sat_small: "p_sat R nonzero_exit m \<Longrightarrow> p_sat (\<lambda>s t. True) small_exit m"
  unfolding p_sat_def p_within_def nonzero_exit_def small_exit_def by fastforce

interpretation exits: change_frame "\<lambda>s t. True" small_exit env for env
  by unfold_locales
    (auto simp: small_exit_def exit_code_of_def intro: sat_small tree_ok.sat_chmod tree_ok.sat_chown tree_ok.sat_mkdir
      tree_ok.sat_remove tree_ok.sat_rmtree tree_ok.sat_symlink tree_ok.sat_write_file tree_ok.sat_mknod)

section \<open>Everything but modes and owners\<close>

definition same_contents :: "'c node \<Rightarrow> 'c node \<Rightarrow> bool" where
  "same_contents s t \<longleftrightarrow> strip s = strip t"

lemma same_contents_change_meta: "p_within same_contents (change_meta wrap h p f)"
  unfolding change_meta_def
  by (rule within_root)
    (auto simp: same_contents_def p_raise_def alter_def p_modify_def strip_put split: option.split)

lemma same_contents_chmod: "p_within same_contents (os_chmod wrap h p mode)"
proof (cases "c_int mode")
  case True
  then show ?thesis by (simp add: os_chmod_def same_contents_change_meta)
qed (simp add: os_chmod_def p_within_def p_raise_def same_contents_def)

interpretation contents: meta_frame same_contents nonzero_exit env for env
proof unfold_locales
  fix p uid gid mode
  show "p_sat same_contents nonzero_exit (os_chmod PyError (sce_host env) p mode :: unit sc_prog)"
    and "p_sat same_contents nonzero_exit (os_chown PyError (sce_host env) p uid gid :: unit sc_prog)"
    by (rule sat_chmod_of_within [OF same_contents_chmod])
      (simp add: os_chown_def sat_of_within [OF same_contents_change_meta failing_operations(3)])
qed (simp_all add: same_contents_def)

lemma same_contents_file:
  assumes "same_contents s t" and "os_stat h s p = Some (File m x)"
  shows "\<exists>m'. os_stat h t p = Some (File m' x)"
proof -
  obtain q where q: "locate h s True p = Some q" "fs_get s q = Some (File m x)"
    using assms(2) by (auto simp: os_stat_def split: option.splits)
  have "locate h t True p = Some q"
    using q(1) assms(1) locate_strip [of h s] locate_strip [of h t] by (simp add: same_contents_def)
  moreover have "map_option strip (fs_get t q) = Some (File no_meta x)"
    using assms(1) q(2) fs_get_strip [of s q] fs_get_strip [of t q] by (simp add: same_contents_def)
  then obtain n where "fs_get t q = Some n" "strip n = File no_meta x" by auto
  ultimately show ?thesis by (cases n) (auto simp: os_stat_def)
qed

section \<open>Everything there is\<close>

text \<open>A directory may gain entries, a name that is missing may become a directory, all else stays.\<close>

definition grown :: "'c node option \<Rightarrow> 'c node option \<Rightarrow> bool" where
  "grown a b \<longleftrightarrow>
     (case a of
        None \<Rightarrow> b = None \<or> (\<exists>m es. b = Some (Dir m es))
      | Some (Dir m es) \<Rightarrow> \<exists>es'. b = Some (Dir m es')
      | _ \<Rightarrow> b = a)"

definition only_grown :: "'c node \<Rightarrow> 'c node \<Rightarrow> bool" where
  "only_grown s t \<longleftrightarrow> (\<forall>q. grown (fs_get s q) (fs_get t q))"

lemma grown_refl: "grown a a"
  by (simp add: grown_def split: option.split node.split)

lemma grown_trans: "grown a b \<Longrightarrow> grown b c \<Longrightarrow> grown a c"
  by (auto simp: grown_def split: option.splits node.splits)

lemma only_grown_new_dir:
  assumes "fs_get s q = None" and "q \<noteq> []" and "fs_get s (butlast q) = Some (Dir m0 es0)"
  shows "only_grown s (fs_put q (Dir m []) s)"
  unfolding only_grown_def
proof
  fix r
  consider (apart) "apart q r" | (below) u where "r = q @ u" | (above) c u where "q = r @ c # u"
    unfolding apart_def prefix_def by (metis append_Nil2 neq_Nil_conv)
  then show "grown (fs_get s r) (fs_get (fs_put q (Dir m []) s) r)"
  proof cases
    case apart
    then show ?thesis by (simp add: fs_get_put_apart grown_refl)
  next
    case below
    have "fs_get (fs_put q (Dir m []) s) q = Some (Dir m [])"
      using fs_get_put_new [of s "butlast q" _ "last q"] assms by simp
    with assms(1) below show ?thesis
      by (cases u) (simp_all add: fs_get_append grown_def)
  next
    case above
    have "\<exists>m es. fs_get s r = Some (Dir m es)"
    proof (cases "u = []")
      case False
      then have "butlast q = r @ c # butlast u" by (simp add: above butlast_append)
      with assms(3) show ?thesis using fs_get_above [of s r c "butlast u"] by simp
    qed (use assms(3) above in simp)
    then obtain m' es' where r: "fs_get s r = Some (Dir m' es')" by blast
    with fs_get_put_above [OF r] show ?thesis
      by (simp add: above grown_def)
  qed
qed

text \<open>
  Directories that are made where given paths lead: what is new is a directory of the process, and one of the
  paths leads there.
\<close>

definition grows_at :: "host \<Rightarrow> string list \<Rightarrow> 'c node \<Rightarrow> 'c node \<Rightarrow> bool" where
  "grows_at h ps s t \<longleftrightarrow> only_grown s t \<and>
     (\<forall>q. fs_get s q = None \<and> fs_get t q \<noteq> None \<longrightarrow>
        (\<exists>es. fs_get t q = Some (Dir (new_dir_meta h) es)) \<and> (\<exists>p \<in> set ps. locate h t True p = Some q))"

text \<open>A path that leads somewhere still leads there in a tree that has grown.\<close>

lemma resolve_grown:
  "resolve s k follow acc cs = Some q \<Longrightarrow> only_grown s t \<Longrightarrow> fs_get s q \<noteq> None \<Longrightarrow> resolve t k follow acc cs = Some q"
proof (induction s k follow acc cs rule: resolve.induct)
  case (2 s k follow acc c cs)
  have g: "grown (fs_get s (acc @ [c])) (fs_get t (acc @ [c]))" using "2.prems"(2) by (simp add: only_grown_def)
  have link: "resolve t j follow (if py_startswith x ''/'' then [] else acc) (py_split slash x @ cs) = Some q"
    if "\<not> (c = [] \<or> c = ''.'')" "c \<noteq> ''..''" "fs_get s (acc @ [c]) = Some (Link x)" "\<not> (cs = [] \<and> \<not> follow)" "k = Suc j"
      "resolve s j follow (if py_startswith x ''/'' then [] else acc) (py_split slash x @ cs) = Some q" for x j
    using that "2.prems"(2, 3) by (intro "2.IH"(4)) simp_all
  show ?case
  proof (cases "fs_get s (acc @ [c])")
    case None
    then show ?thesis
      using 2 by (auto simp: resolve.simps(2) split: if_splits)
  next
    case (Some n)
    show ?thesis
    proof (cases n)
      case (Dir m es)
      then show ?thesis using 2 g Some by (auto simp: resolve.simps(2) grown_def split: if_splits)
    next
      case (File m x)
      then show ?thesis using 2 g Some by (auto simp: resolve.simps(2) grown_def split: if_splits)
    next
      case (Link x)
      then have t: "fs_get t (acc @ [c]) = Some (Link x)" using g Some by (simp add: grown_def)
      show ?thesis
        using "2.prems" "2.IH"(1,2) Some Link t link [of x]
        by (auto simp: resolve.simps(2) simp del: if_split split: if_splits nat.splits)
    qed
  qed
qed simp

lemma resolve_empty: "list_all (\<lambda>x. x = []) cs \<Longrightarrow> resolve t k follow acc cs = Some acc"
  by (induction cs) (simp_all add: resolve.simps(2))

lemma resolve_made:
  "resolve s k follow acc cs = Some q \<Longrightarrow> \<not> follow \<Longrightarrow> only_grown s t \<Longrightarrow> fs_get s q = None \<Longrightarrow>
     fs_get t q = Some (Dir m es) \<Longrightarrow> resolve t k True acc cs = Some q"
proof (induction s k follow acc cs rule: resolve.induct)
  case (2 s k follow acc c cs)
  have g: "grown (fs_get s (acc @ [c])) (fs_get t (acc @ [c]))" using "2.prems"(3) by (simp add: only_grown_def)
  have link: "resolve t j True (if py_startswith x ''/'' then [] else acc) (py_split slash x @ cs) = Some q"
    if "\<not> (c = [] \<or> c = ''.'')" "c \<noteq> ''..''" "fs_get s (acc @ [c]) = Some (Link x)" "\<not> (cs = [] \<and> \<not> follow)" "k = Suc j"
      "resolve s j follow (if py_startswith x ''/'' then [] else acc) (py_split slash x @ cs) = Some q" for x j
    using that "2.prems"(2-5) by (intro "2.IH"(4)) simp_all
  show ?case
  proof (cases "fs_get s (acc @ [c])")
    case None
    then show ?thesis
      using 2 by (auto simp: resolve.simps(2) resolve_empty split: if_splits)
  next
    case (Some n)
    show ?thesis
    proof (cases n)
      case (Dir m es)
      then show ?thesis using 2 g Some by (auto simp: resolve.simps(2) grown_def split: if_splits)
    next
      case (File m x)
      then show ?thesis using 2 g Some by (auto simp: resolve.simps(2) grown_def split: if_splits)
    next
      case (Link x)
      then have t: "fs_get t (acc @ [c]) = Some (Link x)" using g Some by (simp add: grown_def)
      show ?thesis
        using "2.prems" "2.IH"(1,2) Some Link t link [of x]
        by (auto simp: resolve.simps(2) simp del: if_split split: if_splits nat.splits)
    qed
  qed
qed simp

lemma locate_grown:
  "locate h s follow p = Some q \<Longrightarrow> only_grown s t \<Longrightarrow> fs_get s q \<noteq> None \<Longrightarrow> locate h t follow p = Some q"
  unfolding locate_def by (metis option.distinct(1) resolve_grown)

lemma locate_made:
  "locate h s False p = Some q \<Longrightarrow> only_grown s t \<Longrightarrow> fs_get s q = None \<Longrightarrow> fs_get t q = Some (Dir m es) \<Longrightarrow>
     locate h t True p = Some q"
  unfolding locate_def by (metis option.distinct(1) resolve_made)

lemma only_grown_refl: "only_grown s s"
  by (simp add: only_grown_def grown_refl)

lemma only_grown_trans: "only_grown s t \<Longrightarrow> only_grown t u \<Longrightarrow> only_grown s u"
  using grown_trans unfolding only_grown_def by blast

lemma grows_at_trans:
  assumes "grows_at h ps s t" and "grows_at h ps t u"
  shows "grows_at h ps s u"
  unfolding grows_at_def
proof (intro conjI allI impI; (elim conjE)?)
  show g: "only_grown s u" using assms only_grown_trans by (auto simp: grows_at_def)
  fix q assume q: "fs_get s q = None" "fs_get u q \<noteq> None"
  have tu: "only_grown t u" using assms(2) by (simp add: grows_at_def)
  have "(\<exists>es. fs_get u q = Some (Dir (new_dir_meta h) es)) \<and> (\<exists>p \<in> set ps. locate h u True p = Some q)"
  proof (cases "fs_get t q = None")
    case True
    then show ?thesis using assms(2) q by (simp add: grows_at_def)
  next
    case False
    then obtain es p where t: "fs_get t q = Some (Dir (new_dir_meta h) es)" "p \<in> set ps" "locate h t True p = Some q"
      using assms(1) q(1) unfolding grows_at_def by blast
    moreover have "grown (fs_get t q) (fs_get u q)" using tu by (simp add: only_grown_def)
    ultimately show ?thesis using locate_grown [OF t(3) tu False] by (auto simp: grown_def)
  qed
  then show "\<exists>es. fs_get u q = Some (Dir (new_dir_meta h) es)" "\<exists>p \<in> set ps. locate h u True p = Some q"
    by blast+
qed

lemma grows_at_new_dir:
  assumes p: "p \<in> set ps" "locate h s False p = Some q"
    and q: "fs_get s q = None" "q \<noteq> []" "fs_get s (butlast q) = Some (Dir m0 es0)"
  shows "grows_at h ps s (fs_put q (Dir (new_dir_meta h) []) s)" (is "grows_at h ps s ?t")
  unfolding grows_at_def
proof (intro conjI allI impI; (elim conjE)?)
  show g: "only_grown s ?t" using q by (rule only_grown_new_dir)
  fix r assume r: "fs_get s r = None" "fs_get ?t r \<noteq> None"
  have at: "fs_get ?t q = Some (Dir (new_dir_meta h) [])"
    using fs_get_put_new [of s "butlast q" _ "last q"] q by simp
  consider "apart q r" | (below) u where "r = q @ u" | (above) c u where "q = r @ c # u"
    unfolding apart_def prefix_def by (metis append_Nil2 neq_Nil_conv)
  then have "r = q"
  proof cases
    case below
    then show ?thesis using r(2) at by (cases u) (simp_all add: fs_get_append)
  next
    case above
    show ?thesis
    proof (cases "u = []")
      case False
      then have "butlast q = r @ c # butlast u" by (simp add: above butlast_append)
      with q(3) r(1) show ?thesis using fs_get_above [of s r c "butlast u"] by auto
    qed (use q(3) r(1) above in simp)
  qed (use r in \<open>simp add: fs_get_put_apart\<close>)
  then show "\<exists>es. fs_get ?t r = Some (Dir (new_dir_meta h) es)" "\<exists>p \<in> set ps. locate h ?t True p = Some r"
    using at p(1) locate_made [OF p(2) g q(1) at] by blast+
qed

text \<open>The directory of the defaults and its parents.\<close>

definition default_dirs :: "string list" where
  "default_dirs = [kolla_defaults, ''/etc/kolla'', ''/etc'', ''/'']"

interpretation growth: growth_frame "grows_at (sce_host env) default_dirs" nonzero_exit env "\<lambda>p. p \<in> set default_dirs" for env
proof unfold_locales
  show "grows_at h ps s s" for h ps and s :: "content node" by (auto simp: grows_at_def only_grown_refl)
  show "grows_at h ps s u" if "grows_at h ps s t" "grows_at h ps t u" for h ps and s t u :: "content node"
    using that by (rule grows_at_trans)
  show "p_sat (grows_at (sce_host env) default_dirs) nonzero_exit (os_mkdir PyError (sce_host env) p :: unit sc_prog)"
    if "p \<in> set default_dirs" for p
  proof (rule sat_of_within)
    show "p_within (grows_at (sce_host env) default_dirs) (os_mkdir PyError (sce_host env) p :: unit sc_prog)"
      unfolding os_mkdir_def create_def new_dir_meta_def [symmetric]
      by (rule within_root)
        (auto simp: p_raise_def alter_def p_modify_def grows_at_def [of _ _ x x for x] only_grown_refl
          intro!: grows_at_new_dir [OF that] elim!: is_dir_node.elims split: option.split)
    show "fails_only_os (os_mkdir PyError (sce_host env) p :: unit sc_prog)"
      unfolding os_mkdir_def by (rule failing_operations)
  qed
  have "list_all (\<lambda>p. fst (split_tail p) \<in> set default_dirs) default_dirs" by code_simp
  then show "fst (split_tail p) \<in> set default_dirs" if "p \<in> set default_dirs" for p
    using that by (simp add: list_all_iff)
qed (simp_all add: default_dirs_def)

text \<open>Programs that only read leave the tree as it is.\<close>

interpretation unchanged: container_frame "(=)" nonzero_exit env for env
  by unfold_locales simp_all

end
