(* ===== verification/Container_Steps.thy ===== *)
theory Container_Steps
  imports Container_Frames
begin

text \<open>
  The steps of a start of a container: the command that ends in \<open>/run\_command\<close>, the mark of a
  configured container, and the defaults that are put back and saved again.
\<close>

section \<open>Runs that return\<close>

lemma p_sat_run: "p_sat R E m \<Longrightarrow> m s = (r, t) \<Longrightarrow> R s t"
  by (rule p_within_run [OF p_sat_within])

section \<open>A file that was written can be read\<close>

lemma resolve_after_write:
  assumes there: "\<forall>n. fs_get root q = Some n \<longrightarrow> (\<exists>m x. n = File m x)"
    and new: "fs_get (fs_put q (File m x) root) q = Some (File m x)"
  shows "resolve root k True acc cs = Some q \<Longrightarrow> resolve (fs_put q (File m x) root) k True acc cs = Some q"
proof (induction k acc cs rule: resolve_induct [where root = root and f = True])
  case (directory k acc c cs m' es)
  have "\<exists>es'. fs_get (fs_put q (File m x) root) (acc @ [c]) = Some (Dir m' es')"
  proof (cases "apart q (acc @ [c])")
    case True
    with directory(2) show ?thesis by (simp add: fs_get_put_apart)
  next
    case False
    then consider r where "acc @ [c] = q @ r" | d r where "q = (acc @ [c]) @ d # r"
      unfolding apart_def prefix_def by (metis append_Nil2 neq_Nil_conv)
    then show ?thesis
    proof cases
      case (1 r)
      with directory(2) there show ?thesis by (cases r) (auto simp: fs_get_append split: option.splits)
    next
      case (2 d r)
      with fs_get_put_above [OF directory(2)] show ?thesis by simp
    qed
  qed
  with directory show ?case by (auto simp: resolve_steps)
next
  case (follow k acc c cs t)
  have "apart q (acc @ [c])"
    unfolding apart_def prefix_def
  proof (intro conjI notI)
    assume "\<exists>r. acc @ [c] = q @ r"
    then obtain r where r: "acc @ [c] = q @ r" by blast
    with follow(2) obtain n where n: "fs_get root q = Some n" "fs_get n r = Some (Link t)"
      by (auto simp: fs_get_append split: option.splits)
    with there show False by (cases r) auto
  next
    assume "\<exists>r. q = (acc @ [c]) @ r"
    then obtain r where r: "q = (acc @ [c]) @ r" by blast
    show False
    proof (cases r)
      case Nil
      with r follow(2) there show False by auto
    next
      case (Cons d r')
      have "fs_get (fs_put q (File m x) root) (acc @ [c]) = Some (Link t)"
        using fs_get_put_prefix [OF follow(2), of "d # r'"] r Cons by simp
      moreover have "\<exists>ma es. fs_get (fs_put q (File m x) root) (acc @ [c]) = Some (Dir ma es)"
        using fs_get_above [of "fs_put q (File m x) root" "acc @ [c]" d r'] new r Cons by simp
      ultimately show False by simp
    qed
  qed
  with follow(2) have "fs_get (fs_put q (File m x) root) (acc @ [c]) = Some (Link t)"
    by (simp add: fs_get_put_apart)
  from resolve_follow [OF follow(1) this follow(3)] resolve_follow [OF follow(1-3)] follow.IH follow.prems
  show ?case by simp
qed (auto simp: resolve_steps new split: if_splits)

lemma write_file_then_stat:
  assumes "write_file w h p x root = (Inr (), root')"
  shows "\<exists>m. os_stat h root' p = Some (File m x)"
proof -
  obtain q where q: "locate h root True p = Some q"
    using assms by (auto simp: write_file_def p_bind_def p_gets_def p_raise_def split: option.splits)
  have stat: "\<exists>m. os_stat h root' p = Some (File m x)"
    if "\<forall>n. fs_get root q = Some n \<longrightarrow> (\<exists>m x. n = File m x)"
      and "root' = fs_put q (File m x) root" and "fs_get root' q = Some (File m x)" for m
  proof -
    have "locate h root' True p = Some q"
      using q resolve_after_write [OF that(1), of m x] that(2, 3)
      by (auto simp: locate_def split: if_splits)
    with that(3) show ?thesis by (simp add: os_stat_def)
  qed
  show ?thesis
  proof (cases "fs_get root q")
    case None
    then have "q \<noteq> []" "\<exists>m es. fs_get root (butlast q) = Some (Dir m es)"
        "root' = fs_put q (File (new_file_meta h) x) root"
      using assms q
      by (auto simp: write_file_def p_bind_def p_gets_def p_raise_def alter_def p_modify_def new_file_meta_def
          elim!: is_dir_node.elims split: option.splits if_splits)
    then show ?thesis
      using None fs_get_put_new [of root "butlast q" _ "last q"] by (intro stat) auto
  next
    case (Some n)
    then obtain m y where n: "n = File m y" "root' = fs_put q (File m x) root"
      using assms q
      by (cases n) (auto simp: write_file_def p_bind_def p_gets_def p_raise_def alter_def p_modify_def split: if_splits)
    with Some show ?thesis
      using fs_get_put_there [of root q "File m x"] by (intro stat) auto
  qed
qed

section \<open>The command\<close>

lemma copy_config_command:
  assumes "copy_config env c root = (Inr (), root')"
  obtains m cmd where "cfg_command c = Some cmd" and "os_stat (sce_host env) root' run_command = Some (File m (Text cmd))"
proof -
  obtain u root1 where rest: "(case cfg_command c of
          None \<Rightarrow> sc_raise (KeyError ''command'')
        | Some cmd \<Rightarrow>
            p_then (write_file PyError (sce_host env) run_command (Text cmd))
              (ignore_os_error (os_chmod PyError (sce_host env) run_command 420))) root1 = (Inr (), root')"
    using assms unfolding copy_config_def by (rule p_then_returns)
  then obtain cmd where cmd: "cfg_command c = Some cmd"
    by (cases "cfg_command c") (simp_all add: p_raise_def)
  with rest have "p_then (write_file PyError (sce_host env) run_command (Text cmd))
      (ignore_os_error (os_chmod PyError (sce_host env) run_command 420)) root1 = (Inr (), root')"
    by simp
  then obtain u root2 where writes: "write_file PyError (sce_host env) run_command (Text cmd) root1 = (Inr u, root2)"
      and chmod: "ignore_os_error (os_chmod PyError (sce_host env) run_command 420) root2 = (Inr (), root')"
    by (rule p_then_returns)
  from writes obtain m where stat: "os_stat (sce_host env) root2 run_command = Some (File m (Text cmd))"
    using write_file_then_stat by (metis (full_types) unit.exhaust)
  have "same_contents root2 root'"
    by (rule p_sat_run [OF contents.sat_ignore_os_error [OF contents.sat_chmod] chmod])
  from same_contents_file [OF this stat]
  obtain m' where "os_stat (sce_host env) root' run_command = Some (File m' (Text cmd))" by blast
  with cmd show ?thesis by (rule that)
qed

lemma set_config_command:
  assumes "set_config env c root = (Inr (), root')"
  obtains m cmd where "cfg_command c = Some cmd" and "os_stat (sce_host env) root' run_command = Some (File m (Text cmd))"
proof -
  obtain u root1 where rest: "p_then (copy_config env c) (handle_permissions env (cfg_permissions c)) root1 = (Inr (), root')"
    using assms unfolding set_config_def by (rule p_then_returns)
  then obtain v root2 where copy: "copy_config env c root1 = (Inr v, root2)"
      and perms: "handle_permissions env (cfg_permissions c) root2 = (Inr (), root')"
    by (rule p_then_returns)
  from copy have "copy_config env c root1 = (Inr (), root2)" by simp
  then obtain m cmd where cmd: "cfg_command c = Some cmd"
      and stat: "os_stat (sce_host env) root2 run_command = Some (File m (Text cmd))"
    by (rule copy_config_command)
  have "same_contents root2 root'"
    by (rule p_sat_run [OF contents.sat_handle_permissions perms])
  from same_contents_file [OF this stat]
  obtain m' where "os_stat (sce_host env) root' run_command = Some (File m' (Text cmd))" by blast
  with cmd show ?thesis by (rule that)
qed

section \<open>The mark of a configured container\<close>

lemma configured_path: "configured = path_of [''configured'']" "names_ok [''configured'']"
  by (simp_all add: configured_def path_of_def plain_component_def slash_def)

lemma mknod_then_exists:
  assumes "os_mknod env configured root = (Inr (), root')"
  shows "os_exists (sce_host env) root' configured"
proof -
  let ?q = "[''configured'']" and ?h = "sce_host env"
  have "resolve root max_links False [] ?q = Some ?q"
    by (rule resolve_cases [where c = "''configured''" and root = root and acc = "[]"])
      (simp_all add: resolve_steps)
  then have "locate ?h root False configured = Some ?q"
    using configured_path(2) py_split_path_of [of ?q]
    by (simp add: locate_def configured_path(1) resolve_steps)
  then obtain n where created: "fs_get root ?q = None" "\<exists>m es. root = Dir m es" "root' = fs_put ?q n root"
      "\<not> is_link_node (Some n)"
    using assms
    by (auto simp: os_mknod_def create_def p_bind_def p_gets_def p_raise_def alter_def p_modify_def is_link_node_def
        elim!: is_dir_node.elims split: if_splits)
  then have "plain_at root ?q"
    using configured_path(2) by (simp add: plain_at_def is_link_node_def)
  from plain_at_put [OF this created(4)] fs_get_put_plain [OF this, of n] show ?thesis
    by (simp add: configured_path(1) os_exists_plain created(3))
qed

lemma copy_once_marks:
  assumes "sce_strategy env = Some ''COPY_ONCE''" and "execute_config_strategy env c root = (Inr (), root')"
  shows "os_exists (sce_host env) root' configured"
proof -
  have "\<not> os_exists (sce_host env) root configured"
    using assms by (auto simp: execute_config_strategy_def p_bind_def p_gets_def p_raise_def)
  with assms have "p_then (set_config env c) (os_mknod env configured) root = (Inr (), root')"
    by (simp add: execute_config_strategy_def p_bind_def p_gets_def)
  then obtain u root1 where "os_mknod env configured root1 = (Inr (), root')"
    by (rule p_then_returns)
  then show ?thesis by (rule mknod_then_exists)
qed

lemma load_config_unchanged: "load_config env root = (r, root') \<Longrightarrow> root' = root"
  using p_sat_run [OF unchanged.sat_load_config [of env]] by metis

section \<open>Defaults\<close>

text \<open>The state that names one file and the place where its default is saved.\<close>

definition one_default :: "string list \<Rightarrow> string list \<Rightarrow> bool \<Rightarrow> defaults_state" where
  "one_default live saved swapped =
     [(path_of live,
       if swapped then \<lparr>de_source = path_of saved, de_dest = Some (path_of live)\<rparr>
       else \<lparr>de_source = path_of live, de_dest = Some (path_of saved)\<rparr>)]"

lemma restore_one:
  assumes "copyable env (default_file (path_of saved) (path_of live)) root saved live"
    and "fs_get root saved = Some (File m x)"
  shows "\<exists>root'. remove_or_restore_configs env (one_default live saved False) root =
             (Inr (one_default live saved True), root') \<and> file_placed root live (preserved_meta m) x root'"
proof -
  have "copied_meta (sce_host env) (default_file (path_of saved) (path_of live)) m = Some (preserved_meta m)"
    by (simp add: copied_meta_def default_file_def)
  from config_file_copy_placed [OF assms this] show ?thesis
    by (auto simp: one_default_def p_then_def p_bind_def p_return_def)
qed

lemma restore_swapped:
  assumes "copyable env (default_file (path_of live) (path_of saved)) root live saved"
    and "fs_get root live = Some (File m x)"
  shows "\<exists>root'. remove_or_restore_configs env (one_default live saved True) root =
             (Inr (one_default live saved False), root') \<and> file_placed root saved (preserved_meta m) x root'"
proof -
  have "copied_meta (sce_host env) (default_file (path_of live) (path_of saved)) m = Some (preserved_meta m)"
    by (simp add: copied_meta_def default_file_def)
  from config_file_copy_placed [OF assms this] show ?thesis
    by (auto simp: one_default_def p_then_def p_bind_def p_return_def)
qed

section \<open>Checks\<close>

lemma cmp_file_unchanged: "cmp_file env f src dest root = (r, root') \<Longrightarrow> root' = root"
  using p_sat_run [OF unchanged.sat_cmp_file [of env f src dest]] by metis

lemma check_source_unchanged: "check_source env f src root = (r, root') \<Longrightarrow> root' = root"
proof -
  have "p_sat (=) nonzero_exit (check_source env f src)"
    unfolding check_source_def by (intro unchanged.sat_rules unchanged.sat_cmp_dir unchanged.sat_cmp_file)
  then show "check_source env f src root = (r, root') \<Longrightarrow> root' = root"
    using p_sat_run by metis
qed

lemma bad_sources_without_perm:
  assumes "cf_perm f = None" and "s \<in> set ss" and "\<not> os_isdir (sce_host env) root s"
    and "bad_sources env f ss root = (Inr bad, root')"
  shows "bad \<noteq> []"
  using assms
proof (induction ss arbitrary: bad root')
  case (Cons t ss)
  obtain ok bad' where run: "check_source env f t root = (Inr ok, root)"
      "bad_sources env f ss root = (Inr bad', root')" "bad = (if ok then bad' else t # bad')"
  proof -
    have "p_bind (check_source env f t) (\<lambda>ok. p_bind (bad_sources env f ss)
        (\<lambda>bad. p_return (if ok then bad else t # bad))) root = (Inr bad, root')"
      using Cons.prems(4) by simp
    then obtain ok root1 where 1: "check_source env f t root = (Inr ok, root1)"
        "p_bind (bad_sources env f ss) (\<lambda>bad. p_return (if ok then bad else t # bad)) root1 = (Inr bad, root')"
      by (rule p_bind_returns)
    from 1(2) have "\<exists>bad'. bad_sources env f ss root1 = (Inr bad', root') \<and> bad = (if ok then bad' else t # bad')"
      by (rule p_bind_returns) (auto simp: p_return_def)
    with 1(1) check_source_unchanged [OF 1(1)] that show ?thesis by blast
  qed
  show ?case
  proof (cases "s = t")
    case True
    with Cons.prems(1, 3) run(1) have "\<not> ok"
      using cmp_file_without_perm [OF Cons.prems(1), of env t "entry_dest (cf_dest f) t" root]
      by (auto simp: check_source_def p_bind_def p_gets_def)
    with run(3) show ?thesis by simp
  next
    case False
    with Cons.prems Cons.IH [OF Cons.prems(1) _ Cons.prems(3) run(2)] run(3) show ?thesis by auto
  qed
qed simp

end
