(* ===== verification/Container_Properties.thy ===== *)
theory Container_Properties
  imports Container_Steps
begin

text \<open>
  The properties of \<open>docker/base/set\_configs.py\<close>: what a start of a container and a check of its
  configuration do. The samples are small containers on which the properties are applied.
\<close>

section \<open>Sample containers\<close>

definition sample_host :: host where
  "sample_host =
     \<lparr>host_cwd = [], host_users = [(''root'', 0), (''nova'', 42436)],
      host_groups = [(''root'', 0), (''nova'', 42436)], host_read_only = (\<lambda>q. False),
      host_uid = 0, host_gid = 0, host_dir_mode = 493, host_file_mode = 420\<rparr>"

definition container_env :: "string \<Rightarrow> sc_env" where
  "container_env strategy =
     \<lparr>sce_host = sample_host, sce_strategy = Some strategy, sce_search = (\<lambda>pattern s. pattern = s), sce_depth = 5\<rparr>"

lemma container_env_simps:
  "sce_host (container_env s) = sample_host" "sce_strategy (container_env s) = Some s" "sce_depth (container_env s) = 5"
  by (simp_all add: container_env_def)

definition dir_meta :: meta where
  "dir_meta = \<lparr>m_mode = 493, m_uid = 0, m_gid = 0\<rparr>"

definition file_meta :: meta where
  "file_meta = \<lparr>m_mode = 420, m_uid = 0, m_gid = 0\<rparr>"

definition nova_file :: config_file where
  "nova_file = \<lparr>cf_source = ''/src/n'', cf_dest = ''/etc/n'', cf_owner = Some ''nova'', cf_perm = Some ''0600'',
     cf_optional = False, cf_preserve = False, cf_merge = False\<rparr>"

definition small_tree :: "content node" where
  "small_tree = Dir dir_meta
     [(''etc'', Dir dir_meta [(''n'', File file_meta (Text ''default''))]),
      (''src'', Dir dir_meta [(''n'', File file_meta (Text ''wanted''))])]"

definition bare_doc :: config_doc where
  "bare_doc = \<lparr>cfg_command = Some ''run'', cfg_files = None, cfg_permissions = []\<rparr>"

definition container_tree :: "content node" where
  "container_tree = Dir dir_meta
     [(''etc'', Dir dir_meta [(''kolla'', Dir dir_meta [(''defaults'', Dir dir_meta [])])]),
      (''var'', Dir dir_meta [(''lib'', Dir dir_meta [(''kolla'', Dir dir_meta
        [(''config_files'', Dir dir_meta [(''config.json'', File file_meta (ConfigDoc bare_doc))])])])])]"

lemma nova_copyable: "copyable (container_env s) nova_file small_tree [''src'', ''n''] [''etc'', ''n'']"
proof -
  have "plain_at small_tree [''etc'', ''n'']" "\<not> dir_at small_tree [''etc'', ''n'']"
    by code_simp+
  then show ?thesis
    by (simp add: copyable_def target_at_code writable_def nova_file_def container_env_def sample_host_def
        path_of_def plain_component_def slash_def has_magic_def)
qed

lemma sample_positions:
  "plain_at container_tree [''var'', ''lib'', ''kolla'', ''config_files'', ''config.json'']"
  "plain_at container_tree [''etc'', ''kolla'']" "plain_at container_tree [''etc'', ''kolla'', ''defaults'']"
  "plain_at container_tree [''etc'', ''kolla'', ''defaults'', ''state'']" "plain_at container_tree [''run_command'']"
  by code_simp+

lemma sample_paths:
  "config_json = path_of [''var'', ''lib'', ''kolla'', ''config_files'', ''config.json'']"
  "kolla_defaults = path_of [''etc'', ''kolla'', ''defaults'']"
  "kolla_defaults_state = path_of [''etc'', ''kolla'', ''defaults'', ''state'']"
  "run_command = path_of [''run_command'']"
  by code_simp+

lemma makedirs_present:
  "p \<noteq> [] \<Longrightarrow> os_isdir h root p \<Longrightarrow> os_exists h root (fst (split_tail p)) \<Longrightarrow>
     makedirs w h True p root = (Inr (), root)"
  by (cases "length p") (simp_all add: makedirs_def p_then_def p_bind_def p_gets_def p_return_def)

lemma load_bare_doc:
  assumes "fs_get root [''var'', ''lib'', ''kolla'', ''config_files'', ''config.json''] = Some (File m (ConfigDoc bare_doc))"
  shows "load_config (container_env s) root = (Inr bare_doc, root)"
proof -
  have "names_ok [''var'', ''lib'', ''kolla'', ''config_files'', ''config.json'']" by code_simp
  note read = read_file_plain [OF plain_at_file [OF this _ assms] assms]
  have "validate_config bare_doc root = (Inr (), root)"
    by (simp add: validate_config_def bare_doc_def p_return_def)
  then show ?thesis
    by (simp add: load_config_def load_from_file_def sample_paths p_then_def p_bind_def p_return_def read)
qed

lemma bare_loaded: "load_config (container_env s) container_tree = (Inr bare_doc, container_tree)"
  by (rule load_bare_doc) code_simp

text \<open>The bare container after a start: the state file and the command were written.\<close>

definition state_saved :: "content node" where
  "state_saved = fs_put [''etc'', ''kolla'', ''defaults'', ''state'']
     (File (new_file_meta sample_host) (StateDoc [])) container_tree"

definition command_saved :: "content node" where
  "command_saved = fs_put [''run_command''] (File (new_file_meta sample_host) (Text ''run'')) state_saved"

lemma sample_writable: "writable sample_host q"
  by (simp add: writable_def sample_host_def)

lemma bare_state: "get_defaults_state (container_env s) container_tree = (Inr [], container_tree)"
proof -
  have "fst (split_tail kolla_defaults) = path_of [''etc'', ''kolla'']" by code_simp
  moreover have "dir_at container_tree [''etc'', ''kolla'', ''defaults'']"
      "fs_get container_tree [''etc'', ''kolla'', ''defaults'', ''state''] = None"
      "fs_get container_tree [''etc'', ''kolla''] \<noteq> None"
    by code_simp+
  ultimately show ?thesis
    using makedirs_present [of kolla_defaults sample_host container_tree PyError] sample_positions
    by (simp add: get_defaults_state_def sample_paths plain_queries dir_at_iff p_then_def p_bind_def p_gets_def
        p_return_def container_env_def)
qed

lemma bare_defaults: "handle_defaults (container_env s) bare_doc container_tree = (Inr (), state_saved)"
proof -
  have "fs_get container_tree [''etc'', ''kolla'', ''defaults'', ''state''] = None" by code_simp
  note writes = write_file_plain [OF sample_positions(4) this]
  have "cfg_files bare_doc = None" by (simp add: bare_doc_def)
  then show ?thesis
    by (simp add: handle_defaults_def bare_state p_bind_def p_return_def backup_configs_def sample_writable
        set_defaults_state_def sample_paths state_saved_def container_env_simps writes)
qed

definition command_readable :: "content node" where
  "command_readable = fs_put [''run_command'']
     (File ((new_file_meta sample_host)\<lparr>m_mode := 420\<rparr>) (Text ''run'')) command_saved"

lemma readable_positions:
  "plain_at command_readable [''configured'']" "fs_get command_readable [''configured''] = None"
  by (simp_all add: command_readable_def command_saved_def state_saved_def container_tree_def plain_at_def
      is_link_node_def plain_component_def slash_def)

lemma bare_set_config: "set_config (container_env s) bare_doc container_tree = (Inr (), command_readable)"
proof -
  have "fs_get state_saved [''run_command''] = fs_get container_tree [''run_command'']"
    by (simp add: state_saved_def fs_get_put_apart)
  also have "\<dots> = None" by (simp add: container_tree_def)
  finally have none: "fs_get state_saved [''run_command''] = None" .
  then have plain: "plain_at state_saved [''run_command'']"
    by (simp add: plain_at_def is_link_node_def plain_component_def slash_def state_saved_def container_tree_def)
  have saved: "plain_at command_saved [''run_command'']"
      "fs_get command_saved [''run_command''] = Some (File (new_file_meta sample_host) (Text ''run''))"
    unfolding command_saved_def by (simp_all add: plain_at_put fs_get_put_plain plain is_link_node_def)
  have doc: "cfg_files bare_doc = None" "cfg_command bare_doc = Some ''run''" "cfg_permissions bare_doc = []"
    by (simp_all add: bare_doc_def)
  have "os_chmod PyError sample_host run_command 420 command_saved = (Inr (), command_readable)"
    using os_chmod_plain [OF _ saved sample_writable, of 420 PyError] by (simp add: sample_paths command_readable_def c_int_def)
  then have "copy_config (container_env s) bare_doc state_saved = (Inr (), command_readable)"
    by (simp add: copy_config_def doc p_then_def p_bind_def p_return_def sample_paths container_env_simps
        write_file_plain [OF plain none sample_writable] command_saved_def [symmetric] ignore_os_error_def p_catch_def)
  then show ?thesis
    by (simp add: set_config_def bare_defaults p_then_def p_bind_def p_return_def handle_permissions_def doc)
qed

lemma bare_start:
  "\<exists>root. sc_main (container_env ''COPY_ALWAYS'') False container_tree = (Inr 0, root)"
  by (simp add: sc_main_def sc_main_body_def bare_loaded p_then_def p_bind_def p_catch_def p_return_def
      execute_config_strategy_def container_env_simps bare_set_config)

text \<open>The bare container that was configured once.\<close>

definition configured_tree :: "content node" where
  "configured_tree = fs_put [''configured''] (File \<lparr>m_mode = 384, m_uid = 0, m_gid = 0\<rparr> (Text [])) command_readable"

lemma bare_configured:
  "sc_main_body (container_env ''COPY_ONCE'') False container_tree = (Inr (), configured_tree)"
proof -
  have "fs_get container_tree [''configured''] = None" "plain_at container_tree [''configured'']"
    by (simp add: container_tree_def) code_simp
  then have "\<not> os_exists sample_host container_tree configured"
    by (simp add: configured_path(1) os_exists_plain)
  moreover have "os_mknod (container_env ''COPY_ONCE'') configured command_readable = (Inr (), configured_tree)"
  proof -
    obtain m es where "command_readable = Dir m es"
      using readable_positions(1) by (auto simp: plain_at_def)
    then have "is_dir_node command_readable" by (metis is_dir_node.simps(1))
    with readable_positions show ?thesis
      by (simp add: os_mknod_def create_def p_bind_def p_gets_def configured_path(1) locate_plain container_env_simps
          alter_writable sample_writable configured_tree_def)
        (simp add: sample_host_def)
  qed
  ultimately show ?thesis
    by (simp add: sc_main_body_def bare_loaded p_bind_def p_then_def p_gets_def execute_config_strategy_def
        container_env_simps bare_set_config)
qed

section \<open>Copying\<close>

text \<open>
  C6: Copying a regular file named by an entry of the configuration puts its content at the
  destination, with the owner and the mode of the entry (or, with \<open>preserve\_properties\<close>, of the
  source, less the set-id bits that the change of owner clears), and changes nothing apart from the
  destination.
\<close>

theorem copied_file_arrives:
  assumes "copyable env f root p q" and "fs_get root p = Some (File m x)"
    and "copied_meta (sce_host env) f m = Some m'"
  shows "\<exists>root'. config_file_copy env f root = (Inr (), root') \<and> fs_get root' q = Some (File m' x) \<and>
           (\<forall>r. apart q r \<longrightarrow> fs_get root' r = fs_get root r)"
  using config_file_copy_placed [OF assms] by (auto simp: file_placed_def)

lemma small_source: "fs_get small_tree [''src'', ''n''] = Some (File file_meta (Text ''wanted''))"
  by (simp add: small_tree_def)

definition nova_meta :: meta where
  "nova_meta = \<lparr>m_mode = 384, m_uid = 42436, m_gid = 42436\<rparr>"

lemma perm_0600: "perm_number ''0600'' = Some 384"
  by code_simp

lemma nova_conf_meta: "conf_meta sample_host nova_file = Some nova_meta"
  by (simp add: conf_meta_def nova_file_def user_group_def sample_host_def perm_0600 nova_meta_def c_int_def)

lemma nova_copied_meta: "copied_meta sample_host nova_file m = Some nova_meta"
  by (simp add: copied_meta_def nova_conf_meta) (simp add: nova_file_def)

theorem copied_file_arrives_witness:
  "\<exists>root. config_file_copy (container_env ''COPY_ALWAYS'') nova_file small_tree = (Inr (), root) \<and>
     fs_get root [''etc'', ''n''] = Some (File nova_meta (Text ''wanted'')) \<and>
     (\<forall>r. apart [''etc'', ''n''] r \<longrightarrow> fs_get root r = fs_get small_tree r)"
  using copied_file_arrives [OF nova_copyable small_source, of "''COPY_ALWAYS''" nova_meta] nova_copied_meta
  by (simp add: container_env_simps)

text \<open>
  C13: A copied file passes the check: after an entry without \<open>preserve\_properties\<close>, with an owner and with
  a mode below 01000 written in four octal digits, was copied, the check of the same entry finds it in
  order, provided that the ids of its user and group are known by these names first (two names may share an id;
  the check compares the first one).
\<close>

theorem check_accepts_copy:
  assumes "copyable env f root p q" and "fs_get root p = Some (File m x)"
    and "\<not> cf_preserve f" and "conf_meta (sce_host env) f = Some m'"
    and "cf_perm f = Some (octal4 n)" and "n < 512" and "cf_owner f = Some ow"
    and "named_back (host_users (sce_host env)) (fst (user_group ow))"
    and "named_back (host_groups (sce_host env)) (snd (user_group ow))"
  shows "\<exists>root'. config_file_copy env f root = (Inr (), root') \<and> config_file_check env f root' = (Inr (), root')"
proof -
  have p: "cf_source f = path_of p" "cf_dest f = path_of q" "names_ok p" "p \<noteq> []" "p \<noteq> q" "\<not> has_magic (path_of p)"
      and q: "target_at (sce_host env) root q" "names_ok q" "q \<noteq> []"
    using assms(1) by (simp_all add: copyable_def target_at_def plain_at_def)
  have "copied_meta (sce_host env) f m = Some m'" using assms(3, 4) by (simp add: copied_meta_def)
  from config_file_copy_placed [OF assms(1, 2) this] obtain root' where
      copy: "config_file_copy env f root = (Inr (), root')" and placed: "file_placed root q m' x root'"
    by blast
  have p': "fs_get root' p = Some (File m x)"
    using placed file_apart_target [OF assms(2) q(1) p(5)] assms(2) by (simp add: file_placed_def)
  have m': "m_mode m' = n" "map_of (host_users (sce_host env)) (fst (user_group ow)) = Some (m_uid m')"
      "map_of (host_groups (sce_host env)) (snd (user_group ow)) = Some (m_gid m')"
    using assms(4-7) perm_number_octal4 [of n] by (auto simp: conf_meta_def nat_mod_distrib split: option.splits if_splits)
  have "cmp_file env f (path_of p) (path_of q) root' = (Inr True, root')"
    using placed plain_at_file [OF p(3, 4) p'] p' assms(5, 7-9) m' by (intro cmp_file_placed) simp_all
  moreover have "glob_glob (sce_host env) root' (path_of p) = [path_of p]" "\<not> os_isdir (sce_host env) root' (path_of p)"
    using plain_at_file [OF p(3, 4) p'] p' p(6) by (simp_all add: glob_plain os_isdir_plain)
  moreover have "entry_dest (path_of q) (path_of p) = path_of q"
    using path_of_no_end_slash [OF q(2, 3)] by (simp add: entry_dest_def)
  ultimately have "config_file_check env f root' = (Inr (), root')"
    by (simp add: config_file_check_def check_source_def p_bind_def p_gets_def p_return_def p(1, 2))
  with copy show ?thesis by blast
qed

theorem check_accepts_copy_witness:
  "\<exists>root. config_file_copy (container_env ''COPY_ALWAYS'') nova_file small_tree = (Inr (), root) \<and>
     config_file_check (container_env ''COPY_ALWAYS'') nova_file root = (Inr (), root)"
proof (rule check_accepts_copy [OF nova_copyable small_source])
  show "cf_perm nova_file = Some (octal4 384)" by (simp add: nova_file_def) code_simp
  show "cf_owner nova_file = Some ''nova''" by (simp add: nova_file_def)
  show "conf_meta (sce_host (container_env ''COPY_ALWAYS'')) nova_file = Some nova_meta"
    by (simp add: container_env_simps nova_conf_meta)
  have "user_group ''nova'' = (''nova'', ''nova'')" by code_simp
  then show "named_back (host_users (sce_host (container_env ''COPY_ALWAYS''))) (fst (user_group ''nova''))"
      "named_back (host_groups (sce_host (container_env ''COPY_ALWAYS''))) (snd (user_group ''nova''))"
    by (simp_all add: container_env_simps sample_host_def named_back_def)
qed (simp_all add: nova_file_def)

text \<open>
  C33: The check never accepts a file of an entry without a mode. The mode is optional for entries
  with \<open>preserve\_properties\<close>, so their files are reported as being in a bad state although they
  were copied as the configuration says.
\<close>

theorem check_rejects_preserved:
  assumes "cf_perm f = None" and "s \<in> set (glob_glob (sce_host env) root (cf_source f))"
    and "\<not> os_isdir (sce_host env) root s"
  shows "fst (config_file_check env f root) \<noteq> Inr ()"
proof
  assume "fst (config_file_check env f root) = Inr ()"
  then obtain root' where "config_file_check env f root = (Inr (), root')"
    by (cases "config_file_check env f root") simp
  moreover have "glob_glob (sce_host env) root (cf_source f) \<noteq> []"
    using assms(2) by (metis empty_iff list.set(1))
  ultimately have "p_bind (bad_sources env f (glob_glob (sce_host env) root (cf_source f)))
      (\<lambda>bad. if bad \<noteq> [] then sc_exit ConfigFileBadState else p_return ()) root = (Inr (), root')"
    by (simp add: config_file_check_def p_bind_def [of "p_gets _"] p_gets_def)
  then show False
  proof (rule p_bind_returns)
    fix bad root1
    assume run: "bad_sources env f (glob_glob (sce_host env) root (cf_source f)) root = (Inr bad, root1)"
      and "(if bad \<noteq> [] then sc_exit ConfigFileBadState else p_return ()) root1 = (Inr (), root')"
    then show False
      using bad_sources_without_perm [OF assms(1, 2, 3) run] by (simp add: p_raise_def)
  qed
qed

definition preserved_file :: config_file where
  "preserved_file = \<lparr>cf_source = ''/src/n'', cf_dest = ''/etc/n'', cf_owner = None, cf_perm = None,
     cf_optional = False, cf_preserve = True, cf_merge = False\<rparr>"

lemma small_plain: "plain_at small_tree [''src'', ''n'']"
  by code_simp

theorem check_rejects_preserved_witness:
  "fst (config_file_check (container_env ''COPY_ALWAYS'') preserved_file small_tree) \<noteq> Inr ()"
proof (rule check_rejects_preserved)
  have path: "''/src/n'' = path_of [''src'', ''n'']" by (simp add: path_of_def)
  show "path_of [''src'', ''n''] \<in> set (glob_glob (sce_host (container_env ''COPY_ALWAYS'')) small_tree (cf_source preserved_file))"
    using glob_plain [OF small_plain, of sample_host] small_source
    by (simp add: preserved_file_def path container_env_simps has_magic_def)
      (simp add: path_of_def)
  show "\<not> os_isdir (sce_host (container_env ''COPY_ALWAYS'')) small_tree (path_of [''src'', ''n''])"
    using small_source by (simp add: os_isdir_plain small_plain)
qed (simp add: preserved_file_def)

section \<open>Starting\<close>

text \<open>
  C11: Under \<open>COPY\_ALWAYS\<close>, if \<open>set\_configs.py\<close> exits with 0, then \<open>/run\_command\<close> holds the command of
  the configuration that was loaded, whatever files were copied and whatever permissions were set.
\<close>

theorem started_container_runs_command:
  assumes "sce_strategy env = Some ''COPY_ALWAYS''" and "load_config env root = (Inr c, root)"
    and "sc_main env False root = (Inr 0, root')"
  shows "\<exists>m cmd. cfg_command c = Some cmd \<and>
           os_stat (sce_host env) root' run_command = Some (File m (Text cmd))"
proof -
  have body: "sc_main_body env False root = set_config env c root"
    using assms(1, 2) by (simp add: sc_main_body_def p_bind_def execute_config_strategy_def)
  obtain r t where run: "set_config env c root = (r, t)" by (cases "set_config env c root")
  have "r = Inr () \<and> t = root'"
  proof (cases r)
    case (Inl e)
    then have "nonzero_exit e"
      using run by (intro p_sat_raises [OF tree_ok.sat_set_config [of env c], of root]) simp
    with Inl run body assms(3) show ?thesis
      by (simp add: sc_main_def p_then_def p_bind_def p_catch_def p_return_def nonzero_exit_def)
  next
    case (Inr u)
    with run body assms(3) show ?thesis
      by (simp add: sc_main_def p_then_def p_bind_def p_catch_def p_return_def)
  qed
  with run have "set_config env c root = (Inr (), root')" by simp
  then show ?thesis by (rule set_config_command) blast
qed

theorem started_container_runs_command_witness:
  "\<exists>root m cmd. sc_main (container_env ''COPY_ALWAYS'') False container_tree = (Inr 0, root) \<and>
     cfg_command bare_doc = Some cmd \<and> os_stat sample_host root run_command = Some (File m (Text cmd))"
proof -
  obtain root where run: "sc_main (container_env ''COPY_ALWAYS'') False container_tree = (Inr 0, root)"
    using bare_start by blast
  from started_container_runs_command [OF _ bare_loaded run] run show ?thesis
    by (auto simp: container_env_simps)
qed

text \<open>
  C15: Under \<open>COPY\_ONCE\<close> a container is configured once: after a start that ran to its end, every
  later start that can load a configuration, a changed one too, exits with 0 and leaves the file
  system exactly as it is.
\<close>

theorem copy_once_configures_once:
  assumes "sce_strategy env = Some ''COPY_ONCE''" and "sc_main_body env False root = (Inr (), root1)"
    and "fst (load_config env root1) = Inr c"
  shows "sc_main env False root1 = (Inr 0, root1)"
proof -
  obtain d root0 where "execute_config_strategy env d root0 = (Inr (), root1)"
  proof -
    from assms(2) have "p_bind (load_config env) (execute_config_strategy env) root = (Inr (), root1)"
      by (simp add: sc_main_body_def)
    then show ?thesis using that by (auto elim: p_bind_returns)
  qed
  with assms(1) have "os_exists (sce_host env) root1 configured" by (rule copy_once_marks)
  moreover have "load_config env root1 = (Inr c, root1)"
    using assms(3) load_config_unchanged [of env root1] by (cases "load_config env root1") simp
  ultimately show ?thesis
    using assms(1)
    by (simp add: sc_main_def sc_main_body_def p_bind_def p_then_def p_catch_def p_return_def p_raise_def p_gets_def
        execute_config_strategy_def exit_code_of_def)
qed

theorem copy_once_configures_once_witness:
  "sc_main (container_env ''COPY_ONCE'') False configured_tree = (Inr 0, configured_tree)"
proof (rule copy_once_configures_once [OF _ bare_configured])
  have "fs_get configured_tree [''var'', ''lib'', ''kolla'', ''config_files'', ''config.json''] =
      Some (File file_meta (ConfigDoc bare_doc))"
    by (simp add: configured_tree_def command_readable_def command_saved_def state_saved_def fs_get_put_apart)
      (simp add: container_tree_def)
  from load_bare_doc [OF this] show "fst (load_config (container_env ''COPY_ONCE'') configured_tree) = Inr bare_doc"
    by simp
qed (simp add: container_env_simps)

text \<open>
  C18: Whatever happens, \<open>set\_configs.py\<close> ends with one of the exit codes 0, 1 and 2, and it leaves a
  well-formed file system: distinct names without slashes and dots in every directory, modes below
  010000.
\<close>

theorem main_keeps_tree_ok:
  assumes "host_ok (sce_host env)" and "node_ok root"
  shows "fst (sc_main env check root) \<in> {Inr 0, Inr 1, Inr 2} \<and> node_ok (snd (sc_main env check root))"
proof
  have "p_sat (\<lambda>s t. True) small_exit (sc_main_body env check)"
    by (rule exits.sat_main_body) (simp add: small_exit_def exit_code_of_def)
  then have "exit_code_of e \<le> 2" if "sc_main_body env check root = (Inl e, t)" for e t
    using p_sat_raises [of "\<lambda>s t. True" small_exit "sc_main_body env check" root e t] that
    by (simp add: small_exit_def)
  then show "fst (sc_main env check root) \<in> {Inr 0, Inr 1, Inr 2}"
    by (cases "sc_main_body env check root"; cases "fst (sc_main_body env check root)")
      (auto simp: sc_main_def p_then_def p_bind_def p_catch_def p_return_def le_Suc_eq numeral_2_eq_2)
  have "keeps_ok_on env root (snd (sc_main env check root))"
    by (rule p_withinD [OF tree_ok.within_main])
  with assms show "node_ok (snd (sc_main env check root))"
    by (simp add: keeps_ok_on_def keeps_ok_def)
qed

theorem main_keeps_tree_ok_witness:
  "fst (sc_main (container_env ''COPY_ALWAYS'') False container_tree) \<in> {Inr 0, Inr 1, Inr 2} \<and>
     node_ok (snd (sc_main (container_env ''COPY_ALWAYS'') False container_tree))"
  by (rule main_keeps_tree_ok)
    (simp_all add: container_env_simps sample_host_def host_ok_def container_tree_def name_ok_def
      plain_component_def slash_def dir_meta_def file_meta_def)

text \<open>
  C20: The permissions step changes nothing but owners and modes: names, contents and links of the
  tree are the same afterwards, also when it raises.
\<close>

theorem permissions_keep_contents:
  "strip (snd (handle_permissions env ps root)) = strip root"
  using p_withinD [OF p_sat_within [OF contents.sat_handle_permissions [of env ps]], of root]
  by (simp add: same_contents_def)

text \<open>
  C19: A check writes nothing: every file, link and directory is there afterwards with its content,
  owner and mode, and what is new are directories, with the owner and mode of the process, at the places to
  which \<open>/etc/kolla/defaults\<close> or one of its parents leads (the check creates them if they are missing).
\<close>

theorem check_only_adds_directories:
  assumes "snd (sc_main env True root) = root'"
  shows "grown (fs_get root q) (fs_get root' q) \<and>
    (fs_get root q = None \<and> fs_get root' q \<noteq> None \<longrightarrow>
       (\<exists>es. fs_get root' q = Some (Dir (new_dir_meta (sce_host env)) es)) \<and>
       (\<exists>p \<in> {''/etc/kolla/defaults'', ''/etc/kolla'', ''/etc'', ''/''}. locate (sce_host env) root' True p = Some q))"
proof -
  have "p_within (grows_at (sce_host env) default_dirs) (sc_main env True)"
    unfolding sc_main_def
    by (intro growth.within_intros growth.within_branches p_sat_within [OF growth.sat_main_body_check])
  from p_withinD [OF this, of root] show ?thesis
    by (simp add: grows_at_def only_grown_def default_dirs_def kolla_defaults_def assms)
qed

definition checked_tree :: "content node" where
  "checked_tree = Dir dir_meta
     [(''run_command'', File file_meta (Text ''run'')), (''etc'', Dir dir_meta [(''kolla'', Dir dir_meta [])]),
      (''var'', Dir dir_meta [(''lib'', Dir dir_meta [(''kolla'', Dir dir_meta
        [(''config_files'', Dir dir_meta [(''config.json'', File file_meta (ConfigDoc bare_doc))])])])])]"

definition defaults_made :: "content node" where
  "defaults_made = fs_put [''etc'', ''kolla'', ''defaults''] (Dir (new_dir_meta sample_host) []) checked_tree"

lemma checked_run: "sc_main (container_env s) True checked_tree = (Inr 0, defaults_made)"
proof -
  have plain: "plain_at checked_tree [''etc'', ''kolla'', ''defaults'']" "plain_at checked_tree [''etc'', ''kolla'']"
      "plain_at checked_tree [''run_command'']" "plain_at defaults_made [''etc'', ''kolla'', ''defaults'', ''state'']"
    by code_simp+
  have there: "fs_get checked_tree [''etc'', ''kolla'', ''defaults''] = None" "fs_get checked_tree [''etc'', ''kolla''] \<noteq> None"
      "fs_get checked_tree [''run_command''] = Some (File file_meta (Text ''run''))"
      "fs_get defaults_made [''etc'', ''kolla'', ''defaults'', ''state''] = None"
      "fs_get checked_tree [''var'', ''lib'', ''kolla'', ''config_files'', ''config.json''] = Some (File file_meta (ConfigDoc bare_doc))"
    by (simp_all add: checked_tree_def defaults_made_def)
  have parent: "split_tail (path_of [''etc'', ''kolla'', ''defaults'']) = (path_of [''etc'', ''kolla''], ''defaults'')"
      "path_of [''etc'', ''kolla'', ''defaults''] \<noteq> []"
    by code_simp+
  have "makedirs_n (Suc k) PyError sample_host True (path_of [''etc'', ''kolla'', ''defaults'']) checked_tree = (Inr (), defaults_made)" for k
    using os_mkdir_plain [OF plain(1) there(1) sample_writable, of PyError] there(1, 2)
    by (simp add: parent plain_queries plain p_then_def p_bind_def p_gets_def p_return_def defaults_made_def)
  then have made: "makedirs PyError sample_host True kolla_defaults checked_tree = (Inr (), defaults_made)"
    unfolding sample_paths makedirs_def using parent(2) by (metis length_0_conv not0_implies_Suc)
  have state: "get_defaults_state (container_env s) checked_tree = (Inr [], defaults_made)"
    unfolding get_defaults_state_def container_env_simps
    by (simp add: p_then_def p_bind_def made) (simp add: sample_paths plain_queries plain there p_bind_def p_gets_def p_return_def)
  have doc: "cfg_files bare_doc = None" "cfg_command bare_doc = Some ''run''" by (simp_all add: bare_doc_def)
  have "execute_config_check (container_env s) bare_doc checked_tree = (Inr (), defaults_made)"
    by (simp add: execute_config_check_def doc p_bind_def state p_return_def)
  moreover have "execute_command_check (container_env s) bare_doc checked_tree = (Inr (), checked_tree)"
    unfolding execute_command_check_def container_env_simps sample_paths
    by (simp add: doc p_bind_def p_return_def read_file_plain [OF plain(3) there(3)])
  ultimately show ?thesis
    by (simp add: sc_main_def sc_main_body_def load_bare_doc [OF there(5)] p_then_def p_bind_def p_catch_def p_return_def)
qed

theorem check_only_adds_directories_witness:
  "fs_get checked_tree [''etc'', ''kolla'', ''defaults''] = None \<and>
   (\<exists>es. fs_get (snd (sc_main (container_env ''COPY_ALWAYS'') True checked_tree)) [''etc'', ''kolla'', ''defaults''] =
      Some (Dir (new_dir_meta sample_host) es))"
proof -
  have none: "fs_get checked_tree [''etc'', ''kolla'', ''defaults''] = None" by (simp add: checked_tree_def)
  have some: "fs_get (snd (sc_main (container_env ''COPY_ALWAYS'') True checked_tree)) [''etc'', ''kolla'', ''defaults''] \<noteq> None"
    unfolding checked_run by (simp add: defaults_made_def checked_tree_def)
  have "sce_host (container_env ''COPY_ALWAYS'') = sample_host" by (simp add: container_env_simps)
  with check_only_adds_directories [OF refl, where env = "container_env ''COPY_ALWAYS''" and root = checked_tree
      and q = "[''etc'', ''kolla'', ''defaults'']"]
    none some show ?thesis by simp
qed

section \<open>Modes\<close>

text \<open>
  C23: The four octal digits that the check compares with (\<open>oct(st\_mode)[-4:]\<close>) are read back by
  \<open>handle\_permissions\<close> exactly for the modes without set-id and sticky bits; for all others \<open>int\<close> raises
  a \<open>ValueError\<close>, so a mode such as 1777 cannot be configured in the form that the check expects.
\<close>

theorem mode_round_trip:
  assumes "n < 4096"
  shows "perm_number (octal4 n) = (if n < 512 then Some (int n) else None)"
  using assms by (rule perm_number_octal4)

theorem mode_round_trip_witness:
  "perm_number (octal4 416) = Some 416 \<and> perm_number (octal4 1023) = None"
  using mode_round_trip [of 416] mode_round_trip [of 1023] by simp

text \<open>
  C34: The mode of a directory is the configured one with the execute bit added where the read bit is
  set, bit by bit, and it stays within the nine permission bits.
\<close>

theorem directory_modes:
  fixes n :: int
  assumes "0 \<le> n" and "n < 512"
  shows "(0 \<le> dir_perm n \<and> dir_perm n < 512) \<and>
         (\<forall>i. bit (dir_perm n) i \<longleftrightarrow> bit n i \<or> i = 6 \<and> bit n 8 \<or> i = 3 \<and> bit n 5 \<or> i = 0 \<and> bit n 2)"
proof
  have n: "take_bit 9 n = n" using assms by (simp add: take_bit_int_eq_self_iff)
  have high: "\<not> bit n i" if "9 \<le> i" for i
  proof -
    have "bit n i \<longleftrightarrow> bit (take_bit 9 n) i" by (simp only: n)
    with that show ?thesis by (simp add: bit_take_bit_iff)
  qed
  have "take_bit 9 (dir_perm n) = dir_perm n"
    by (rule bit_eqI) (use high not_less in \<open>auto simp: bit_take_bit_iff bit_dir_perm\<close>)
  then show "0 \<le> dir_perm n \<and> dir_perm n < 512" by (simp add: take_bit_int_eq_self_iff)
qed (simp add: bit_dir_perm)

theorem directory_modes_witness:
  "dir_perm 416 < 512 \<and> bit (dir_perm 416) 6 \<and> bit (dir_perm 416) 3 \<and> \<not> bit (dir_perm 416) 0"
proof -
  have modes: "(0 \<le> dir_perm 416 \<and> dir_perm 416 < 512) \<and> (\<forall>i. bit (dir_perm 416) i \<longleftrightarrow> bit (416 :: int) i \<or>
      i = 6 \<and> bit (416 :: int) 8 \<or> i = 3 \<and> bit (416 :: int) 5 \<or> i = 0 \<and> bit (416 :: int) 2)"
    by (rule directory_modes) simp_all
  have "bit (416 :: int) 8" "bit (416 :: int) 5" "\<not> bit (416 :: int) 2" "\<not> bit (416 :: int) 0"
    by (simp_all add: bit_iff_odd)
  with modes show ?thesis by simp
qed

section \<open>Defaults\<close>

text \<open>
  C24: The start after the first one puts the saved default of a file back and swaps source and
  destination in the state; the start after that therefore copies the live file, which by then is the
  one of the service, over the saved default: the default of the image is lost at the third start.
\<close>

theorem third_start_loses_default:
  assumes "copyable env (default_file (path_of saved) (path_of live)) root saved live"
    and "fs_get root saved = Some (File m default_content)"
    and "copyable env (default_file (path_of live) (path_of saved)) root2 live saved"
    and "fs_get root2 live = Some (File m2 service_content)"
  shows "\<exists>root1 root3.
     remove_or_restore_configs env (one_default live saved False) root = (Inr (one_default live saved True), root1) \<and>
     fs_get root1 live = Some (File (preserved_meta m) default_content) \<and>
     remove_or_restore_configs env (one_default live saved True) root2 = (Inr (one_default live saved False), root3) \<and>
     fs_get root3 saved = Some (File (preserved_meta m2) service_content)"
  using restore_one [OF assms(1, 2)] restore_swapped [OF assms(3, 4)] by (auto simp: file_placed_def)

definition second_start_tree :: "content node" where
  "second_start_tree = Dir dir_meta
     [(''etc'', Dir dir_meta [(''n'', File file_meta (Text ''wanted''))]),
      (''d'', Dir dir_meta [(''n'', File file_meta (Text ''default''))])]"

lemma second_start_copyable:
  "copyable (container_env s) (default_file (path_of [''d'', ''n'']) (path_of [''etc'', ''n'']))
     second_start_tree [''d'', ''n''] [''etc'', ''n'']"
  "copyable (container_env s) (default_file (path_of [''etc'', ''n'']) (path_of [''d'', ''n'']))
     second_start_tree [''etc'', ''n''] [''d'', ''n'']"
  by (simp_all add: copyable_def target_at_code plain_at_code dir_at_def is_link_node_def writable_def default_file_def
      container_env_def sample_host_def plain_component_def slash_def has_magic_def path_of_def second_start_tree_def)

theorem third_start_loses_default_witness:
  "\<exists>root1 root3.
     remove_or_restore_configs (container_env ''COPY_ALWAYS'') (one_default [''etc'', ''n''] [''d'', ''n''] False) second_start_tree
       = (Inr (one_default [''etc'', ''n''] [''d'', ''n''] True), root1) \<and>
     fs_get root1 [''etc'', ''n''] = Some (File (preserved_meta file_meta) (Text ''default'')) \<and>
     remove_or_restore_configs (container_env ''COPY_ALWAYS'') (one_default [''etc'', ''n''] [''d'', ''n''] True) second_start_tree
       = (Inr (one_default [''etc'', ''n''] [''d'', ''n''] False), root3) \<and>
     fs_get root3 [''d'', ''n''] = Some (File (preserved_meta file_meta) (Text ''wanted''))"
  by (rule third_start_loses_default [OF second_start_copyable(1) _ second_start_copyable(2)])
    (simp_all add: second_start_tree_def)

text \<open>
  A path below a directory is left alone only if every one of the exclude patterns matches it:
  for each pattern that does not match, its owner and mode are set.
\<close>

theorem exclusion_needs_every_pattern:
  assumes "exclude \<noteq> []"
  shows "handle_exclusion env exclude uid gid perm path =
           p_for (filter (\<lambda>pattern. \<not> sce_search env pattern path) exclude) (\<lambda>pattern. set_perms env path uid gid perm)"
proof -
  have "p_for xs (\<lambda>pattern. if \<not> sce_search env pattern path then set_perms env path uid gid perm else p_return ()) =
      p_for (filter (\<lambda>pattern. \<not> sce_search env pattern path) xs) (\<lambda>pattern. set_perms env path uid gid perm)" for xs
    by (induction xs) (auto simp: p_then_def p_bind_def p_return_def)
  with assms show ?thesis by (simp add: handle_exclusion_def)
qed

theorem exclusion_needs_every_pattern_witness:
  "handle_exclusion (container_env ''COPY_ALWAYS'') [''/a'', ''/b''] 0 0 None ''/a'' =
     p_for [''/b''] (\<lambda>pattern. set_perms (container_env ''COPY_ALWAYS'') ''/a'' 0 0 None)"
  using exclusion_needs_every_pattern [of "[''/a'', ''/b'']" "container_env ''COPY_ALWAYS''" 0 0 None "''/a''"]
  by (simp add: container_env_def)

end
