(* ===== verification/Template_Methods.thy ===== *)
theory Template_Methods
  imports Py_Path
begin

text \<open>
  \<open>kolla/template/methods.py\<close> and \<open>filters.py\<close>: the functions the Dockerfile templates call. The
  repositories come from a YAML document (\<open>repos.yaml\<close>), a parameter here; its scalars are strings,
  booleans and numbers. The values of the template's context that are read are arguments.
\<close>

section \<open>Installing Debian packages\<close>

definition sq :: string where
  "sq = [CHR 0x27]"

definition url_commands :: "string \<Rightarrow> string list" where
  "url_commands url =
     (let name = path_basename url
      in [''curl --location '' @ url @ '' -o '' @ name, ''dpkg -i '' @ name, ''rm -rf '' @ name])"

definition debian_package_install :: "string list \<Rightarrow> bool \<Rightarrow> string" where
  "debian_package_install packages clean_package_cache =
     (let url_packages = filter (\<lambda>p. py_startswith p ''http'') packages;
          reg_packages = filter (\<lambda>p. \<not> py_startswith p ''http'') packages
      in py_join '' && ''
           ((if reg_packages = [] then []
             else [''apt-get --error-on=any update'',
                   ''apt-get -y install --no-install-recommends '' @ py_join '' '' reg_packages] @
                  (if clean_package_cache then [''apt-get clean'', ''rm -rf /var/lib/apt/lists/*''] else [])) @
            concat (map url_commands url_packages)))"

section \<open>Repositories\<close>

datatype yaml_value = YStr string | YBool bool | YNum nat

type_synonym params = "(string, yaml_value) dict"

type_synonym repo_data = "(string, (string, params) dict) dict"

fun digit_string :: "nat \<Rightarrow> nat \<Rightarrow> string" where
  "digit_string 0 n = []"
| "digit_string (Suc k) n = (if n < 10 then [] else digit_string k (n div 10)) @ [char_of (48 + n mod 10)]"

text \<open>What \<open>str.format\<close> prints, and the truth value.\<close>

fun yaml_text :: "yaml_value \<Rightarrow> string" where
  "yaml_text (YStr s) = s"
| "yaml_text (YBool b) = (if b then ''True'' else ''False'')"
| "yaml_text (YNum n) = digit_string (Suc n) n"

fun truthy :: "yaml_value option \<Rightarrow> bool" where
  "truthy None = False"
| "truthy (Some (YStr s)) = (s \<noteq> [])"
| "truthy (Some (YBool b)) = b"
| "truthy (Some (YNum n)) = (n \<noteq> 0)"

text \<open>\<open>_repo[key]\<close>, as text and as a string with lines.\<close>

definition param :: "params \<Rightarrow> string \<Rightarrow> py_exn + string" where
  "param r k = (case dict_get r k of Some v \<Rightarrow> Inr (yaml_text v) | None \<Rightarrow> Inl (KeyError k))"

definition param_lines :: "params \<Rightarrow> string \<Rightarrow> py_exn + string list" where
  "param_lines r k =
     (case dict_get r k of
        Some (YStr s) \<Rightarrow> Inr (splitlines s)
      | Some v \<Rightarrow> Inl AttributeError
      | None \<Rightarrow> Inl (KeyError k))"

definition sum_bind :: "'e + 'a \<Rightarrow> ('a \<Rightarrow> 'e + 'b) \<Rightarrow> 'e + 'b" where
  "sum_bind m k = (case m of Inl e \<Rightarrow> Inl e | Inr x \<Rightarrow> k x)"

definition echo_to :: "string \<Rightarrow> string \<Rightarrow> string \<Rightarrow> string" where
  "echo_to text redirect target = ''echo '' @ sq @ text @ sq @ '' '' @ redirect @ target"

definition apt_file :: "string \<Rightarrow> string" where
  "apt_file repo = ''/etc/apt/sources.list.d/'' @ repo @ ''.sources''"

definition dnf_file :: "string \<Rightarrow> string" where
  "dnf_file repo = ''/etc/yum.repos.d/'' @ repo @ ''.repo''"

definition APT_ARCH :: "string \<Rightarrow> string \<Rightarrow> string" where
  "APT_ARCH arch repo = '' && '' @ echo_to (''Architectures: '' @ arch) ''>>'' (apt_file repo)"

definition APT_REPO :: "string \<Rightarrow> string \<Rightarrow> string \<Rightarrow> string \<Rightarrow> string \<Rightarrow> string" where
  "APT_REPO url component suite gpg_key repo =
     py_join '' && ''
       [echo_to (''Uris: '' @ url) ''>'' (apt_file repo),
        echo_to (''Components: '' @ component) ''>>'' (apt_file repo),
        echo_to ''Types: deb'' ''>>'' (apt_file repo),
        echo_to (''Suites: '' @ suite) ''>>'' (apt_file repo),
        echo_to (''Signed-By: /etc/kolla/apt-keys/'' @ gpg_key) ''>>'' (apt_file repo)]"

definition DNF_LINE :: "string \<Rightarrow> string \<Rightarrow> string \<Rightarrow> string" where
  "DNF_LINE key v repo = '' && '' @ echo_to (key @ ''='' @ v) ''>>'' (dnf_file repo)"

definition DNF_GPGKEY_ADD :: "string \<Rightarrow> string \<Rightarrow> string" where
  "DNF_GPGKEY_ADD gpgkey repo = '' && '' @ echo_to (''       '' @ gpgkey) ''>>'' (dnf_file repo)"

definition DNF_REPO :: "string \<Rightarrow> string \<Rightarrow> string" where
  "DNF_REPO name repo =
     py_join '' && ''
       [echo_to (''['' @ name @ '']'') ''>'' (dnf_file repo),
        echo_to (''name='' @ name) ''>>'' (dnf_file repo),
        echo_to ''enabled=1'' ''>>'' (dnf_file repo)]"

definition DNF_DISABLE :: "string \<Rightarrow> string" where
  "DNF_DISABLE name = ''dnf config-manager --disable '' @ name @ '' || true''"

definition DNF_ENABLE :: "string \<Rightarrow> string" where
  "DNF_ENABLE name = ''dnf config-manager --enable '' @ name @ '' || true''"

fun gpgkey_lines :: "string \<Rightarrow> string list \<Rightarrow> string" where
  "gpgkey_lines repo [] = []"
| "gpgkey_lines repo (k # ks) = DNF_LINE ''gpgkey'' k repo @ concat (map (\<lambda>k. DNF_GPGKEY_ADD k repo) ks)"

definition optional_line :: "params \<Rightarrow> string \<Rightarrow> string \<Rightarrow> string" where
  "optional_line r k repo =
     (case dict_get r k of Some v \<Rightarrow> if truthy (Some v) then DNF_LINE k (yaml_text v) repo else [] | None \<Rightarrow> [])"

text \<open>The commands that enable one repository, without a separator after them.\<close>

definition dnf_source :: "params \<Rightarrow> string \<Rightarrow> py_exn + string" where
  "dnf_source r repo =
     (if ''baseurl'' \<in> set (dict_keys r)
      then sum_bind (param_lines r ''baseurl'') (\<lambda>urls. Inr (concat (map (\<lambda>u. DNF_LINE ''baseurl'' u repo) urls)))
      else if ''metalink'' \<in> set (dict_keys r)
      then sum_bind (param r ''metalink'') (\<lambda>m. Inr (DNF_LINE ''metalink'' m repo))
      else if ''mirrorlist'' \<in> set (dict_keys r)
      then sum_bind (param r ''mirrorlist'') (\<lambda>m. Inr (DNF_LINE ''mirrorlist'' m repo))
      else Inr [])"

definition enable_rpm :: "params \<Rightarrow> string \<Rightarrow> py_exn + string" where
  "enable_rpm r repo =
     sum_bind
       (if \<not> truthy (dict_get r ''distro'')
        then sum_bind (param r ''name'') (\<lambda>name. sum_bind (param_lines r ''gpgkey'') (\<lambda>keys.
          Inr (DNF_REPO name repo @ optional_line r ''gpgcheck'' repo @ optional_line r ''repo_gpgcheck'' repo @
               gpgkey_lines repo keys)))
        else sum_bind (param r ''name'') (\<lambda>name. Inr (DNF_ENABLE name)))
       (\<lambda>first. sum_bind (dnf_source r repo) (\<lambda>src. Inr (first @ src)))"

definition enable_deb :: "params \<Rightarrow> string \<Rightarrow> py_exn + string" where
  "enable_deb r repo =
     sum_bind (param r ''component'') (\<lambda>component. sum_bind (param r ''gpg_key'') (\<lambda>gpg_key.
     sum_bind (param r ''suite'') (\<lambda>suite. sum_bind (param r ''url'') (\<lambda>url.
       Inr (APT_REPO url component suite gpg_key repo @
            (case dict_get r ''arch'' of Some a \<Rightarrow> APT_ARCH (yaml_text a) repo | None \<Rightarrow> []))))))"

text \<open>What one turn of the loop appends: in the mode enable a separator follows all but the last.\<close>

definition repo_commands :: "string \<Rightarrow> string \<Rightarrow> bool \<Rightarrow> params \<Rightarrow> string \<Rightarrow> py_exn + string" where
  "repo_commands package_type mode last_one r repo =
     (let separator = (if last_one then [] else '' && '')
      in if package_type = ''rpm''
         then (if mode = ''enable'' then sum_bind (enable_rpm r repo) (\<lambda>cmd. Inr (cmd @ separator))
               else if mode = ''disable'' \<and> truthy (dict_get r ''distro'')
               then sum_bind (param r ''name'') (\<lambda>name. Inr (DNF_DISABLE name))
               else Inr [])
         else if package_type = ''deb''
         then (if mode = ''enable'' then sum_bind (enable_deb r repo) (\<lambda>cmd. Inr (cmd @ separator)) else Inr [])
         else Inr [])"

fun repos_loop :: "string \<Rightarrow> string \<Rightarrow> (string, params) dict \<Rightarrow> string list \<Rightarrow> py_exn + string" where
  "repos_loop package_type mode repo_list [] = Inr []"
| "repos_loop package_type mode repo_list (repo # repos) =
     (case dict_get repo_list repo of
        None \<Rightarrow> Inl (KeyError repo)
      | Some r \<Rightarrow>
          sum_bind (repo_commands package_type mode (repos = []) r repo) (\<lambda>cmd.
            sum_bind (repos_loop package_type mode repo_list repos) (\<lambda>rest. Inr (cmd @ rest))))"

definition repos_of :: "repo_data \<Rightarrow> string \<Rightarrow> (string, params) dict" where
  "repos_of data key = (case dict_get data key of Some d \<Rightarrow> d | None \<Rightarrow> [])"

record repo_context =
  rc_repos_yaml :: "string option"
  rc_base_package_type :: string
  rc_base_distro :: string
  rc_base_arch :: string

definition repo_list_of :: "repo_context \<Rightarrow> repo_data \<Rightarrow> (string, params) dict" where
  "repo_list_of c data =
     dict_update (dict_update (repos_of data (rc_base_package_type c)) (repos_of data (rc_base_distro c)))
       (repos_of data (rc_base_distro c @ ''-'' @ rc_base_arch c))"

text \<open>The names are \<open>None\<close> when the argument is not a list.\<close>

definition handle_repos ::
    "(string \<Rightarrow> repo_data option) \<Rightarrow> string \<Rightarrow> repo_context \<Rightarrow> string list option \<Rightarrow> string \<Rightarrow> py_exn + string" where
  "handle_repos files default_file c reponames mode =
     (case reponames of
        None \<Rightarrow> Inl (TypeError ''First argument should be a list of repositories'')
      | Some names \<Rightarrow>
          (let repofile = (case rc_repos_yaml c of Some p \<Rightarrow> if p = [] then default_file else p | None \<Rightarrow> default_file)
           in case files repofile of
                None \<Rightarrow> Inl (OSError repofile)
              | Some data \<Rightarrow>
                  sum_bind (repos_loop (rc_base_package_type c) mode (repo_list_of c data) names) (\<lambda>commands.
                    Inr (if commands = [] then [] else ''RUN '' @ commands))))"

section \<open>The filter customizable\<close>

text \<open>\<open>None\<close> is jinja's Undefined; an absent key of the context is absent here.\<close>

definition customizable ::
    "(string \<Rightarrow> string list option) \<Rightarrow> string \<Rightarrow> string list option \<Rightarrow> string \<Rightarrow> string list option" where
  "customizable context image_name val_list call_type =
     (case val_list of
        None \<Rightarrow> None
      | Some vs \<Rightarrow>
          (let name = py_replace_char (CHR ''-'') (CHR ''_'') image_name @ ''_'' @ call_type @ ''_''
           in case context (name @ ''override'') of
                Some over \<Rightarrow> Some over
              | None \<Rightarrow>
                  (let appended = vs @ (case context (name @ ''append'') of Some a \<Rightarrow> a | None \<Rightarrow> []);
                       removals = (case context (name @ ''remove'') of Some r \<Rightarrow> r | None \<Rightarrow> [])
                   in Some (fold remove1 removals appended))))"

section \<open>How the commands are put together\<close>

fun sum_all :: "('e + 'a) list \<Rightarrow> 'e + 'a list" where
  "sum_all [] = Inr []"
| "sum_all (m # ms) = sum_bind m (\<lambda>x. sum_bind (sum_all ms) (\<lambda>xs. Inr (x # xs)))"

definition enable_one :: "string \<Rightarrow> (string, params) dict \<Rightarrow> string \<Rightarrow> py_exn + string" where
  "enable_one package_type repo_list repo =
     (case dict_get repo_list repo of
        None \<Rightarrow> Inl (KeyError repo)
      | Some r \<Rightarrow> if package_type = ''rpm'' then enable_rpm r repo else enable_deb r repo)"

lemma repos_loop_enable:
  assumes "package_type \<in> {''rpm'', ''deb''}"
  shows "repos_loop package_type ''enable'' repo_list repos =
           sum_bind (sum_all (map (enable_one package_type repo_list) repos)) (\<lambda>cmds. Inr (py_join '' && '' cmds))"
proof (induction repos)
  case (Cons repo repos)
  then show ?case
    using assms
    by (cases repos)
      (auto simp: enable_one_def repo_commands_def sum_bind_def Let_def py_join_Cons split: option.splits sum.splits)
qed (simp add: sum_bind_def)

definition disable_one :: "(string, params) dict \<Rightarrow> string \<Rightarrow> py_exn + string" where
  "disable_one repo_list repo =
     (case dict_get repo_list repo of
        None \<Rightarrow> Inl (KeyError repo)
      | Some r \<Rightarrow>
          if truthy (dict_get r ''distro'') then sum_bind (param r ''name'') (\<lambda>name. Inr (DNF_DISABLE name)) else Inr [])"

lemma repos_loop_disable:
  "repos_loop ''rpm'' ''disable'' repo_list repos =
     sum_bind (sum_all (map (disable_one repo_list) repos)) (\<lambda>cmds. Inr (concat cmds))"
  by (induction repos)
    (auto simp: disable_one_def repo_commands_def sum_bind_def Let_def split: option.splits sum.splits)

end
