(* ===== verification/Template_Properties.thy ===== *)
theory Template_Properties
  imports Template_Methods
begin

text \<open>
  What the RUN instructions of \<open>handle\_repos\<close> look like as a whole, on a small \<open>repos.yaml\<close>.
\<close>

lemma enable_one_not_Nil: "enable_one package_type repo_list repo = Inr cmd \<Longrightarrow> cmd \<noteq> []"
  by (auto simp: enable_one_def enable_rpm_def enable_deb_def sum_bind_def DNF_REPO_def DNF_ENABLE_def APT_REPO_def
      echo_to_def split: option.splits sum.splits if_splits)

lemma sum_all_Inr_hd:
  "sum_all (m # ms) = Inr xs \<Longrightarrow> \<exists>x xs'. m = Inr x \<and> xs = x # xs'"
  by (auto simp: sum_bind_def split: sum.splits)

lemma join_not_Nil: "x \<noteq> [] \<Longrightarrow> py_join sep (x # xs) \<noteq> []"
  by (cases xs) auto

definition chosen_repofile :: "repo_context \<Rightarrow> string \<Rightarrow> string" where
  "chosen_repofile c default_file =
     (case rc_repos_yaml c of Some p \<Rightarrow> if p = [] then default_file else p | None \<Rightarrow> default_file)"

text \<open>
  C22: Enabling repositories yields one RUN instruction: the commands of the repositories in the order
  of the list, joined by \<open>&&\<close> with none before the first and none after the last, nothing for the empty
  list, and the error of the first repository that has one.
\<close>

theorem enabled_repos_joined:
  assumes "rc_base_package_type c \<in> {''rpm'', ''deb''}" and "files (chosen_repofile c default_file) = Some data"
  shows "handle_repos files default_file c (Some names) ''enable'' =
     sum_bind (sum_all (map (enable_one (rc_base_package_type c) (repo_list_of c data)) names))
       (\<lambda>cmds. Inr (if names = [] then [] else ''RUN '' @ py_join '' && '' cmds))"
proof -
  let ?cmds = "sum_all (map (enable_one (rc_base_package_type c) (repo_list_of c data)) names)"
  have "py_join '' && '' xs = [] \<longleftrightarrow> names = []" if "?cmds = Inr xs" for xs
  proof (cases names)
    case (Cons n ns)
    with that obtain x xs' where "enable_one (rc_base_package_type c) (repo_list_of c data) n = Inr x" "xs = x # xs'"
      using sum_all_Inr_hd by fastforce
    with Cons show ?thesis using join_not_Nil enable_one_not_Nil by blast
  qed (use that in simp)
  with repos_loop_enable [OF assms(1), of "repo_list_of c data" names] assms(2) show ?thesis
    by (auto simp: handle_repos_def chosen_repofile_def [symmetric] Let_def sum_bind_def split: sum.splits)
qed

definition sample_repos :: repo_data where
  "sample_repos =
     [(''rpm'', [(''crb'', [(''name'', YStr ''crb''), (''distro'', YBool True)]),
                 (''ha'', [(''name'', YStr ''ha''), (''distro'', YBool True)])])]"

definition sample_context :: repo_context where
  "sample_context = \<lparr>rc_repos_yaml = None, rc_base_package_type = ''rpm'', rc_base_distro = ''rocky'',
     rc_base_arch = ''x86_64''\<rparr>"

theorem enabled_repos_joined_witness:
  "handle_repos (\<lambda>f. Some sample_repos) ''repos.yaml'' sample_context (Some [''crb'', ''ha'']) ''enable'' =
     Inr ''RUN dnf config-manager --enable crb || true && dnf config-manager --enable ha || true''"
proof -
  have "sum_all (map (enable_one ''rpm'' (repo_list_of sample_context sample_repos)) [''crb'', ''ha'']) =
      Inr [DNF_ENABLE ''crb'', DNF_ENABLE ''ha'']"
    by code_simp
  with enabled_repos_joined [of sample_context "\<lambda>f. Some sample_repos" "''repos.yaml''" sample_repos "[''crb'', ''ha'']"]
  show ?thesis by (simp add: sample_context_def sum_bind_def DNF_ENABLE_def)
qed

text \<open>
  C38: Disabling distribution repositories of rpm images yields the commands one after the other with
  no separator between them, so that the text of a second command continues the arguments of the
  first one's \<open>true\<close> and is never run.
\<close>

theorem disabled_repos_not_separated:
  assumes "rc_base_package_type c = ''rpm''" and "files (chosen_repofile c default_file) = Some data" and "names \<noteq> []"
    and "\<forall>n \<in> set names. \<exists>r v. dict_get (repo_list_of c data) n = Some r \<and> truthy (dict_get r ''distro'') \<and>
           dict_get r ''name'' = Some v \<and> yaml_text v = title n"
  shows "handle_repos files default_file c (Some names) ''disable'' =
           Inr (''RUN '' @ concat (map (\<lambda>n. DNF_DISABLE (title n)) names))"
proof -
  have one: "disable_one (repo_list_of c data) n = Inr (DNF_DISABLE (title n))" if "n \<in> set names" for n
    using assms(4) that by (fastforce simp: disable_one_def param_def sum_bind_def)
  have "sum_all (map (disable_one (repo_list_of c data)) ns) = Inr (map (\<lambda>n. DNF_DISABLE (title n)) ns)"
    if "set ns \<subseteq> set names" for ns
    using that by (induction ns) (auto simp: one sum_bind_def)
  then have "repos_loop ''rpm'' ''disable'' (repo_list_of c data) names =
      Inr (concat (map (\<lambda>n. DNF_DISABLE (title n)) names))"
    by (simp add: repos_loop_disable sum_bind_def)
  moreover have "concat (map (\<lambda>n. DNF_DISABLE (title n)) names) \<noteq> []"
    using assms(3) by (cases names) (simp_all add: DNF_DISABLE_def)
  ultimately show ?thesis
    using assms(1, 2) by (simp add: handle_repos_def chosen_repofile_def [symmetric] sum_bind_def)
qed

theorem disabled_repos_not_separated_witness:
  "handle_repos (\<lambda>f. Some sample_repos) ''repos.yaml'' sample_context (Some [''crb'', ''ha'']) ''disable'' =
     Inr ''RUN dnf config-manager --disable crb || truednf config-manager --disable ha || true''"
proof -
  have "dict_get (repo_list_of sample_context sample_repos) ''crb'' = Some [(''name'', YStr ''crb''), (''distro'', YBool True)]"
    "dict_get (repo_list_of sample_context sample_repos) ''ha'' = Some [(''name'', YStr ''ha''), (''distro'', YBool True)]"
    by code_simp+
  with disabled_repos_not_separated [of sample_context "\<lambda>f. Some sample_repos" "''repos.yaml''" sample_repos
      "[''crb'', ''ha'']" "\<lambda>n. n"]
  show ?thesis by (simp add: sample_context_def DNF_DISABLE_def)
qed

end
