(* ===== verification/Config_Data.thy ===== *)
theory Config_Data
  imports Kolla_Prelude
begin

text \<open>
  Tables of the configuration: the users of the containers (\<open>kolla/common/users.py\<close>), in three
  parts, and the distributions (\<open>kolla/common/config.py\<close>).
\<close>

section \<open>Users\<close>

record user_params =
  up_uid :: nat
  up_gid :: nat
  up_group :: "string option"

definition users_1 :: "(string, user_params) dict" where
  "users_1 =
     [(''kolla-user'', \<lparr>up_uid = 42400, up_gid = 42400, up_group = None\<rparr>),
      (''ansible-user'', \<lparr>up_uid = 42401, up_gid = 42401, up_group = None\<rparr>),
      (''aodh-user'', \<lparr>up_uid = 42402, up_gid = 42402, up_group = None\<rparr>),
      (''barbican-user'', \<lparr>up_uid = 42403, up_gid = 42403, up_group = None\<rparr>),
      (''bifrost-user'', \<lparr>up_uid = 42404, up_gid = 42404, up_group = None\<rparr>),
      (''ceilometer-user'', \<lparr>up_uid = 42405, up_gid = 42405, up_group = None\<rparr>),
      (''cinder-user'', \<lparr>up_uid = 42407, up_gid = 42407, up_group = None\<rparr>),
      (''cloudkitty-user'', \<lparr>up_uid = 42408, up_gid = 42408, up_group = None\<rparr>),
      (''collectd-user'', \<lparr>up_uid = 42409, up_gid = 42409, up_group = None\<rparr>),
      (''congress-user'', \<lparr>up_uid = 42410, up_gid = 42410, up_group = None\<rparr>),
      (''designate-user'', \<lparr>up_uid = 42411, up_gid = 42411, up_group = None\<rparr>),
      (''elasticsearch-user'', \<lparr>up_uid = 42412, up_gid = 42412, up_group = None\<rparr>),
      (''etcd-user'', \<lparr>up_uid = 42413, up_gid = 42413, up_group = None\<rparr>),
      (''freezer-user'', \<lparr>up_uid = 42414, up_gid = 42414, up_group = None\<rparr>),
      (''glance-user'', \<lparr>up_uid = 42415, up_gid = 42415, up_group = None\<rparr>),
      (''gnocchi-user'', \<lparr>up_uid = 42416, up_gid = 42416, up_group = None\<rparr>),
      (''grafana-user'', \<lparr>up_uid = 42417, up_gid = 42417, up_group = None\<rparr>),
      (''heat-user'', \<lparr>up_uid = 42418, up_gid = 42418, up_group = None\<rparr>),
      (''horizon-user'', \<lparr>up_uid = 42420, up_gid = 42420, up_group = None\<rparr>),
      (''influxdb-user'', \<lparr>up_uid = 42421, up_gid = 42421, up_group = None\<rparr>),
      (''ironic-user'', \<lparr>up_uid = 42422, up_gid = 42422, up_group = None\<rparr>),
      (''kafka-user'', \<lparr>up_uid = 42423, up_gid = 42423, up_group = None\<rparr>),
      (''keystone-user'', \<lparr>up_uid = 42425, up_gid = 42425, up_group = None\<rparr>),
      (''kibana-user'', \<lparr>up_uid = 42426, up_gid = 42426, up_group = None\<rparr>),
      (''qemu-user'', \<lparr>up_uid = 42427, up_gid = 42427, up_group = None\<rparr>),
      (''magnum-user'', \<lparr>up_uid = 42428, up_gid = 42428, up_group = None\<rparr>),
      (''manila-user'', \<lparr>up_uid = 42429, up_gid = 42429, up_group = None\<rparr>),
      (''mistral-user'', \<lparr>up_uid = 42430, up_gid = 42430, up_group = None\<rparr>),
      (''monasca-user'', \<lparr>up_uid = 42431, up_gid = 42431, up_group = None\<rparr>)]"

definition users_2 :: "(string, user_params) dict" where
  "users_2 =
     [(''mongodb-user'', \<lparr>up_uid = 42432, up_gid = 42432, up_group = None\<rparr>),
      (''murano-user'', \<lparr>up_uid = 42433, up_gid = 42433, up_group = None\<rparr>),
      (''mysql-user'', \<lparr>up_uid = 42434, up_gid = 42434, up_group = None\<rparr>),
      (''neutron-user'', \<lparr>up_uid = 42435, up_gid = 42435, up_group = None\<rparr>),
      (''nova-user'', \<lparr>up_uid = 42436, up_gid = 42436, up_group = None\<rparr>),
      (''octavia-user'', \<lparr>up_uid = 42437, up_gid = 42437, up_group = None\<rparr>),
      (''rabbitmq-user'', \<lparr>up_uid = 42439, up_gid = 42439, up_group = None\<rparr>),
      (''rally-user'', \<lparr>up_uid = 42440, up_gid = 42440, up_group = None\<rparr>),
      (''sahara-user'', \<lparr>up_uid = 42441, up_gid = 42441, up_group = None\<rparr>),
      (''senlin-user'', \<lparr>up_uid = 42443, up_gid = 42443, up_group = None\<rparr>),
      (''solum-user'', \<lparr>up_uid = 42444, up_gid = 42444, up_group = None\<rparr>),
      (''swift-user'', \<lparr>up_uid = 42445, up_gid = 42445, up_group = None\<rparr>),
      (''tacker-user'', \<lparr>up_uid = 42446, up_gid = 42446, up_group = None\<rparr>),
      (''td-agent-user'', \<lparr>up_uid = 42447, up_gid = 42447, up_group = None\<rparr>),
      (''telegraf-user'', \<lparr>up_uid = 42448, up_gid = 42448, up_group = None\<rparr>),
      (''trove-user'', \<lparr>up_uid = 42449, up_gid = 42449, up_group = None\<rparr>),
      (''vmtp-user'', \<lparr>up_uid = 42450, up_gid = 42450, up_group = None\<rparr>),
      (''watcher-user'', \<lparr>up_uid = 42451, up_gid = 42451, up_group = None\<rparr>),
      (''zookeeper-user'', \<lparr>up_uid = 42453, up_gid = 42453, up_group = None\<rparr>),
      (''haproxy-user'', \<lparr>up_uid = 42454, up_gid = 42454, up_group = None\<rparr>),
      (''memcached-user'', \<lparr>up_uid = 42457, up_gid = 42457, up_group = None\<rparr>),
      (''vitrage-user'', \<lparr>up_uid = 42459, up_gid = 42459, up_group = None\<rparr>),
      (''redis-user'', \<lparr>up_uid = 42460, up_gid = 42460, up_group = None\<rparr>),
      (''ironic-inspector-user'', \<lparr>up_uid = 42461, up_gid = 42461, up_group = None\<rparr>),
      (''odl-user'', \<lparr>up_uid = 42462, up_gid = 42462, up_group = None\<rparr>),
      (''zun-user'', \<lparr>up_uid = 42463, up_gid = 42463, up_group = None\<rparr>),
      (''dragonflow-user'', \<lparr>up_uid = 42464, up_gid = 42464, up_group = None\<rparr>),
      (''qdrouterd-user'', \<lparr>up_uid = 42465, up_gid = 42465, up_group = None\<rparr>)]"

definition users_3 :: "(string, user_params) dict" where
  "users_3 =
     [(''ec2api-user'', \<lparr>up_uid = 42466, up_gid = 42466, up_group = None\<rparr>),
      (''sensu-user'', \<lparr>up_uid = 42467, up_gid = 42467, up_group = None\<rparr>),
      (''skydive-user'', \<lparr>up_uid = 42468, up_gid = 42468, up_group = None\<rparr>),
      (''kuryr-user'', \<lparr>up_uid = 42469, up_gid = 42469, up_group = None\<rparr>),
      (''blazar-user'', \<lparr>up_uid = 42471, up_gid = 42471, up_group = None\<rparr>),
      (''prometheus-user'', \<lparr>up_uid = 42472, up_gid = 42472, up_group = None\<rparr>),
      (''libvirt-user'', \<lparr>up_uid = 42473, up_gid = 42473, up_group = None\<rparr>),
      (''fluentd-user'', \<lparr>up_uid = 42474, up_gid = 42474, up_group = None\<rparr>),
      (''almanach-user'', \<lparr>up_uid = 42475, up_gid = 42475, up_group = None\<rparr>),
      (''openvswitch-user'', \<lparr>up_uid = 42476, up_gid = 42476, up_group = None\<rparr>),
      (''hugetlbfs-user'', \<lparr>up_uid = 42477, up_gid = 42477, up_group = None\<rparr>),
      (''logstash-user'', \<lparr>up_uid = 42478, up_gid = 42478, up_group = None\<rparr>),
      (''storm-user'', \<lparr>up_uid = 42479, up_gid = 42479, up_group = None\<rparr>),
      (''tempest-user'', \<lparr>up_uid = 42480, up_gid = 42480, up_group = None\<rparr>),
      (''nfast-user'', \<lparr>up_uid = 42481, up_gid = 42481, up_group = None\<rparr>),
      (''placement-user'', \<lparr>up_uid = 42482, up_gid = 42482, up_group = None\<rparr>),
      (''cyborg-user'', \<lparr>up_uid = 42483, up_gid = 42483, up_group = None\<rparr>),
      (''masakari-user'', \<lparr>up_uid = 42485, up_gid = 42485, up_group = None\<rparr>),
      (''hacluster-user'', \<lparr>up_uid = 42486, up_gid = 42486, up_group = Some ''haclient''\<rparr>),
      (''proxysql-user'', \<lparr>up_uid = 42487, up_gid = 42487, up_group = None\<rparr>),
      (''letsencrypt-user'', \<lparr>up_uid = 42488, up_gid = 42488, up_group = None\<rparr>),
      (''venus-user'', \<lparr>up_uid = 42489, up_gid = 42489, up_group = None\<rparr>),
      (''opensearch-user'', \<lparr>up_uid = 42490, up_gid = 42490, up_group = None\<rparr>),
      (''skyline-user'', \<lparr>up_uid = 42491, up_gid = 42491, up_group = None\<rparr>),
      (''opensearch-dashboards-user'', \<lparr>up_uid = 42492, up_gid = 42492, up_group = None\<rparr>),
      (''hsmusers-user'', \<lparr>up_uid = 42493, up_gid = 42493, up_group = None\<rparr>),
      (''valkey-user'', \<lparr>up_uid = 42494, up_gid = 42494, up_group = None\<rparr>)]"

definition USERS :: "(string, user_params) dict" where
  "USERS = users_1 @ users_2 @ users_3"

lemmas user_table_defs = USERS_def users_1_def users_2_def users_3_def

text \<open>The options of the users: where no group is named, it is the name without \<open>-user\<close>.\<close>

definition user_group_name :: "string \<Rightarrow> user_params \<Rightarrow> string" where
  "user_group_name name p = (case up_group p of Some g \<Rightarrow> g | None \<Rightarrow> take (length name - 5) name)"

definition gen_all_user_opts :: "(string \<times> nat \<times> nat \<times> string) list" where
  "gen_all_user_opts = map (\<lambda>(name, p). (name, up_uid p, up_gid p, user_group_name name p)) USERS"

section \<open>Distributions\<close>

definition BASE_OS_DISTRO :: "string list" where
  "BASE_OS_DISTRO = [''centos'', ''debian'', ''rocky'', ''ubuntu'']"

definition BASE_ARCH :: "string list" where
  "BASE_ARCH = [''x86_64'', ''aarch64'']"

definition DEBIAN_ARCH :: "string list" where
  "DEBIAN_ARCH = [''amd64'', ''arm64'']"

definition DEFAULT_BASE_TAGS :: "(string, string \<times> string) dict" where
  "DEFAULT_BASE_TAGS =
     [(''centos'', ''quay.io/centos/centos'', ''stream10''),
      (''debian'', ''debian'', ''bookworm''),
      (''rocky'', ''quay.io/rockylinux/rockylinux'', ''10''),
      (''ubuntu'', ''ubuntu'', ''24.04'')]"

definition DISTRO_PRETTY_NAME :: "(string, string) dict" where
  "DISTRO_PRETTY_NAME =
     [(''centos'', ''CentOS Stream 10''),
      (''debian'', ''Debian GNU/Linux 12 (bookworm)''),
      (''rocky'', ''Rocky Linux 10.* (Red Quartz)''),
      (''ubuntu'', ''Ubuntu 24.04.* LTS'')]"

end
