(* ===== verification/Image_List.thy ===== *)
theory Image_List
  imports Image_Model Py_Path
begin

text \<open>
  \<open>build\_image\_list\<close>, which makes the images from the Dockerfiles that were written and the sections
  of the configuration, and \<open>list\_dependencies\<close> (\<open>kolla/image/kolla\_worker.py\<close>). The contents of
  the Dockerfiles and the values of a section are parameters; a section that the program does not
  declare has the default values.
\<close>

section \<open>The images of the Dockerfiles\<close>

record source_section =
  ss_type :: "string option"
  ss_location :: "string option"
  ss_reference :: "string option"
  ss_enabled :: bool
  ss_sha256 :: "(string \<times> string) list"

record list_env =
  le_namespace :: string
  le_image_prefix :: string
  le_tag :: string
  le_dockerfile :: "string \<Rightarrow> string option"
  le_section :: "string \<Rightarrow> source_section"
  le_all_sections :: "string list"

definition process_source_installation :: "list_env \<Rightarrow> string \<Rightarrow> source_dict" where
  "process_source_installation env section =
     (let s = le_section env section
      in case ss_type s of
           None \<Rightarrow> None
         | Some t \<Rightarrow>
             Some \<lparr>src_type = t, src_source = ss_location s, src_name = section,
               src_reference = (if t = ''git'' then ss_reference s else None),
               src_enabled = ss_enabled s, src_sha256 = ss_sha256 s\<rparr>)"

text \<open>The first line that begins with FROM; its second word is the parent.\<close>

definition from_line :: "string \<Rightarrow> string option" where
  "from_line content = find (\<lambda>l. py_startswith l ''FROM'') (py_split (CHR 0x0A) content)"

definition dockerfile_parent :: "string \<Rightarrow> py_exn + string" where
  "dockerfile_parent content =
     (case from_line content of
        None \<Rightarrow> Inr []
      | Some l \<Rightarrow> (case py_split (CHR '' '') l of w # p # ws \<Rightarrow> Inr p | _ \<Rightarrow> Inl IndexError))"

text \<open>
  The sections \<open>^name-plugin-.+\<close> and \<open>^name-additions-.+\<close>. Names of images hold no characters that
  are special in a regular expression, and names of sections no line ends.
\<close>

definition sub_sections :: "list_env \<Rightarrow> string \<Rightarrow> string list" where
  "sub_sections env start =
     filter (\<lambda>s. py_startswith s start \<and> length start < length s) (le_all_sections env)"

definition make_image :: "list_env \<Rightarrow> string \<Rightarrow> py_exn + image" where
  "make_image env path =
     (case le_dockerfile env path of
        None \<Rightarrow> Inl (OSError path)
      | Some content \<Rightarrow>
          (case dockerfile_parent content of
             Inl e \<Rightarrow> Inl e
           | Inr pname \<Rightarrow>
               (let name = path_basename path;
                    canonical = le_namespace env @ ''/'' @ le_image_prefix env @ name @ '':'' @ le_tag env
                in Inr ((new_image name canonical path pname)
                     \<lparr>img_source := process_source_installation env name,
                      img_plugins := map (process_source_installation env) (sub_sections env (name @ ''-plugin-'')),
                      img_additions := map (process_source_installation env) (sub_sections env (name @ ''-additions-''))\<rparr>))))"

fun build_image_list :: "list_env \<Rightarrow> string list \<Rightarrow> py_exn + store" where
  "build_image_list env [] = Inr []"
| "build_image_list env (path # paths) =
     (case make_image env path of
        Inl e \<Rightarrow> Inl e
      | Inr im \<Rightarrow> (case build_image_list env paths of Inl e \<Rightarrow> Inl e | Inr st \<Rightarrow> Inr (im # st)))"

section \<open>list_dependencies\<close>

datatype dep = Name string | Tree string "dep list"

text \<open>
  \<open>list\_children\<close>, with Python's recursion limit as a bound; the result is what is appended to the
  list of the parent.
\<close>

fun all_some :: "'a option list \<Rightarrow> 'a list option" where
  "all_some [] = Some []"
| "all_some (None # xs) = None"
| "all_some (Some x # xs) = map_option (Cons x) (all_some xs)"

primrec list_children :: "nat \<Rightarrow> store \<Rightarrow> nat list \<Rightarrow> dep list option" where
  "list_children 0 st images = None"
| "list_children (Suc k) st images =
     all_some (map (\<lambda>i. if children_at st i = [] then Some (Name (name_at st i))
                        else map_option (Tree (name_at st i)) (list_children k st (children_at st i)))
       (filter (\<lambda>i. status_at st i = MATCHED) images))"

definition last_root :: "store \<Rightarrow> nat option" where
  "last_root st = find (\<lambda>i. parent_at st i = None) (rev [0..<length st])"

text \<open>\<open>None\<close> is the message that nothing matched.\<close>

definition list_dependencies :: "nat \<Rightarrow> store \<Rightarrow> py_exn + dep option" where
  "list_dependencies limit st =
     (if \<not> list_ex (\<lambda>im. img_status im = MATCHED) st then Inr None
      else (case last_root st of
              None \<Rightarrow> Inl (UnboundLocalError ''base'')
            | Some b \<Rightarrow>
                (case list_children limit st (children_at st b) of
                   None \<Rightarrow> Inl RecursionError
                 | Some ds \<Rightarrow> Inr (Some (Tree (name_at st b) ds)))))"

section \<open>What the list holds\<close>

lemma build_image_list_nth:
  "build_image_list env paths = Inr st \<Longrightarrow> length st = length paths \<and>
     (\<forall>i < length paths. make_image env (paths ! i) = Inr (st ! i))"
proof (induction paths arbitrary: st)
  case (Cons path paths)
  then obtain im st' where st: "make_image env path = Inr im" "build_image_list env paths = Inr st'" "st = im # st'"
    by (auto split: sum.splits)
  with Cons.IH [OF st(2)] show ?case by (auto simp: nth_Cons split: nat.split)
qed simp

lemma make_image_fields:
  assumes "make_image env path = Inr im"
  shows "img_name im = path_basename path" "img_path im = path" "img_status im = UNPROCESSED"
    "img_parent im = None" "img_children im = []"
    "canonical_name im = le_namespace env @ ''/'' @ le_image_prefix env @ path_basename path @ '':'' @ le_tag env"
    "\<exists>content. le_dockerfile env path = Some content \<and> dockerfile_parent content = Inr (parent_name im)"
  using assms by (auto simp: make_image_def new_image_def Let_def split: option.splits sum.splits)

end
