(* ===== verification/Worker_Setup.thy ===== *)
theory Worker_Setup
  imports Py_Glob Config_Data
begin

text \<open>
  \<open>KollaWorker\<close> before there are images: \<open>\_\_init\_\_\<close>, the directory of the image templates, the
  setup of rpm repositories, the users, and the files of the working directory
  (\<open>kolla/image/kolla\_worker.py\<close>). Files hold strings; the templates are rendered by jinja, which
  is a parameter, as are the configuration values and the version of kolla.
\<close>

section \<open>The worker\<close>

record worker_conf =
  wc_registry :: "string option"
  wc_namespace :: string
  wc_base :: string
  wc_base_image :: string
  wc_base_tag :: string
  wc_base_arch :: string
  wc_tag :: string
  wc_repos_yaml :: string
  wc_use_dumb_init :: bool
  wc_openstack_release :: string
  wc_openstack_release_codename :: string
  wc_openstack_branch :: string
  wc_openstack_branch_slashed :: string
  wc_docker_healthchecks :: bool
  wc_rpm_setup_config :: "string option list"
  wc_distro_package_manager :: "string option"
  wc_base_package_type :: "string option"
  wc_clean_package_cache :: bool
  wc_image_name_prefix :: string
  wc_maintainer :: string
  wc_patches_path :: "string option"
  wc_apt_sources_list :: "string option"
  wc_apt_preferences :: "string option"
  wc_template_override :: "string list"
  wc_work_dir :: "string option"
  wc_docker_dir :: "string list"

definition full_namespace :: "worker_conf \<Rightarrow> string" where
  "full_namespace c =
     (case wc_registry c of
        Some r \<Rightarrow> if r = [] then wc_namespace c else r @ ''/'' @ wc_namespace c
      | None \<Rightarrow> wc_namespace c)"

definition worker_debian_arch :: "string \<Rightarrow> string" where
  "worker_debian_arch arch =
     (if arch = ''aarch64'' then ''arm64'' else if arch = ''x86_64'' then ''amd64'' else arch)"

text \<open>An attribute that no branch sets is missing: an \<open>AttributeError\<close> where it is used.\<close>

definition default_package_manager :: "string \<Rightarrow> string option" where
  "default_package_manager base =
     (if base \<in> {''centos'', ''rocky''} then Some ''dnf''
      else if base \<in> {''debian'', ''ubuntu''} then Some ''apt''
      else None)"

definition default_package_type :: "string \<Rightarrow> string option" where
  "default_package_type base =
     (if base \<in> {''centos'', ''rocky''} then Some ''rpm''
      else if base \<in> {''debian'', ''ubuntu''} then Some ''deb''
      else None)"

definition distro_package_manager :: "worker_conf \<Rightarrow> string option" where
  "distro_package_manager c =
     (case wc_distro_package_manager c of Some m \<Rightarrow> Some m | None \<Rightarrow> default_package_manager (wc_base c))"

definition base_package_type :: "worker_conf \<Rightarrow> string option" where
  "base_package_type c =
     (case wc_base_package_type c of
        Some t \<Rightarrow> if t = [] then default_package_type (wc_base c) else Some t
      | None \<Rightarrow> default_package_type (wc_base c))"

definition rpm_setup_command :: "string \<Rightarrow> py_exn + string" where
  "rpm_setup_command config =
     (if py_endswith config ''.rpm'' then Inr (''RUN dnf -y install '' @ config)
      else if py_endswith config ''.repo''
      then (if py_startswith config ''http''
            then Inr (''RUN curl -L '' @ config @ '' -o /etc/yum.repos.d/'' @ last (py_split slash config))
            else Inr (''COPY '' @ config @ '' /etc/yum.repos.d/''))
      else if config = [] then Inr []
      else Inl (KollaRpmSetupUnknownConfig
        (''RPM setup must be provided as .rpm or .repo files. Attempted configuration was '' @ config)))"

fun build_rpm_setup :: "string list \<Rightarrow> py_exn + string list" where
  "build_rpm_setup [] = Inr []"
| "build_rpm_setup (config # configs) =
     (case rpm_setup_command config of
        Inl e \<Rightarrow> Inl e
      | Inr cmd \<Rightarrow> (case build_rpm_setup configs of Inl e \<Rightarrow> Inl e | Inr cmds \<Rightarrow> Inr (cmd # cmds)))"

definition worker_rpm_setup :: "worker_conf \<Rightarrow> py_exn + string list" where
  "worker_rpm_setup c =
     build_rpm_setup (map the (filter (\<lambda>x. x \<noteq> None) (wc_rpm_setup_config c)))"

section \<open>Directories\<close>

definition possible_paths :: "string \<Rightarrow> string \<Rightarrow> string \<Rightarrow> string \<Rightarrow> string list" where
  "possible_paths project_root sys_prefix home snap =
     [project_root, path_join sys_prefix ''share/kolla'', path_join sys_prefix ''local/share/kolla'',
      path_join home ''.local/share/kolla'', path_join snap ''share/kolla'']"

fun find_images_dir :: "host \<Rightarrow> 'c node \<Rightarrow> string list \<Rightarrow> py_exn + string" where
  "find_images_dir h root [] = Inl KollaDirNotFoundException"
| "find_images_dir h root (path # paths) =
     (let image_path = path_join path ''docker''
      in if os_exists h root (path_join image_path ''base'') then Inr image_path
         else find_images_dir h root paths)"

type_synonym 'a worker_prog = "(py_exn, string node, 'a) prog"

text \<open>\<open>shutil.copyfile\<close>: the content only, and not onto itself.\<close>

definition shutil_copyfile :: "host \<Rightarrow> string \<Rightarrow> string \<Rightarrow> unit worker_prog" where
  "shutil_copyfile h src dst =
     p_bind (p_gets (\<lambda>root. root)) (\<lambda>root.
       if os_exists h root src \<and> os_exists h root dst \<and> locate h root True src = locate h root True dst
       then p_raise (OSError src)
       else p_bind (read_file (\<lambda>e. e) h src) (write_file (\<lambda>e. e) h dst))"

definition copy_if_set :: "host \<Rightarrow> string option \<Rightarrow> string \<Rightarrow> unit worker_prog" where
  "copy_if_set h src dst =
     (case src of Some s \<Rightarrow> if s = [] then p_return () else shutil_copyfile h s dst | None \<Rightarrow> p_return ())"

definition copy_apt_files :: "host \<Rightarrow> worker_conf \<Rightarrow> string \<Rightarrow> unit worker_prog" where
  "copy_apt_files h c working_dir =
     p_then (copy_if_set h (wc_apt_sources_list c) (path_join (path_join working_dir ''base'') ''sources.list''))
       (copy_if_set h (wc_apt_preferences c) (path_join (path_join working_dir ''base'') ''apt_preferences''))"

definition find_dockerfiles :: "host \<Rightarrow> 'c node \<Rightarrow> string \<Rightarrow> string list" where
  "find_dockerfiles h root working_dir =
     map fst (filter (\<lambda>(r, dirs, names). ''Dockerfile.j2'' \<in> set names) (os_walk h root working_dir))"

section \<open>Users\<close>

record user_section =
  us_uid :: "int option"
  us_gid :: "int option"
  us_group :: "string option"

text \<open>
  The sections whose names end in \<open>-user\<close>, under their names without it; a section the program does
  not declare is registered when it is first read, with no ids and its own name as the group, which
  is what \<open>read\<close> returns then.
\<close>

definition get_users :: "(string \<Rightarrow> user_section) \<Rightarrow> string list \<Rightarrow> (string, user_section) dict" where
  "get_users read all_sections =
     fold (\<lambda>section ret. dict_set (take (length section - 5) section) (read section) ret)
       (filter (\<lambda>section. py_endswith section ''-user'') all_sections) []"

section \<open>Dockerfiles\<close>

record template_values =
  tv_base_distro :: string
  tv_base_image :: string
  tv_base_distro_tag :: string
  tv_base_arch :: string
  tv_repos_yaml :: string
  tv_use_dumb_init :: bool
  tv_base_package_type :: string
  tv_debian_arch :: string
  tv_docker_healthchecks :: bool
  tv_supported_distro_name :: "string option"
  tv_image_prefix :: string
  tv_namespace :: string
  tv_openstack_release :: string
  tv_openstack_release_codename :: string
  tv_openstack_branch :: string
  tv_openstack_branch_slashed :: string
  tv_tag :: string
  tv_maintainer :: string
  tv_kolla_version :: string
  tv_image_name :: string
  tv_users :: "(string, user_section) dict"
  tv_distro_package_manager :: string
  tv_rpm_setup :: "string list"
  tv_build_date :: string
  tv_clean_package_cache :: bool
  tv_patches_path :: "string option"

definition dockerfile_values ::
    "worker_conf \<Rightarrow> string \<Rightarrow> string \<Rightarrow> (string, user_section) dict \<Rightarrow> string list \<Rightarrow> string \<Rightarrow>
     py_exn + template_values" where
  "dockerfile_values c kolla_version build_date users rpm_setup path =
     (case (base_package_type c, distro_package_manager c) of
        (Some package_type, Some package_manager) \<Rightarrow>
          Inr \<lparr>tv_base_distro = wc_base c, tv_base_image = wc_base_image c, tv_base_distro_tag = wc_base_tag c,
            tv_base_arch = wc_base_arch c, tv_repos_yaml = wc_repos_yaml c, tv_use_dumb_init = wc_use_dumb_init c,
            tv_base_package_type = package_type, tv_debian_arch = worker_debian_arch (wc_base_arch c),
            tv_docker_healthchecks = wc_docker_healthchecks c,
            tv_supported_distro_name = dict_get DISTRO_PRETTY_NAME (wc_base c),
            tv_image_prefix = wc_image_name_prefix c, tv_namespace = full_namespace c,
            tv_openstack_release = wc_openstack_release c,
            tv_openstack_release_codename = wc_openstack_release_codename c,
            tv_openstack_branch = wc_openstack_branch c, tv_openstack_branch_slashed = wc_openstack_branch_slashed c,
            tv_tag = wc_tag c, tv_maintainer = wc_maintainer c, tv_kolla_version = kolla_version,
            tv_image_name = last (py_split slash path), tv_users = users,
            tv_distro_package_manager = package_manager, tv_rpm_setup = rpm_setup, tv_build_date = build_date,
            tv_clean_package_cache = wc_clean_package_cache c, tv_patches_path = wc_patches_path c\<rparr>
      | _ \<Rightarrow> Inl AttributeError)"

text \<open>A line of an override that extends a template: \<open>re.sub(r'.*\{\%.*extends.*\n', '', cont)\<close>.\<close>

fun contains :: "string \<Rightarrow> string \<Rightarrow> bool" where
  "contains p [] = (p = [])"
| "contains p (c # cs) = (py_startswith (c # cs) p \<or> contains p cs)"

fun extends_line :: "string \<Rightarrow> bool" where
  "extends_line [] = False"
| "extends_line (c # cs) =
     (py_startswith (c # cs) ''{%'' \<and> contains ''extends'' (drop 2 (c # cs)) \<or> extends_line cs)"

definition remove_extends :: "string \<Rightarrow> string" where
  "remove_extends cont =
     (let lines = py_split (CHR 0x0A) cont
      in concat (map (\<lambda>l. l @ [CHR 0x0A]) (filter (\<lambda>l. \<not> extends_line l) (butlast lines))) @ last lines)"

fun read_overrides :: "host \<Rightarrow> string list \<Rightarrow> string worker_prog" where
  "read_overrides h [] = p_return []"
| "read_overrides h (p # ps) =
     p_bind (read_file (\<lambda>e. e) h p) (\<lambda>cont.
       p_bind (read_overrides h ps) (\<lambda>rest. p_return (remove_extends cont @ rest)))"

definition merge_overrides :: "host \<Rightarrow> string list \<Rightarrow> (string \<times> string) worker_prog" where
  "merge_overrides h overrides =
     (case overrides of
        [] \<Rightarrow> p_raise IndexError
      | p # ps \<Rightarrow>
          p_bind (read_file (\<lambda>e. e) h p) (\<lambda>first.
            p_bind (read_overrides h ps) (\<lambda>rest. p_return (path_basename p, first @ rest))))"

text \<open>
  Rendering: the template of a path under the working directory with the values, and, with an
  override, the merged template with the first one as its parent.
\<close>

record renderer =
  render_template :: "string \<Rightarrow> template_values \<Rightarrow> py_exn + string"
  render_override :: "string \<times> string \<Rightarrow> string \<Rightarrow> template_values \<Rightarrow> py_exn + string"

definition lift_sum :: "py_exn + 'a \<Rightarrow> 'a worker_prog" where
  "lift_sum m = (case m of Inl e \<Rightarrow> p_raise e | Inr x \<Rightarrow> p_return x)"

definition create_dockerfile ::
    "host \<Rightarrow> renderer \<Rightarrow> worker_conf \<Rightarrow> string \<Rightarrow> (string \<Rightarrow> py_exn + template_values) \<Rightarrow> string \<Rightarrow> unit worker_prog" where
  "create_dockerfile h r c working_dir vals path =
     p_bind (lift_sum (vals path)) (\<lambda>v.
       let tpl_path = path_join (path_relpath (''/'' @ py_join ''/'' (host_cwd h)) path working_dir) ''Dockerfile.j2''
       in p_bind
            (if wc_template_override c \<noteq> []
             then p_bind (merge_overrides h (wc_template_override c)) (\<lambda>tpl. lift_sum (render_override r tpl tpl_path v))
             else lift_sum (render_template r tpl_path v))
            (write_file (\<lambda>e. e) h (path_join path ''Dockerfile'')))"

definition create_dockerfiles ::
    "host \<Rightarrow> renderer \<Rightarrow> worker_conf \<Rightarrow> string \<Rightarrow> (string \<Rightarrow> py_exn + template_values) \<Rightarrow> string list \<Rightarrow> unit worker_prog" where
  "create_dockerfiles h r c working_dir vals paths = p_for paths (create_dockerfile h r c working_dir vals)"

section \<open>Patches\<close>

definition series_patches :: "string \<Rightarrow> string list" where
  "series_patches content = map py_strip (filter (\<lambda>l. \<not> py_startswith l ''#'') (file_lines content))"

definition copy_patches :: "host \<Rightarrow> string \<Rightarrow> string \<Rightarrow> unit worker_prog" where
  "copy_patches h src dest =
     p_bind (p_gets (\<lambda>root. os_isfile h root (path_join src ''series''))) (\<lambda>series.
     p_bind
       (if series
        then p_then (shutil_copyfile h (path_join src ''series'') (path_join dest ''series''))
               (p_bind (read_file (\<lambda>e. e) h (path_join src ''series'')) (\<lambda>content. p_return (series_patches content)))
        else p_return [])
       (\<lambda>patches. p_for patches (\<lambda>patch.
          p_bind (p_gets (\<lambda>root. os_isfile h root (path_join src patch))) (\<lambda>present.
            if present then shutil_copyfile h (path_join src patch) (path_join dest patch) else p_return ()))))"

definition create_patch_file :: "host \<Rightarrow> worker_conf \<Rightarrow> string \<Rightarrow> unit worker_prog" where
  "create_patch_file h c path =
     p_bind (p_gets (\<lambda>root.
         case wc_patches_path c of
           Some p \<Rightarrow> if p \<noteq> [] \<and> os_isdir h root p then Some (path_join p (path_basename path)) else None
         | None \<Rightarrow> None)) (\<lambda>src.
       p_then (makedirs (\<lambda>e. e) h True (path_join path ''patches''))
         (p_bind (p_gets (\<lambda>root. case src of Some s \<Rightarrow> os_isdir h root s | None \<Rightarrow> False)) (\<lambda>present.
           if present then copy_patches h (the src) (path_join path ''patches'') else p_return ())))"

definition create_patch_files :: "host \<Rightarrow> worker_conf \<Rightarrow> string list \<Rightarrow> unit worker_prog" where
  "create_patch_files h c paths = p_for paths (create_patch_file h c)"

end
