(* ===== verification/Config_Properties.thy ===== *)
theory Config_Properties
  imports Config_Data Image_List Worker_Setup
begin

text \<open>
  Properties of the tables of the configuration and of the list of images made from the Dockerfiles.
\<close>

lemma user_uids_sorted: "sorted_wrt (<) (map (\<lambda>e. up_uid (snd e)) USERS)"
  by (simp add: user_table_defs sorted_wrt2 sorted_wrt1 del: sorted_wrt.simps(2))

lemma user_gids: "map (\<lambda>e. up_gid (snd e)) USERS = map (\<lambda>e. up_uid (snd e)) USERS"
  by (simp add: user_table_defs)

text \<open>
  No two users of the containers share a user id, and none share a group id: in the order of
  the table the ids only increase, from 42400 on, and the group id of a user is its user id, also
  in the options that are generated from the table.
\<close>

theorem users_never_share_ids:
  "sorted_wrt (<) (map (\<lambda>e. up_uid (snd e)) USERS) \<and> up_uid (snd (hd USERS)) = 42400 \<and>
   map (\<lambda>(name, uid, gid, group). uid) gen_all_user_opts = map (\<lambda>e. up_uid (snd e)) USERS \<and>
   map (\<lambda>(name, uid, gid, group). gid) gen_all_user_opts = map (\<lambda>e. up_uid (snd e)) USERS \<and>
   distinct (map (\<lambda>(name, uid, gid, group). gid) gen_all_user_opts)"
proof -
  have opts: "map (\<lambda>(name, uid, gid, group). uid) gen_all_user_opts = map (\<lambda>e. up_uid (snd e)) USERS"
    "map (\<lambda>(name, uid, gid, group). gid) gen_all_user_opts = map (\<lambda>e. up_gid (snd e)) USERS"
    unfolding gen_all_user_opts_def by (simp_all add: comp_def case_prod_beta)
  have "up_uid (snd (hd USERS)) = 42400" by (simp add: user_table_defs)
  moreover have "distinct (map (\<lambda>e. up_uid (snd e)) USERS)"
    using user_uids_sorted strict_sorted_iff by blast
  ultimately show ?thesis using user_uids_sorted by (simp only: opts user_gids simp_thms)
qed

text \<open>
  C39: The list of images has one image for each Dockerfile, in their order, named after its directory,
  with the configured namespace, prefix and tag in its canonical name and with the second word of
  its first FROM line as the name of its parent (none if there is no such line).
\<close>

theorem image_list_of_dockerfiles:
  assumes "build_image_list env paths = Inr st"
  shows "map img_name st = map path_basename paths \<and>
    map canonical_name st =
      map (\<lambda>p. le_namespace env @ ''/'' @ le_image_prefix env @ path_basename p @ '':'' @ le_tag env) paths \<and>
    map (Inr \<circ> parent_name) st = map (\<lambda>p. dockerfile_parent (the (le_dockerfile env p))) paths"
proof -
  note nth = build_image_list_nth [OF assms]
  have fields: "img_name (st ! i) = path_basename (paths ! i)"
    "canonical_name (st ! i) =
       le_namespace env @ ''/'' @ le_image_prefix env @ path_basename (paths ! i) @ '':'' @ le_tag env"
    "Inr (parent_name (st ! i)) = dockerfile_parent (the (le_dockerfile env (paths ! i)))"
    if "i < length paths" for i
  proof -
    have im: "make_image env (paths ! i) = Inr (st ! i)" using nth that by blast
    show "img_name (st ! i) = path_basename (paths ! i)"
      and "canonical_name (st ! i) =
       le_namespace env @ ''/'' @ le_image_prefix env @ path_basename (paths ! i) @ '':'' @ le_tag env"
      using make_image_fields [OF im] by simp_all
    show "Inr (parent_name (st ! i)) = dockerfile_parent (the (le_dockerfile env (paths ! i)))"
      using make_image_fields(7) [OF im] by auto
  qed
  show ?thesis
    using nth fields by (intro conjI nth_equalityI) (simp_all add: comp_def)
qed

definition two_dockerfiles :: list_env where
  "two_dockerfiles = \<lparr>le_namespace = ''kolla'', le_image_prefix = ''p-'', le_tag = ''1'',
     le_dockerfile = (\<lambda>p. if p = ''/w/base'' then Some ''FROM debian:12 AS x'' else Some ''LABEL a''),
     le_section = (\<lambda>s. \<lparr>ss_type = None, ss_location = None, ss_reference = None, ss_enabled = True, ss_sha256 = []\<rparr>),
     le_all_sections = []\<rparr>"

theorem image_list_of_dockerfiles_witness:
  "\<exists>st. build_image_list two_dockerfiles [''/w/base'', ''/w/nova''] = Inr st \<and>
     map canonical_name st = [''kolla/p-base:1'', ''kolla/p-nova:1''] \<and>
     map (Inr \<circ> parent_name) st = [Inr ''debian:12'' :: py_exn + string, Inr []]"
proof -
  have "case build_image_list two_dockerfiles [''/w/base'', ''/w/nova''] of Inr st \<Rightarrow> True | Inl e \<Rightarrow> False"
    by code_simp
  then obtain st where st: "build_image_list two_dockerfiles [''/w/base'', ''/w/nova''] = Inr st"
    by (auto split: sum.splits)
  have "map (\<lambda>p. le_namespace two_dockerfiles @ ''/'' @ le_image_prefix two_dockerfiles @ path_basename p @ '':'' @
      le_tag two_dockerfiles) [''/w/base'', ''/w/nova''] = [''kolla/p-base:1'', ''kolla/p-nova:1'']"
    "map (\<lambda>p. dockerfile_parent (the (le_dockerfile two_dockerfiles p))) [''/w/base'', ''/w/nova''] =
      [Inr ''debian:12'', Inr []]"
    by code_simp+
  with image_list_of_dockerfiles [OF st] st show ?thesis by metis
qed

end
