(* ===== verification/Pool_Results.thy ===== *)
theory Pool_Results
  imports Worker_Properties
begin

text \<open>
  What the statuses at the end of a build mean: an image that ends as built was built by the engine,
  and pushed if images are to be pushed. A second invariant of the machine of tasks, on top of
  \<open>pool\_inv\<close>.
\<close>

definition pushed :: "image \<Rightarrow> tstate \<Rightarrow> bool" where
  "pushed im ts \<longleftrightarrow> (\<exists>a. EnginePush (canonical_name im) a \<in> set (ts_effects ts))"

definition known_engine :: "conf \<Rightarrow> bool" where
  "known_engine c \<longleftrightarrow> conf_engine c = DOCKER \<or> conf_engine c = PODMAN"

lemma pushed_grows: "pushed im ts \<Longrightarrow> grows ts ts' \<Longrightarrow> pushed im ts'"
  by (auto simp: pushed_def grows_def)

lemma pushed_shape:
  "same_shape st (ts_images ts) \<Longrightarrow> i < length st \<Longrightarrow> pushed (ts_images ts ! i) ts' \<longleftrightarrow> pushed (st ! i) ts'"
  by (simp add: pushed_def same_shape_fields)

lemma push_run_pushes:
  assumes "known_engine c" and "push_run c env i ts = (r, ts')"
  shows "pushed (ts_images ts ! i) ts'"
  using assms
  by (auto simp: known_engine_def pushed_def ex_bool_eq push_run_def push_image_def read_image_def perform_def write_status_def
      p_bind_def p_then_def p_gets_def p_modify_def p_return_def p_raise_def p_catch_def
      split: push_reply.splits option.splits if_splits)

section \<open>The invariant\<close>

definition push_pending :: "pool \<Rightarrow> nat \<Rightarrow> bool" where
  "push_pending s i \<longleftrightarrow> (\<exists>t \<in># pl_waiting s. pushes_image i t) \<or>
     (\<exists>t. (t, Fresh) \<in># pl_running s \<and> pushes_image i t)"

definition push_started_ok :: "store \<Rightarrow> tstate \<Rightarrow> bool \<Rightarrow> task \<Rightarrow> stage \<Rightarrow> bool" where
  "push_started_ok st ts stop t g \<longleftrightarrow>
     (\<forall>i b. t = PushTask i b \<longrightarrow> g \<noteq> Fresh \<longrightarrow> \<not> stop \<longrightarrow> pushed (st ! i) ts) \<and>
     (\<forall>i b. t = PushIntoQueueTask i b \<longrightarrow> g \<noteq> Tried)"

definition push_known :: "conf \<Rightarrow> store \<Rightarrow> tstate \<Rightarrow> task \<Rightarrow> bool" where
  "push_known c st ts t \<longleftrightarrow> (\<forall>i. pushes_image i t \<longrightarrow> engine_called c (st ! i) ts)"

definition results_ok :: "conf \<Rightarrow> store \<Rightarrow> pool \<Rightarrow> bool" where
  "results_ok c st s \<longleftrightarrow>
     (\<forall>i < length st. statuses_of s i = BUILT \<longrightarrow> engine_called c (st ! i) (pl_ts s)) \<and>
     (\<forall>t \<in># pl_waiting s. push_known c st (pl_ts s) t) \<and>
     (\<forall>(t, g) \<in># pl_running s. push_known c st (pl_ts s) t \<and> push_started_ok st (pl_ts s) (pl_stop s) t g) \<and>
     (conf_push c \<longrightarrow> \<not> pl_stop s \<longrightarrow>
        (\<forall>i < length st. statuses_of s i = BUILT \<longrightarrow> active i s = 0 \<longrightarrow> pushed (st ! i) (pl_ts s) \<or> push_pending s i))"

lemma results_okD:
  assumes "results_ok c st s"
  shows "i < length st \<Longrightarrow> statuses_of s i = BUILT \<Longrightarrow> engine_called c (st ! i) (pl_ts s)"
    and "t \<in># pl_waiting s \<Longrightarrow> push_known c st (pl_ts s) t"
    and "(t, g) \<in># pl_running s \<Longrightarrow> push_known c st (pl_ts s) t"
    and "(t, g) \<in># pl_running s \<Longrightarrow> push_started_ok st (pl_ts s) (pl_stop s) t g"
    and "conf_push c \<Longrightarrow> \<not> pl_stop s \<Longrightarrow> i < length st \<Longrightarrow> statuses_of s i = BUILT \<Longrightarrow> active i s = 0 \<Longrightarrow>
      pushed (st ! i) (pl_ts s) \<or> push_pending s i"
  using assms unfolding results_ok_def by blast+

lemma results_okI:
  assumes "\<And>i. i < length st \<Longrightarrow> statuses_of s i = BUILT \<Longrightarrow> engine_called c (st ! i) (pl_ts s)"
    and "\<And>t. t \<in># pl_waiting s \<Longrightarrow> push_known c st (pl_ts s) t"
    and "\<And>t g. (t, g) \<in># pl_running s \<Longrightarrow> push_known c st (pl_ts s) t \<and> push_started_ok st (pl_ts s) (pl_stop s) t g"
    and "\<And>i. conf_push c \<Longrightarrow> \<not> pl_stop s \<Longrightarrow> i < length st \<Longrightarrow> statuses_of s i = BUILT \<Longrightarrow> active i s = 0 \<Longrightarrow>
      pushed (st ! i) (pl_ts s) \<or> push_pending s i"
  shows "results_ok c st s"
  using assms unfolding results_ok_def by blast

lemma push_known_grows: "push_known c st ts t \<Longrightarrow> grows ts ts' \<Longrightarrow> push_known c st ts' t"
  by (auto simp: push_known_def intro: engine_called_grows)

lemma push_started_grows: "push_started_ok st ts stop t g \<Longrightarrow> grows ts ts' \<Longrightarrow> push_started_ok st ts' stop t g"
  by (auto simp: push_started_ok_def intro: pushed_grows)

lemma results_init: "\<forall>i < length st. status_at st i \<noteq> BUILT \<Longrightarrow> results_ok c st (pool_init st)"
  by (auto simp: results_ok_def pool_init_def push_known_def)

section \<open>Every step keeps the invariant\<close>

text \<open>An attempt that replaces a task by one for the same image.\<close>

lemma results_attempt:
  assumes J: "results_ok c st s" and r: "pl_running s = add_mset (t, g) R"
    and len: "length (ts_images (pl_ts s)) = length st"
    and run: "touches i (pl_ts s) ts'" "grows (pl_ts s) ts'"
    and own: "status_at (ts_images ts') i = BUILT \<longrightarrow> engine_called c (st ! i) ts'"
    and t: "\<forall>j. j \<noteq> i \<longrightarrow> \<not> pushes_image j t" "\<forall>j. builds_image j u = builds_image j t"
    and u: "push_known c st ts' u" "push_started_ok st ts' (pl_stop s) u h"
    and W: "\<forall>v \<in># W. push_known c st ts' v"
    and p: "builds_image i t \<or> pushed (st ! i) ts' \<or> (\<exists>v \<in># W. pushes_image i v)"
  shows "results_ok c st (s\<lparr>pl_ts := ts', pl_waiting := W + pl_waiting s, pl_running := add_mset (u, h) R\<rparr>)"
    (is "results_ok c st ?s")
proof -
  have other: "status_at (ts_images ts') j = statuses_of s j" if "j < length st" "j \<noteq> i" for j
    using touches_status [OF run(1)] that len by simp
  have act: "active j ?s = active j s" for j
    using t(2) by (simp add: active_def r)
  have "engine_called c (st ! j) ts'" if "j < length st" "status_at (ts_images ts') j = BUILT" for j
    using that own other [OF that(1)] engine_called_grows [OF results_okD(1) [OF J that(1)] run(2)]
    by (cases "j = i") auto
  moreover have "push_known c st ts' v" if "v \<in># W + pl_waiting s" for v
    using that W results_okD(2) [OF J, of v] push_known_grows [OF _ run(2)] by auto
  moreover have "push_known c st ts' v \<and> push_started_ok st ts' (pl_stop s) v k" if "(v, k) \<in># add_mset (u, h) R" for v k
    using that u results_okD(3,4) [OF J, of v k] push_known_grows [OF _ run(2)] push_started_grows [OF _ run(2)]
    by (auto simp: r)
  moreover have "pushed (st ! j) ts' \<or> push_pending ?s j"
    if "conf_push c" "\<not> pl_stop s" "j < length st" "status_at (ts_images ts') j = BUILT" "active j ?s = 0" for j
  proof (cases "j = i")
    case True
    have "\<not> builds_image i t" using that(5) t(2) True by (auto simp: active_def)
    with p show ?thesis by (auto simp: True push_pending_def)
  next
    case False
    from results_okD(5) [OF J that(1-3)] that(4,5) act other [OF that(3) False] have
      "pushed (st ! j) (pl_ts s) \<or> push_pending s j" by simp
    then show ?thesis
    proof
      assume "pushed (st ! j) (pl_ts s)"
      then show ?thesis using run(2) by (simp add: pushed_grows)
    next
      assume "push_pending s j"
      then show ?thesis using t(1) False by (auto simp: push_pending_def r)
    qed
  qed
  ultimately show ?thesis by (auto simp: results_ok_def)
qed

lemma results_step:
  assumes step: "pool_step c s s'" and inv: "pool_inv c st s" and engine: "known_engine c" and J: "results_ok c st s"
  shows "results_ok c st s'"
  using step
proof cases
  case (pool_take t W)
  have act: "active i s = 0" if "active i s' = 0" for i
    using that by (simp add: pool_take(1) active_def split: if_splits)
  have pend: "push_pending s' i" if "push_pending s i" for i
    using that by (auto simp: push_pending_def pool_take)
  have fresh: "push_started_ok st (pl_ts s) (pl_stop s) t Fresh"
    by (simp add: push_started_ok_def)
  show ?thesis
  proof (rule results_okI)
    show "push_known c st (pl_ts s') u \<and> push_started_ok st (pl_ts s') (pl_stop s') u g" if "(u, g) \<in># pl_running s'" for u g
      using that results_okD(2) [OF J, of t] results_okD(3,4) [OF J, of u g] fresh by (auto simp: pool_take)
    show "pushed (st ! i) (pl_ts s') \<or> push_pending s' i"
      if "conf_push c" "\<not> pl_stop s'" "i < length st" "statuses_of s' i = BUILT" "active i s' = 0" for i
      using results_okD(5) [OF J that(1) _ that(3)] that act pend by (auto simp: pool_take(1))
  qed (use results_okD(1,2) [OF J] in \<open>simp_all add: pool_take\<close>)
next
  case (pool_attempt t g R env r ts' t' puts)
  have shape: "same_shape st (ts_images (pl_ts s))" using pool_invD(1) [OF inv] .
  then have len: "length (ts_images (pl_ts s)) = length st" by (rule same_shape_length)
  have tr: "(t, g) \<in># pl_running s" using pool_attempt(2) by simp
  let ?u = "if r = Inr () \<and> t_success t' then t' else task_reset t'"
  let ?h = "if r = Inr () \<and> t_success t' then Ended else Tried"
  have s': "s' = s\<lparr>pl_ts := ts', pl_waiting := mset puts + pl_waiting s, pl_running := add_mset (?u, ?h) R\<rparr>"
    by (simp add: pool_attempt(1))
  show ?thesis
  proof (cases t)
    case (BuildTask i b)
    have "\<not> b" using pool_invD(5) [OF inv tr] pool_attempt(3) by (simp add: run_ok_def BuildTask)
    then have run: "task_run c env (BuildTask i False) (pl_ts s) = (r, ts', t', puts)"
      using pool_attempt(4) BuildTask by simp
    have "0 < active i s" by (simp add: active_def pool_attempt(2) BuildTask)
    then have i: "i < length st" using active_started(1) [OF inv] inv_started_lt [OF inv] by blast
    note run_done = task_run_build [OF _ run, unfolded len, OF i]
    obtain b' where t': "t' = BuildTask i b'" using run_done by blast
    have "status_at (ts_images ts') i = BUILT \<longrightarrow> engine_called c (st ! i) ts'"
      using run_done engine_called_shape [OF shape i, of c ts'] by simp
    moreover have "puts = []" "touches i (pl_ts s) ts'" "grows (pl_ts s) ts'" using run_done by blast+
    ultimately show ?thesis unfolding s'
      by (intro results_attempt [OF J pool_attempt(2) len, where i = i])
        (simp_all add: BuildTask t' task_reset_def push_known_def push_started_ok_def)
  next
    case (PushTask i b)
    have i: "i < length st"
      using pool_invD(6) [OF inv tr] inv_started_lt [OF inv, of i] by (simp add: PushTask push_ok_def)
    note run = pool_attempt(4) [unfolded PushTask]
    note run_done = task_run_push [OF _ run, unfolded len, OF i]
    obtain b' where t': "t' = PushTask i b'" using run_done by blast
    have grows: "touches i (pl_ts s) ts'" "grows (pl_ts s) ts'" "puts = []" using run_done by blast+
    have called: "engine_called c (st ! i) ts'"
      using results_okD(3) [OF J tr] grows(2) by (auto simp: PushTask push_known_def intro: engine_called_grows)
    moreover have "pushed (st ! i) ts'"
      using run push_run_pushes [OF engine, of env i "pl_ts s"] pushed_shape [OF shape i]
      by (auto split: prod.splits sum.splits)
    ultimately show ?thesis using grows unfolding s'
      by (intro results_attempt [OF J pool_attempt(2) len, where i = i])
        (auto simp: PushTask t' task_reset_def push_known_def push_started_ok_def)
  next
    case (PushIntoQueueTask i b)
    have i: "i < length st"
      using pool_invD(6) [OF inv tr] inv_started_lt [OF inv, of i] by (simp add: PushIntoQueueTask push_ok_def)
    note run_done = task_run_into [OF pool_attempt(4) [unfolded PushIntoQueueTask]]
    have called: "engine_called c (st ! i) (pl_ts s)"
      using results_okD(3) [OF J tr] by (simp add: PushIntoQueueTask push_known_def)
    show ?thesis unfolding s'
      by (intro results_attempt [OF J pool_attempt(2) len, where i = i])
        (use called run_done in \<open>auto simp: PushIntoQueueTask push_known_def push_started_ok_def touches_def grows_def\<close>)
  qed
next
  case (pool_give_up t g R)
  have act: "active i s' = active i s" for i by (simp add: pool_give_up(1,2) active_def)
  have pend: "push_pending s' i" if "push_pending s i" "\<not> pl_stop s" for i
    using that pool_give_up(3) by (auto simp: push_pending_def pool_give_up(1,2))
  have ended: "push_started_ok st (pl_ts s) (pl_stop s) t Ended"
    using results_okD(4) [OF J, of t g] pool_give_up(2,3) by (auto simp: push_started_ok_def)
  show ?thesis
  proof (rule results_okI)
    show "push_known c st (pl_ts s') u \<and> push_started_ok st (pl_ts s') (pl_stop s') u h" if "(u, h) \<in># pl_running s'" for u h
      using that results_okD(3) [OF J, of t g] results_okD(3,4) [OF J, of u h] ended by (auto simp: pool_give_up(1,2))
    show "pushed (st ! i) (pl_ts s') \<or> push_pending s' i"
      if "conf_push c" "\<not> pl_stop s'" "i < length st" "statuses_of s' i = BUILT" "active i s' = 0" for i
      using results_okD(5) [OF J that(1) _ that(3)] that act pend by (auto simp: pool_give_up(1))
  qed (use results_okD(1,2) [OF J] in \<open>simp_all add: pool_give_up(1,2)\<close>)
next
  case (pool_finish t R fs)
  have tr: "(t, Ended) \<in># pl_running s" using pool_finish(2) by simp
  have act: "active i s = (if builds_image i t then 1 else 0) + active i s'" for i
    by (simp add: pool_finish(1,2) active_def)
  have pend: "push_pending s' i" if "push_pending s i" for i
    using that by (auto simp: push_pending_def pool_finish(1,2))
  have known: "push_known c st (pl_ts s) u" if "u \<in> set fs" for u
    using that pool_finish(3) pool_invD(5) [OF inv tr]
    by (cases t) (auto simp: push_known_def run_ok_def split: if_splits)
  show ?thesis
  proof (rule results_okI)
    show "push_known c st (pl_ts s') u" if "u \<in># pl_waiting s'" for u
      using that known results_okD(2) [OF J, of u] by (auto simp: pool_finish(1))
    show "push_known c st (pl_ts s') u \<and> push_started_ok st (pl_ts s') (pl_stop s') u h" if "(u, h) \<in># pl_running s'" for u h
      using that results_okD(3,4) [OF J, of u h] by (auto simp: pool_finish(1,2))
    show "pushed (st ! i) (pl_ts s') \<or> push_pending s' i"
      if i: "conf_push c" "\<not> pl_stop s'" "i < length st" "statuses_of s' i = BUILT" "active i s' = 0" for i
    proof (cases "builds_image i t")
      case True
      then obtain b where t: "t = BuildTask i b" by (cases t) auto
      have "b" using pool_invD(5) [OF inv tr] i(2,4) by (simp add: run_ok_def t pool_finish(1))
      then have "PushIntoQueueTask i False \<in> set fs"
        using pool_finish(3) i(1,2) by (auto simp: t pool_finish(1))
      then show ?thesis by (force simp: push_pending_def pool_finish(1))
    next
      case False
      with results_okD(5) [OF J i(1) _ i(3)] i act [of i] pend [of i] show ?thesis by (auto simp: pool_finish(1))
    qed
  qed (use results_okD(1) [OF J] in \<open>simp add: pool_finish(1)\<close>)
next
  case pool_stop
  with J show ?thesis by (auto simp: results_ok_def push_started_ok_def active_def push_known_def)
qed

section \<open>At the end\<close>

lemma results_reachable:
  assumes "pool_reachable c st s" and "forest_links st" and "known_engine c"
    and "\<forall>i < length st. status_at st i \<noteq> BUILT"
  shows "results_ok c st s"
  using assms(1)
proof (induction rule: pool_reachable.induct)
  case pool_start
  show ?case using assms(4) by (rule results_init)
next
  case (pool_go s s')
  show ?case
    by (rule results_step [OF pool_go(2) pool_reachable_inv [OF pool_go(1) assms(2)] assms(3) pool_go.IH])
qed

lemma built_images_at_end:
  assumes run: "sys_run c st ls s" and forest: "forest_links st" and engine: "known_engine c"
    and start: "\<forall>i < length st. status_at st i \<noteq> BUILT"
    and ended: "\<not> sys_interrupted s" "sys_main s \<in> {MainPushTomb, MainBuildTomb, MainJoining, MainDone}"
    and i: "i < length st" "status_at (ts_images (sys_ts s)) i = BUILT"
  shows "engine_called c (st ! i) (sys_ts s) \<and> (conf_push c \<longrightarrow> pushed (st ! i) (sys_ts s))"
proof -
  have "pool_reachable c st (sys_pool s)" using sys_run_refines [OF run] ..
  note J = results_reachable [OF this forest engine start]
  note idle = idle_pool [OF run ended]
  have "engine_called c (st ! i) (sys_ts s)"
    using results_okD(1) [OF J i(1)] i(2) by (simp add: sys_pool_def)
  moreover have "pushed (st ! i) (sys_ts s)" if "conf_push c"
  proof -
    have "\<not> push_pending (sys_pool s) i" "active i (sys_pool s) = 0"
      using idle by (simp_all add: push_pending_def active_def)
    with results_okD(5) [OF J that _ i(1)] i(2) ended(1) show ?thesis by (simp add: sys_pool_def)
  qed
  ultimately show ?thesis by blast
qed

end
