(* ===== verification/Source_Table.thy ===== *)
theory Source_Table
  imports Kolla_Prelude
begin

text \<open>
  The sources of the images: the table of \<open>kolla/common/sources.py\<close>, in its order. A key that an
  entry does not have is \<open>None\<close>. The table is long and given in three parts.
\<close>

record source_params =
  sp_type :: string
  sp_location :: string
  sp_reference :: "string option"
  sp_enabled :: "bool option"
  sp_version :: "string option"
  sp_sha256 :: "(string, string) dict option"

definition url_source :: "string \<Rightarrow> source_params" where
  "url_source location = \<lparr>sp_type = ''url'', sp_location = location, sp_reference = None,
     sp_enabled = None, sp_version = None, sp_sha256 = None\<rparr>"

definition git_source :: "string \<Rightarrow> string \<Rightarrow> source_params" where
  "git_source reference location = \<lparr>sp_type = ''git'', sp_location = location,
     sp_reference = Some reference, sp_enabled = None, sp_version = None, sp_sha256 = None\<rparr>"

definition versioned_source :: "string \<Rightarrow> string \<Rightarrow> string \<Rightarrow> string \<Rightarrow> source_params" where
  "versioned_source version amd64 arm64 location = \<lparr>sp_type = ''url'', sp_location = location,
     sp_reference = None, sp_enabled = None, sp_version = Some version,
     sp_sha256 = Some [(''amd64'', amd64), (''arm64'', arm64)]\<rparr>"

definition sources_1 :: "(string, source_params) dict" where
  "sources_1 =
     [(''openstack-base'', url_source ''$tarballs_base/openstack/requirements/requirements-${openstack_branch}.tar.gz''),
      (''aodh-base'', url_source ''$tarballs_base/openstack/aodh/aodh-${openstack_branch}.tar.gz''),
      (''barbican-base'', url_source ''$tarballs_base/openstack/barbican/barbican-${openstack_branch}.tar.gz''),
      (''bifrost-base'', url_source ''$tarballs_base/openstack/bifrost/bifrost-${openstack_branch}.tar.gz''),
      (''blazar-base'', url_source ''$tarballs_base/openstack/blazar/blazar-${openstack_branch}.tar.gz''),
      (''ceilometer-base'', url_source ''$tarballs_base/openstack/ceilometer/ceilometer-${openstack_branch}.tar.gz''),
      (''cinder-base'', url_source ''$tarballs_base/openstack/cinder/cinder-${openstack_branch}.tar.gz''),
      (''cloudkitty-base'', url_source ''$tarballs_base/openstack/cloudkitty/cloudkitty-${openstack_branch}.tar.gz''),
      (''cyborg-base'', url_source ''$tarballs_base/openstack/cyborg/cyborg-${openstack_branch}.tar.gz''),
      (''designate-base'', url_source ''$tarballs_base/openstack/designate/designate-${openstack_branch}.tar.gz''),
      (''etcd'', versioned_source ''3.6.4''
        ''4d5f3101daa534e45ccaf3eec8d21c19b7222db377bcfd5e5a9144155238c105''
        ''323421fa279f4f3d7da4c7f2dfa17d9e49529cb2b4cdf40899a7416bccdde42d''
        ''https://github.com/etcd-io/etcd/releases/download/v${version}/etcd-v${version}-linux-${debian_arch}.tar.gz''),
      (''glance-base'', url_source ''$tarballs_base/openstack/glance/glance-${openstack_branch}.tar.gz''),
      (''gnocchi-base'', git_source ''4.7.0'' ''https://github.com/gnocchixyz/gnocchi.git''),
      (''heat-base'', url_source ''$tarballs_base/openstack/heat/heat-${openstack_branch}.tar.gz''),
      (''horizon'', url_source ''$tarballs_base/openstack/horizon/horizon-${openstack_branch}.tar.gz''),
      (''horizon-plugin-blazar-dashboard'', url_source ''$tarballs_base/openstack/blazar-dashboard/blazar-dashboard-${openstack_branch}.tar.gz''),
      (''horizon-plugin-cloudkitty-dashboard'', url_source ''$tarballs_base/openstack/cloudkitty-dashboard/cloudkitty-dashboard-${openstack_branch}.tar.gz''),
      (''horizon-plugin-designate-dashboard'', url_source ''$tarballs_base/openstack/designate-dashboard/designate-dashboard-${openstack_branch}.tar.gz''),
      (''horizon-plugin-fwaas-dashboard'', url_source ''$tarballs_base/openstack/neutron-fwaas-dashboard/neutron-fwaas-dashboard-${openstack_branch}.tar.gz''),
      (''horizon-plugin-heat-dashboard'', url_source ''$tarballs_base/openstack/heat-dashboard/heat-dashboard-${openstack_branch}.tar.gz''),
      (''horizon-plugin-ironic-ui'', url_source ''$tarballs_base/openstack/ironic-ui/ironic-ui-${openstack_branch}.tar.gz''),
      (''horizon-plugin-magnum-ui'', url_source ''$tarballs_base/openstack/magnum-ui/magnum-ui-${openstack_branch}.tar.gz''),
      (''horizon-plugin-manila-ui'', url_source ''$tarballs_base/openstack/manila-ui/manila-ui-${openstack_branch}.tar.gz''),
      (''horizon-plugin-masakari-dashboard'', url_source ''$tarballs_base/openstack/masakari-dashboard/masakari-dashboard-${openstack_branch}.tar.gz''),
      (''horizon-plugin-mistral-dashboard'', url_source ''$tarballs_base/openstack/mistral-dashboard/mistral-dashboard-${openstack_branch}.tar.gz''),
      (''horizon-plugin-neutron-vpnaas-dashboard'', url_source ''$tarballs_base/openstack/neutron-vpnaas-dashboard/neutron-vpnaas-dashboard-${openstack_branch}.tar.gz''),
      (''horizon-plugin-octavia-dashboard'', url_source ''$tarballs_base/openstack/octavia-dashboard/octavia-dashboard-${openstack_branch}.tar.gz''),
      (''horizon-plugin-tacker-dashboard'', url_source ''$tarballs_base/openstack/tacker-horizon/tacker-horizon-${openstack_branch}.tar.gz''),
      (''horizon-plugin-trove-dashboard'', url_source ''$tarballs_base/openstack/trove-dashboard/trove-dashboard-${openstack_branch}.tar.gz''),
      (''horizon-plugin-watcher-dashboard'', url_source ''$tarballs_base/openstack/watcher-dashboard/watcher-dashboard-${openstack_branch}.tar.gz''),
      (''horizon-plugin-zun-ui'', url_source ''$tarballs_base/openstack/zun-ui/zun-ui-${openstack_branch}.tar.gz''),
      (''ironic-base'', url_source ''$tarballs_base/openstack/ironic/ironic-${openstack_branch}.tar.gz''),
      (''ironic-conductor-plugin-prometheus-exporter'', url_source ''$tarballs_base/openstack/ironic-prometheus-exporter/ironic-prometheus-exporter-${openstack_branch}.tar.gz''),
      (''keystone-base'', url_source ''$tarballs_base/openstack/keystone/keystone-${openstack_branch}.tar.gz''),
      (''kuryr-base'', url_source ''$tarballs_base/openstack/kuryr/kuryr-${openstack_branch}.tar.gz'')]"

definition sources_2 :: "(string, source_params) dict" where
  "sources_2 =
     [(''kuryr-libnetwork'', url_source ''$tarballs_base/openstack/kuryr-libnetwork/kuryr-libnetwork-${openstack_branch}.tar.gz''),
      (''letsencrypt-lego'', versioned_source ''v4.25.2''
        ''6022cf99bdc310ebba21c059fcbf1cb5939e17b2f95dade6bb6f878f9590a961''
        ''3dc4bc343b265a66bb174d3dd03b769bc40c326d680b240b948d12e97ddd4bf8''
        ''https://github.com/go-acme/lego/releases/download/${version}/lego_${version}_linux_${debian_arch}.tar.gz''),
      (''magnum-base'', url_source ''$tarballs_base/openstack/magnum/magnum-${openstack_branch}.tar.gz''),
      (''magnum-conductor-plugin-helm'', versioned_source ''v3.16.3''
        ''f5355c79190951eed23c5432a3b920e071f4c00a64f75e077de0dd4cb7b294ea''
        ''5bd34ed774df6914b323ff84a0a156ea6ff2ba1eaf0113962fa773f3f9def798''
        ''https://get.helm.sh/helm-${version}-linux-${debian_arch}.tar.gz''),
      (''manila-base'', url_source ''$tarballs_base/openstack/manila/manila-${openstack_branch}.tar.gz''),
      (''mariadb-server-plugin-mariadb-docker'', git_source ''master'' ''https://github.com/MariaDB/mariadb-docker''),
      (''masakari-base'', url_source ''$tarballs_base/openstack/masakari/masakari-${openstack_branch}.tar.gz''),
      (''masakari-monitors'', url_source ''$tarballs_base/openstack/masakari-monitors/masakari-monitors-${openstack_branch}.tar.gz''),
      (''mistral-base'', url_source ''$tarballs_base/openstack/mistral/mistral-${openstack_branch}.tar.gz''),
      (''mistral-base-plugin-tacker'', url_source ''$tarballs_base/openstack/tacker/tacker-${openstack_branch}.tar.gz''),
      (''neutron-base'', url_source ''$tarballs_base/openstack/neutron/neutron-${openstack_branch}.tar.gz''),
      (''neutron-base-plugin-neutron-fwaas'', url_source ''$tarballs_base/openstack/neutron-fwaas/neutron-fwaas-${openstack_branch}.tar.gz''),
      (''neutron-base-plugin-networking-baremetal'', url_source ''$tarballs_base/openstack/networking-baremetal/networking-baremetal-${openstack_branch}.tar.gz''),
      (''neutron-base-plugin-networking-generic-switch'', url_source ''$tarballs_base/openstack/networking-generic-switch/networking-generic-switch-${openstack_branch}.tar.gz''),
      (''neutron-base-plugin-networking-sfc'', url_source ''$tarballs_base/openstack/networking-sfc/networking-sfc-${openstack_branch}.tar.gz''),
      (''neutron-base-plugin-vpnaas-agent'', url_source ''$tarballs_base/openstack/neutron-vpnaas/neutron-vpnaas-${openstack_branch}.tar.gz''),
      (''neutron-bgp-dragent'', url_source ''$tarballs_base/openstack/neutron-dynamic-routing/neutron-dynamic-routing-${openstack_branch}.tar.gz''),
      (''neutron-server-plugin-neutron-dynamic-routing'', url_source ''$tarballs_base/openstack/neutron-dynamic-routing/neutron-dynamic-routing-${openstack_branch}.tar.gz''),
      (''neutron-vpnaas-agent'', url_source ''$tarballs_base/openstack/neutron-vpnaas/neutron-vpnaas-${openstack_branch}.tar.gz''),
      (''nova-base'', url_source ''$tarballs_base/openstack/nova/nova-${openstack_branch}.tar.gz''),
      (''nova-base-plugin-blazar'', url_source ''$tarballs_base/openstack/blazar-nova/blazar-nova-${openstack_branch}.tar.gz''),
      (''octavia-base'', url_source ''$tarballs_base/openstack/octavia/octavia-${openstack_branch}.tar.gz''),
      (''octavia-api-plugin-ovn-octavia-provider'', url_source ''$tarballs_base/openstack/ovn-octavia-provider/ovn-octavia-provider-${openstack_branch}.tar.gz''),
      (''octavia-driver-agent-plugin-ovn-octavia-provider'', url_source ''$tarballs_base/openstack/ovn-octavia-provider/ovn-octavia-provider-${openstack_branch}.tar.gz''),
      (''placement-base'', url_source ''$tarballs_base/openstack/placement/placement-${openstack_branch}.tar.gz''),
      (''prometheus-alertmanager'', versioned_source ''0.28.1''
        ''5ac7ab5e4b8ee5ce4d8fb0988f9cb275efcc3f181b4b408179fafee121693311''
        ''d8832540e5b9f613d2fd759e31d603173b9c61cc7bb5e3bc7ae2f12038b1ce4f''
        ''https://github.com/prometheus/alertmanager/releases/download/v${version}/alertmanager-${version}.linux-${debian_arch}.tar.gz''),
      (''prometheus-blackbox-exporter'', versioned_source ''0.27.0''
        ''507a77ff411822fd6b543e8b8d9e00e1cc49408df465588cd746753bf05046e2''
        ''618f0ce44ecec617d5aab28f7e4cb930b41b45fcd3d899536d2b9653fc176e5a''
        ''https://github.com/prometheus/blackbox_exporter/releases/download/v${version}/blackbox_exporter-${version}.linux-${debian_arch}.tar.gz''),
      (''prometheus-cadvisor'', versioned_source ''0.53.0''
        ''999c2c77b3ae80ea00b63a876a1ed92cc68e0a307fb3c51057107101e417bd0a''
        ''8c898e2d9a9d8e3b3b8b22a1a29b4489b2a7c962d0b8bca204c4f777d3961feb''
        ''https://github.com/google/cadvisor/releases/download/v${version}/cadvisor-v${version}-linux-${debian_arch}'')]"

definition sources_3 :: "(string, source_params) dict" where
  "sources_3 =
     [(''prometheus-elasticsearch-exporter'', versioned_source ''1.9.0''
        ''472fcafab63c5a3a2dd17d9a5e9919de4741a72e4f286c1e6252f3d99cebe425''
        ''d1ba36fe0a6b7ce84d995e728044b53cc869f6033ce0ead4601232205d850947''
        ''https://github.com/prometheus-community/elasticsearch_exporter/releases/download/v${version}/elasticsearch_exporter-${version}.linux-${debian_arch}.tar.gz''),
      (''prometheus-libvirt-exporter'', versioned_source ''2.2.0''
        ''37e26779be1ebaef2e76d7304a3d3ecfbdc232a5c57645ee0f97b13f014bd842''
        ''94ac011349d60d70c14985df2942d02ecac87c0b7c7a468133394eb1800a22b0''
        ''https://github.com/inovex/prometheus-libvirt-exporter/releases/download/v${version}/prometheus-libvirt-exporter-${version}.linux-${debian_arch}.tar.gz''),
      (''prometheus-memcached-exporter'', versioned_source ''0.15.3''
        ''7e4eb9f4af3971918fbfd35fa31b74dc08b2a728f488f934d8c7c7ecced2c85f''
        ''8565c24a80e30e189479b1092d23a7cc9173fc3f3591881b34ed99c62c3ead6f''
        ''https://github.com/prometheus/memcached_exporter/releases/download/v${version}/memcached_exporter-${version}.linux-${debian_arch}.tar.gz''),
      (''prometheus-mtail'', versioned_source ''3.0.8''
        ''123c2ee5f48c3eff12ebccee38befd2233d715da736000ccde49e3d5607724e4''
        ''aa04811c0929b6754408676de520e050c45dddeb3401881888a092c9aea89cae''
        ''https://github.com/google/mtail/releases/download/v${version}/mtail_${version}_linux_${debian_arch}.tar.gz''),
      (''prometheus-mysqld-exporter'', versioned_source ''0.17.2''
        ''ef6a2322b869d7d3c1ee3493e28a939ff80b367373142b9b2f3f70a6709d00d7''
        ''7d7ba18830ca374812a75cca1519b7c2fdea6d14183787bcd1b36900cdf588ee''
        ''https://github.com/prometheus/mysqld_exporter/releases/download/v${version}/mysqld_exporter-${version}.linux-${debian_arch}.tar.gz''),
      (''prometheus-node-exporter'', versioned_source ''1.9.1''
        ''becb950ee80daa8ae7331d77966d94a611af79ad0d3307380907e0ec08f5b4e8''
        ''848f139986f63232ced83babe3cad1679efdbb26c694737edc1f4fbd27b96203''
        ''https://github.com/prometheus/node_exporter/releases/download/v${version}/node_exporter-${version}.linux-${debian_arch}.tar.gz''),
      (''prometheus-openstack-exporter'', versioned_source ''1.7.0''
        ''dfaa0d3dcff22e882d3f61c56bb9ac6f70790df9d67361464159bbb4c7223192''
        ''d6e0b23fe755732a93796255e3a2be8ec5a699b0a64c21afd377c60ccf60cd55''
        ''https://github.com/openstack-exporter/openstack-exporter/releases/download/v${version}/openstack-exporter_${version}_linux_${debian_arch}.tar.gz''),
      (''prometheus-server'', versioned_source ''3.5.0''
        ''e811827af26d822afb09a4f28314f61b618b12cff5369835a67f674d8b46f39a''
        ''173389cc42bf09c4e6e54cb53fa07a5a835d7c261e14775d2183181d6e385d1c''
        ''https://github.com/prometheus/prometheus/releases/download/v${version}/prometheus-${version}.linux-${debian_arch}.tar.gz''),
      (''skyline-apiserver'', url_source ''$tarballs_base/openstack/skyline-apiserver/skyline-apiserver-${openstack_branch}.tar.gz''),
      (''skyline-console'', url_source ''$tarballs_base/openstack/skyline-console/skyline-console-${openstack_branch}.tar.gz''),
      (''tacker-base'', url_source ''$tarballs_base/openstack/tacker/tacker-${openstack_branch}.tar.gz''),
      (''tacker-base-plugin-networking-sfc'', url_source ''$tarballs_base/openstack/networking-sfc/networking-sfc-${openstack_branch}.tar.gz''),
      (''trove-base'', url_source ''$tarballs_base/openstack/trove/trove-${openstack_branch}.tar.gz''),
      (''watcher-base'', url_source ''$tarballs_base/openstack/watcher/watcher-${openstack_branch}.tar.gz''),
      (''zun-base'', url_source ''$tarballs_base/openstack/zun/zun-${openstack_branch}.tar.gz'')]"

definition SOURCES :: "(string, source_params) dict" where
  "SOURCES = sources_1 @ sources_2 @ sources_3"

lemmas source_table_defs =
  SOURCES_def sources_1_def sources_2_def sources_3_def

lemma source_names_distinct: "distinct (map fst SOURCES)"
  by code_simp

end
