(* ===== verification/Config_Options.thy ===== *)
theory Config_Options
  imports Config_Data Source_Table
begin

text \<open>
  The options of \<open>kolla/common/config.py\<close> and \<open>parse\<close>. An option is what its declaration says of it,
  except for the help text. oslo.config is known by what it documents: options are registered in
  groups; the value of an option is the one that was assigned to it on the command line or in a
  file, or else the default set later, or else the default of its declaration. What is assigned is a
  parameter, and so is an error in reading it. Values that refer to other options are expanded by
  oslo.config when they are read; the options read here are taken as they stand.
\<close>

section \<open>Options\<close>

datatype opt_kind = StrOpt | BoolOpt | IntOpt | ListOpt | DictOpt | MultiOpt

datatype opt_value =
    NoValue | StrValue string | BoolValue bool | IntValue int | ListValue "string list"
  | DictValue "(string, string) dict"

record cfg_opt =
  opt_kind :: opt_kind
  opt_name :: string
  opt_default :: opt_value
  opt_short :: "char option"
  opt_choices :: "string list"
  opt_min :: "int option"
  opt_positional :: bool

definition opt :: "opt_kind \<Rightarrow> string \<Rightarrow> opt_value \<Rightarrow> cfg_opt" where
  "opt kind name v = \<lparr>opt_kind = kind, opt_name = name, opt_default = v, opt_short = None,
     opt_choices = [], opt_min = None, opt_positional = False\<rparr>"

text \<open>The name of an option in the program.\<close>

definition opt_dest :: "cfg_opt \<Rightarrow> string" where
  "opt_dest ot = py_replace_char (CHR ''-'') (CHR ''_'') (opt_name ot)"

section \<open>The declarations\<close>

definition OPENSTACK_RELEASE :: string where
  "OPENSTACK_RELEASE = ''2025.2''"

definition OPENSTACK_RELEASE_CODENAME :: string where
  "OPENSTACK_RELEASE_CODENAME = ''Epoxy''"

definition TARBALLS_BASE :: string where
  "TARBALLS_BASE = ''https://tarballs.opendev.org''"

definition PROFILE_OPTS :: "cfg_opt list" where
  "PROFILE_OPTS =
     [opt ListOpt ''infra'' (ListValue [''cron'', ''etcd'', ''fluentd'', ''haproxy'', ''hacluster'',
        ''keepalived'', ''kolla-toolbox'', ''letsencrypt'', ''mariadb'', ''memcached'', ''opensearch'',
        ''openvswitch'', ''proxysql'', ''rabbitmq'', ''redis'', ''storm'', ''tgtd'']),
      opt ListOpt ''main'' (ListValue [''ceilometer'', ''cinder'', ''glance'', ''heat'', ''horizon'',
        ''iscsi'', ''keystone'', ''neutron'', ''nova-'', ''placement'']),
      opt ListOpt ''aux'' (ListValue [''aodh'', ''blazar'', ''cloudkitty'', ''designate'', ''gnocchi'',
        ''influxdb'', ''ironic'', ''kafka'', ''kuryr'', ''magnum'', ''manila'', ''masakari'', ''mistral'',
        ''octavia'', ''redis'', ''tacker'', ''telegraf'', ''trove'', ''zookeeper'', ''zun'']),
      opt ListOpt ''default'' (ListValue [''cron'', ''kolla-toolbox'', ''fluentd'', ''glance'',
        ''haproxy'', ''heat'', ''horizon'', ''keepalived'', ''keystone'', ''mariadb'', ''memcached'',
        ''neutron'', ''nova-'', ''placement'', ''proxysql'', ''openvswitch'', ''rabbitmq''])]"

text \<open>\<open>os.uname()[4]\<close> is an argument; on other machines the name \<open>debianarch\<close> is not bound.\<close>

definition hostarch_of :: "string \<Rightarrow> string" where
  "hostarch_of machine = (if machine = ''arm64'' then ''aarch64'' else machine)"

definition debianarch_of :: "string \<Rightarrow> string option" where
  "debianarch_of hostarch =
     (if hostarch = ''aarch64'' then Some ''arm64''
      else if hostarch = ''x86_64'' then Some ''amd64''
      else None)"

definition CLI_OPTS :: "string \<Rightarrow> string \<Rightarrow> string \<Rightarrow> cfg_opt list" where
  "CLI_OPTS hostarch debianarch version =
     [(opt StrOpt ''base'' (StrValue ''rocky''))\<lparr>opt_short := Some CHR ''b'', opt_choices := BASE_OS_DISTRO\<rparr>,
      opt StrOpt ''base-tag'' (StrValue ''latest''),
      opt StrOpt ''base-image'' NoValue,
      (opt StrOpt ''base-arch'' (StrValue hostarch))\<lparr>opt_choices := BASE_ARCH\<rparr>,
      (opt StrOpt ''debian-arch'' (StrValue debianarch))\<lparr>opt_choices := DEBIAN_ARCH\<rparr>,
      opt BoolOpt ''use-dumb-init'' (BoolValue True),
      (opt BoolOpt ''debug'' (BoolValue False))\<lparr>opt_short := Some CHR ''d''\<rparr>,
      opt BoolOpt ''skip-parents'' (BoolValue False),
      opt BoolOpt ''skip-existing'' (BoolValue False),
      opt DictOpt ''build-args'' NoValue,
      opt BoolOpt ''keep'' (BoolValue False),
      (opt BoolOpt ''list-dependencies'' NoValue)\<lparr>opt_short := Some CHR ''l''\<rparr>,
      opt BoolOpt ''list-images'' NoValue,
      opt StrOpt ''locals-base'' (StrValue ''./''),
      (opt StrOpt ''namespace'' (StrValue ''kolla''))\<lparr>opt_short := Some CHR ''n''\<rparr>,
      opt StrOpt ''network_mode'' (StrValue ''host''),
      opt BoolOpt ''cache'' (BoolValue True),
      opt StrOpt ''patches-path'' NoValue,
      opt StrOpt ''platform'' NoValue,
      (opt MultiOpt ''profile'' NoValue)\<lparr>opt_short := Some CHR ''p''\<rparr>,
      opt BoolOpt ''push'' (BoolValue False),
      (opt IntOpt ''push-threads'' (IntValue 1))\<lparr>opt_min := Some 1\<rparr>,
      (opt IntOpt ''retries'' (IntValue 3))\<lparr>opt_short := Some CHR ''r'', opt_min := Some 0\<rparr>,
      (opt MultiOpt ''regex'' NoValue)\<lparr>opt_positional := True\<rparr>,
      opt StrOpt ''registry'' NoValue,
      opt StrOpt ''save-dependency'' NoValue,
      (opt StrOpt ''format'' (StrValue ''json''))\<lparr>opt_short := Some CHR ''f'', opt_choices := [''json'', ''none'']\<rparr>,
      opt StrOpt ''summary-json-file'' NoValue,
      opt StrOpt ''tarballs-base'' (StrValue TARBALLS_BASE),
      (opt IntOpt ''threads'' (IntValue 8))\<lparr>opt_short := Some CHR ''T'', opt_min := Some 1\<rparr>,
      opt StrOpt ''tag'' (StrValue version),
      opt BoolOpt ''template-only'' (BoolValue False),
      opt IntOpt ''timeout'' (IntValue 120),
      opt MultiOpt ''template-override'' NoValue,
      (opt MultiOpt ''docker-dir'' NoValue)\<lparr>opt_short := Some CHR ''D''\<rparr>,
      opt StrOpt ''logs-dir'' NoValue,
      opt BoolOpt ''pull'' (BoolValue True),
      opt StrOpt ''work-dir'' NoValue,
      opt BoolOpt ''squash'' (BoolValue False),
      opt StrOpt ''openstack-release'' (StrValue OPENSTACK_RELEASE),
      opt StrOpt ''openstack-release-codename'' (StrValue OPENSTACK_RELEASE_CODENAME),
      opt StrOpt ''openstack-branch'' NoValue,
      opt StrOpt ''openstack-branch-slashed'' NoValue,
      opt BoolOpt ''docker-healthchecks'' (BoolValue True),
      (opt BoolOpt ''quiet'' (BoolValue False))\<lparr>opt_short := Some CHR ''q''\<rparr>,
      opt BoolOpt ''enable-unbuildable'' (BoolValue False),
      opt BoolOpt ''summary'' (BoolValue True),
      opt StrOpt ''image-name-prefix'' (StrValue []),
      opt StrOpt ''repos-yaml'' (StrValue []),
      (opt StrOpt ''engine'' (StrValue ''docker''))\<lparr>opt_choices := [''docker'', ''podman'']\<rparr>,
      opt StrOpt ''podman_base_url'' (StrValue ''unix:///run/podman/podman.sock'')]"

definition BASE_OPTS :: "cfg_opt list" where
  "BASE_OPTS =
     [opt StrOpt ''maintainer'' (StrValue ''Kolla Project (https://launchpad.net/kolla)''),
      opt StrOpt ''distro_package_manager'' NoValue,
      opt StrOpt ''base_package_type'' NoValue,
      opt ListOpt ''rpm_setup_config'' (ListValue []),
      opt StrOpt ''apt_sources_list'' NoValue,
      opt StrOpt ''apt_preferences'' NoValue,
      opt BoolOpt ''squash-cleanup'' (BoolValue True),
      opt StrOpt ''squash-tmp-dir'' NoValue,
      opt BoolOpt ''clean_package_cache'' (BoolValue True),
      opt ListOpt ''allowed-to-fail'' (ListValue [])]"

definition str_value :: "string option \<Rightarrow> opt_value" where
  "str_value v = (case v of None \<Rightarrow> NoValue | Some s \<Rightarrow> StrValue s)"

definition get_source_opts ::
    "string option \<Rightarrow> string option \<Rightarrow> string option \<Rightarrow> bool \<Rightarrow> string option \<Rightarrow>
     (string, string) dict option \<Rightarrow> cfg_opt list" where
  "get_source_opts type location reference enabled version sha256 =
     [(opt StrOpt ''type'' (str_value type))\<lparr>opt_choices := [''local'', ''git'', ''url'']\<rparr>,
      opt StrOpt ''location'' (str_value location),
      opt StrOpt ''reference'' (str_value reference),
      opt BoolOpt ''enabled'' (BoolValue enabled),
      opt StrOpt ''version'' (str_value version),
      opt DictOpt ''sha256'' (case sha256 of None \<Rightarrow> NoValue | Some d \<Rightarrow> DictValue d)]"

definition get_user_opts :: "nat \<Rightarrow> nat \<Rightarrow> string \<Rightarrow> cfg_opt list" where
  "get_user_opts uid gid grp =
     [opt IntOpt ''uid'' (IntValue (int uid)), opt IntOpt ''gid'' (IntValue (int gid)),
      opt StrOpt ''group'' (StrValue grp)]"

definition all_user_opts :: "(string \<times> cfg_opt list) list" where
  "all_user_opts = map (\<lambda>(name, uid, gid, grp). (name, get_user_opts uid gid grp)) gen_all_user_opts"

definition source_opts :: "source_params \<Rightarrow> cfg_opt list" where
  "source_opts p = get_source_opts (Some (sp_type p)) (Some (sp_location p)) (sp_reference p)
     (case sp_enabled p of None \<Rightarrow> True | Some b \<Rightarrow> b) (sp_version p) (sp_sha256 p)"

definition gen_all_source_opts :: "(string \<times> cfg_opt list) list" where
  "gen_all_source_opts = map (\<lambda>(name, p). (name, source_opts p)) SOURCES"

definition list_opts :: "string \<Rightarrow> string \<Rightarrow> string \<Rightarrow> (string option \<times> cfg_opt list) list" where
  "list_opts hostarch debianarch version =
     [(None, CLI_OPTS hostarch debianarch version), (None, BASE_OPTS), (Some ''profiles'', PROFILE_OPTS)] @
     map (\<lambda>(name, os). (Some name, os)) (gen_all_source_opts @ all_user_opts)"

section \<open>The configuration object\<close>

text \<open>
  The options without a group are the group \<open>DEFAULT\<close>. An attribute that was assigned to the object
  (\<open>conf.base_image = ...\<close>) hides the option.
\<close>

record cfg_conf =
  cf_groups :: "(string, cfg_opt list) dict"
  cf_assigned :: "string \<Rightarrow> string \<Rightarrow> opt_value option"
  cf_defaults :: "(string, opt_value) dict"
  cf_attrs :: "(string, opt_value) dict"

definition default_group :: string where
  "default_group = ''DEFAULT''"

definition group_opts :: "cfg_conf \<Rightarrow> string \<Rightarrow> cfg_opt list" where
  "group_opts cf grp = (case dict_get (cf_groups cf) grp of None \<Rightarrow> [] | Some os \<Rightarrow> os)"

definition find_opt :: "cfg_opt list \<Rightarrow> string \<Rightarrow> cfg_opt option" where
  "find_opt os dest = find (\<lambda>ot. opt_dest ot = dest) os"

text \<open>Registering an option again is an error unless it is the same option.\<close>

fun register_opts :: "cfg_opt list \<Rightarrow> string \<Rightarrow> cfg_conf \<Rightarrow> py_exn + cfg_conf" where
  "register_opts [] grp cf = Inr cf"
| "register_opts (ot # os) grp cf =
     (case find_opt (group_opts cf grp) (opt_dest ot) of
        Some old \<Rightarrow> if old = ot then register_opts os grp cf else Inl (LibraryException ''DuplicateOptError'')
      | None \<Rightarrow> register_opts os grp
          (cf\<lparr>cf_groups := dict_set grp (group_opts cf grp @ [ot]) (cf_groups cf)\<rparr>))"

fun register_groups :: "(string \<times> cfg_opt list) list \<Rightarrow> cfg_conf \<Rightarrow> py_exn + cfg_conf" where
  "register_groups [] cf = Inr cf"
| "register_groups ((grp, os) # gs) cf =
     (case register_opts os grp cf of Inl e \<Rightarrow> Inl e | Inr cf' \<Rightarrow> register_groups gs cf')"

text \<open>\<open>conf.dest\<close> and \<open>conf[grp][dest]\<close>.\<close>

definition conf_get :: "cfg_conf \<Rightarrow> string \<Rightarrow> py_exn + opt_value" where
  "conf_get cf dest =
     (case dict_get (cf_attrs cf) dest of
        Some v \<Rightarrow> Inr v
      | None \<Rightarrow>
          (case find_opt (group_opts cf default_group) dest of
             None \<Rightarrow> Inl AttributeError
           | Some ot \<Rightarrow>
               (case cf_assigned cf default_group dest of
                  Some v \<Rightarrow> Inr v
                | None \<Rightarrow> Inr (case dict_get (cf_defaults cf) dest of Some v \<Rightarrow> v | None \<Rightarrow> opt_default ot))))"

definition group_get :: "cfg_conf \<Rightarrow> string \<Rightarrow> string \<Rightarrow> py_exn + opt_value" where
  "group_get cf grp dest =
     (case find_opt (group_opts cf grp) dest of
        None \<Rightarrow> Inl (KeyError dest)
      | Some ot \<Rightarrow> (case cf_assigned cf grp dest of Some v \<Rightarrow> Inr v | None \<Rightarrow> Inr (opt_default ot)))"

definition set_default :: "string \<Rightarrow> opt_value \<Rightarrow> cfg_conf \<Rightarrow> cfg_conf" where
  "set_default dest v cf = cf\<lparr>cf_defaults := dict_set dest v (cf_defaults cf)\<rparr>"

section \<open>parse\<close>

text \<open>Registering the options, in the order of \<open>parse\<close>.\<close>

definition registered_groups :: "string \<Rightarrow> string \<Rightarrow> string \<Rightarrow> (string \<times> cfg_opt list) list" where
  "registered_groups hostarch debianarch version =
     [(default_group, CLI_OPTS hostarch debianarch version), (default_group, BASE_OPTS),
      (''profiles'', PROFILE_OPTS)] @ gen_all_source_opts @ all_user_opts"

definition empty_conf :: cfg_conf where
  "empty_conf = \<lparr>cf_groups = [], cf_assigned = (\<lambda>g d. None), cf_defaults = [], cf_attrs = []\<rparr>"

definition str_of :: "py_exn + opt_value \<Rightarrow> py_exn + string" where
  "str_of r = (case r of Inl e \<Rightarrow> Inl e | Inr (StrValue s) \<Rightarrow> Inr s | Inr v \<Rightarrow> Inl (TypeError ''str''))"

definition value_true :: "opt_value \<Rightarrow> bool" where
  "value_true v = (case v of NoValue \<Rightarrow> False | StrValue s \<Rightarrow> s \<noteq> [] | BoolValue b \<Rightarrow> b | IntValue i \<Rightarrow> i \<noteq> 0
     | ListValue xs \<Rightarrow> xs \<noteq> [] | DictValue d \<Rightarrow> d \<noteq> [])"

text \<open>The defaults that depend on other options, once the values are there.\<close>

definition openstack_branch_of :: "string \<Rightarrow> string" where
  "openstack_branch_of release = (if release = ''master'' then [] else ''stable-'') @ release"

definition derived_arch_of :: "string \<Rightarrow> string" where
  "derived_arch_of base_arch = (if base_arch = ''aarch64'' then ''arm64'' else ''amd64'')"

definition derive_defaults :: "cfg_conf \<Rightarrow> py_exn + cfg_conf" where
  "derive_defaults cf =
     (case (str_of (conf_get cf ''base''), str_of (conf_get cf ''openstack_release''),
            str_of (conf_get cf ''base_arch''), conf_get cf ''base_image'') of
        (Inr base, Inr release, Inr base_arch, Inr base_image) \<Rightarrow>
          (case dict_get DEFAULT_BASE_TAGS base of
             None \<Rightarrow> Inl (KeyError base)
           | Some (name, tag) \<Rightarrow>
               let branch = openstack_branch_of release;
                   cf1 = set_default ''base_tag'' (StrValue tag) cf;
                   cf2 = set_default ''openstack_branch'' (StrValue branch) cf1;
                   cf3 = set_default ''openstack_branch_slashed''
                     (StrValue (py_replace_char (CHR ''-'') (CHR ''/'') branch)) cf2;
                   cf4 = set_default ''debian_arch'' (StrValue (derived_arch_of base_arch)) cf3
               in Inr (if value_true base_image then cf4
                       else cf4\<lparr>cf_attrs := dict_set ''base_image'' (StrValue name) (cf_attrs cf4)\<rparr>))
      | (Inl e, _) \<Rightarrow> Inl e
      | (_, Inl e, _) \<Rightarrow> Inl e
      | (_, _, Inl e, _) \<Rightarrow> Inl e
      | (_, _, _, Inl e) \<Rightarrow> Inl e)"

definition parse ::
    "string \<Rightarrow> string \<Rightarrow> py_exn + (string \<Rightarrow> string \<Rightarrow> opt_value option) \<Rightarrow> py_exn + cfg_conf" where
  "parse machine version args =
     (case debianarch_of (hostarch_of machine) of
        None \<Rightarrow> Inl (LibraryException ''NameError'')
      | Some debianarch \<Rightarrow>
          (case register_groups (registered_groups (hostarch_of machine) debianarch version) empty_conf of
             Inl e \<Rightarrow> Inl e
           | Inr cf \<Rightarrow>
               (case args of
                  Inl e \<Rightarrow> Inl e
                | Inr assigned \<Rightarrow> derive_defaults (cf\<lparr>cf_assigned := assigned\<rparr>))))"

end
