(* ===== verification/Working_Dir.thy ===== *)
theory Working_Dir
  imports Worker_Setup Image_Model
begin

text \<open>
  The working directory of a build (\<open>kolla/image/kolla\_worker.py\<close>): \<open>setup\_working\_dir\<close> copies the
  templates of the images and the user's own directories into it, \<open>set\_time\<close> walks over all of it, and
  \<open>cleanup\<close> removes it. Times are not part of the tree: of \<open>os.utime\<close> remains that it fails where a
  path leads nowhere.
\<close>

section \<open>shutil.copytree\<close>

definition copystat :: "host \<Rightarrow> string \<Rightarrow> string \<Rightarrow> unit worker_prog" where
  "copystat h src dst =
     p_bind (p_gets (\<lambda>root. case os_stat h root src of None \<Rightarrow> None | Some n \<Rightarrow> node_meta n)) (\<lambda>m.
       case m of None \<Rightarrow> p_raise (OSError src) | Some m \<Rightarrow> os_chmod (\<lambda>e. e) h dst (S_IMODE (m_mode m)))"

definition copy2 :: "host \<Rightarrow> string \<Rightarrow> string \<Rightarrow> unit worker_prog" where
  "copy2 h src dst =
     p_bind (p_gets (\<lambda>root. if os_isdir h root dst then path_join dst (path_basename src) else dst)) (\<lambda>dst'.
       p_then (shutil_copyfile h src dst') (copystat h src dst'))"

text \<open>Errors of the operating system are collected while the copy goes on; others end it.\<close>

definition note_error :: "unit worker_prog \<Rightarrow> bool worker_prog" where
  "note_error m s =
     (case m s of
        (Inr x, s') \<Rightarrow> (Inr False, s')
      | (Inl e, s') \<Rightarrow> (case e of OSError p \<Rightarrow> (Inr True, s') | _ \<Rightarrow> (Inl e, s')))"

fun note_errors :: "unit worker_prog list \<Rightarrow> bool worker_prog" where
  "note_errors [] = p_return False"
| "note_errors (m # ms) =
     p_bind (note_error m) (\<lambda>failed. p_bind (note_errors ms) (\<lambda>rest. p_return (failed \<or> rest)))"

text \<open>
  \<open>copytree(src, dst, dirs\_exist\_ok=True)\<close>: links are followed, so that a tree of links may have no
  end; Python's limit of nested calls is the bound.
\<close>

primrec copytree :: "nat \<Rightarrow> host \<Rightarrow> string \<Rightarrow> string \<Rightarrow> unit worker_prog" where
  "copytree 0 h src dst = p_raise RecursionError"
| "copytree (Suc k) h src dst =
     p_bind (list_dir (\<lambda>e. e) h src) (\<lambda>names.
     p_then (makedirs (\<lambda>e. e) h True dst)
       (p_bind (note_errors (map (\<lambda>n.
            p_bind (p_gets (\<lambda>root. os_isdir h root (path_join src n))) (\<lambda>dir.
              (if dir then copytree k else copy2) h (path_join src n) (path_join dst n))) names)) (\<lambda>failed.
        p_bind (note_error (copystat h src dst)) (\<lambda>stat_failed.
          if failed \<or> stat_failed then p_raise (OSError src) else p_return ()))))"

section \<open>setup_working_dir\<close>

text \<open>
  The directories of a build: the working directory, and the temporary one around it, if there is no
  \<open>work\_dir\<close>. \<open>tempfile.mkdtemp\<close> makes a directory of its own with a name that is not taken; the
  name is an argument.
\<close>

record build_dirs =
  bd_working_dir :: string
  bd_temp_dir :: "string option"

definition mkdtemp :: "host \<Rightarrow> string \<Rightarrow> unit worker_prog" where
  "mkdtemp h name =
     create (\<lambda>e. e) h name (Dir \<lparr>m_mode = 448, m_uid = host_uid h, m_gid = host_gid h\<rparr> [])"

definition make_working_dir :: "host \<Rightarrow> worker_conf \<Rightarrow> string \<Rightarrow> build_dirs worker_prog" where
  "make_working_dir h c temp_name =
     (if wc_work_dir c \<noteq> None \<and> wc_work_dir c \<noteq> Some []
      then p_return \<lparr>bd_working_dir = path_join (the (wc_work_dir c)) ''docker'', bd_temp_dir = None\<rparr>
      else p_then (mkdtemp h temp_name)
        (p_return \<lparr>bd_working_dir = path_join temp_name ''docker'', bd_temp_dir = Some temp_name\<rparr>))"

definition setup_working_dir :: "nat \<Rightarrow> host \<Rightarrow> worker_conf \<Rightarrow> string \<Rightarrow> string \<Rightarrow> build_dirs worker_prog" where
  "setup_working_dir limit h c images_dir temp_name =
     p_bind (make_working_dir h c temp_name) (\<lambda>dirs.
     p_then (copytree limit h images_dir (bd_working_dir dirs))
     (p_then (p_for (wc_docker_dir c) (\<lambda>dir. copytree limit h dir (bd_working_dir dirs)))
     (p_then (copy_apt_files h c (bd_working_dir dirs)) (p_return dirs))))"

section \<open>set_time and cleanup\<close>

definition utime :: "host \<Rightarrow> string \<Rightarrow> unit worker_prog" where
  "utime h p = p_bind (p_gets (\<lambda>root. os_exists h root p)) (\<lambda>there.
     if there then p_return () else p_raise (OSError p))"

definition set_time :: "host \<Rightarrow> string \<Rightarrow> unit worker_prog" where
  "set_time h working_dir =
     p_bind (p_gets (\<lambda>root. os_walk h root working_dir)) (\<lambda>steps.
       p_for steps (\<lambda>(r, dirs, files).
         p_then (p_for files (\<lambda>f. utime h (path_join r f))) (p_for dirs (\<lambda>d. utime h (path_join r d)))))"

definition cleanup :: "host \<Rightarrow> build_dirs \<Rightarrow> unit worker_prog" where
  "cleanup h dirs =
     (case bd_temp_dir dirs of None \<Rightarrow> p_return () | Some t \<Rightarrow> shutil_rmtree (\<lambda>e. e) h t)"

section \<open>The engine\<close>

text \<open>
  \<open>kolla/engine\_adapter/engine.py\<close>: the clients of the two engines are libraries; what making one and
  asking podman for its version raise, if anything, is a parameter. The exceptions that
  \<open>getEngineException\<close> names are all \<open>EngineException\<close> here.
\<close>

definition engine_of :: "string \<Rightarrow> engine" where
  "engine_of name = (if name = ''docker'' then DOCKER else if name = ''podman'' then PODMAN else OtherEngine name)"

definition getEngineException :: "engine \<Rightarrow> py_exn + (py_exn \<Rightarrow> bool)" where
  "getEngineException en =
     (case en of OtherEngine name \<Rightarrow> Inl (UnsupportedEngineError name) | _ \<Rightarrow> Inr (\<lambda>e. e = EngineException))"

record engine_env =
  ee_docker_client :: "py_exn option"
  ee_podman_client :: "py_exn option"
  ee_podman_version :: "py_exn option"

definition getEngineClient :: "engine_env \<Rightarrow> engine \<Rightarrow> py_exn + engine" where
  "getEngineClient ee en =
     (case en of
        DOCKER \<Rightarrow> (case ee_docker_client ee of None \<Rightarrow> Inr DOCKER | Some e \<Rightarrow> Inl e)
      | PODMAN \<Rightarrow>
          (case ee_podman_client ee of
             Some e \<Rightarrow> Inl e
           | None \<Rightarrow> (case ee_podman_version ee of Some e \<Rightarrow> Inl e | None \<Rightarrow> Inr PODMAN))
      | OtherEngine name \<Rightarrow> Inl (UnsupportedEngineError name))"

text \<open>
  The end of \<open>KollaWorker.\_\_init\_\_\<close>: without an engine, only the runs that build nothing go on.
\<close>

definition worker_engine :: "engine_env \<Rightarrow> engine \<Rightarrow> bool \<Rightarrow> py_exn + engine option" where
  "worker_engine ee en inspects_only =
     (case getEngineClient ee en of
        Inr client \<Rightarrow> Inr (Some client)
      | Inl e \<Rightarrow>
          (case getEngineException en of
             Inl e' \<Rightarrow> Inl e'
           | Inr caught \<Rightarrow>
               if \<not> caught e then Inl e
               else if inspects_only then Inr None
               else Inl (SystemExit 1)))"

end
