(* ===== verification/Run_Build.thy ===== *)
theory Run_Build
  imports Config_Options Working_Dir Image_List Image_Filter Image_Report
begin

text \<open>
  \<open>run\_build\<close> (\<open>kolla/image/build.py\<close>) around the threads: from the command line to the images that are
  to be built, the runs that only write or list something, and what follows when the threads are
  done. The state is the tree of files.
\<close>

section \<open>Reading the configuration\<close>

definition get_str :: "cfg_conf \<Rightarrow> string \<Rightarrow> string" where
  "get_str cf dest = (case conf_get cf dest of Inr (StrValue s) \<Rightarrow> s | _ \<Rightarrow> [])"

definition get_opt_str :: "cfg_conf \<Rightarrow> string \<Rightarrow> string option" where
  "get_opt_str cf dest = (case conf_get cf dest of Inr (StrValue s) \<Rightarrow> Some s | _ \<Rightarrow> None)"

definition get_bool :: "cfg_conf \<Rightarrow> string \<Rightarrow> bool" where
  "get_bool cf dest = (case conf_get cf dest of Inr v \<Rightarrow> value_true v | Inl e \<Rightarrow> False)"

definition get_nat :: "cfg_conf \<Rightarrow> string \<Rightarrow> nat" where
  "get_nat cf dest = (case conf_get cf dest of Inr (IntValue i) \<Rightarrow> nat i | _ \<Rightarrow> 0)"

definition list_value :: "py_exn + opt_value \<Rightarrow> string list" where
  "list_value r = (case r of Inr (ListValue xs) \<Rightarrow> xs | _ \<Rightarrow> [])"

definition get_list :: "cfg_conf \<Rightarrow> string \<Rightarrow> string list" where
  "get_list cf dest = list_value (conf_get cf dest)"

definition builder_conf :: "cfg_conf \<Rightarrow> conf" where
  "builder_conf cf =
     \<lparr>conf_regex = get_list cf ''regex'', conf_profile = get_list cf ''profile'',
      conf_profiles = (\<lambda>p. list_value (group_get cf ''profiles'' p)),
      conf_base = get_str cf ''base'', conf_base_arch = get_str cf ''base_arch'',
      conf_debian_arch = get_str cf ''debian_arch'',
      conf_enable_unbuildable = get_bool cf ''enable_unbuildable'',
      conf_skip_existing = get_bool cf ''skip_existing'', conf_skip_parents = get_bool cf ''skip_parents'',
      conf_push = get_bool cf ''push'', conf_retries = get_nat cf ''retries'',
      conf_threads = get_nat cf ''threads'', conf_push_threads = get_nat cf ''push_threads'',
      conf_allowed_to_fail = get_list cf ''allowed_to_fail'', conf_engine = engine_of (get_str cf ''engine''),
      conf_registry = get_opt_str cf ''registry'', conf_keep = get_bool cf ''keep'',
      conf_cache = get_bool cf ''cache'', conf_pull = get_bool cf ''pull'', conf_squash = get_bool cf ''squash'',
      conf_squash_cleanup = get_bool cf ''squash_cleanup'', conf_squash_tmp_dir = get_opt_str cf ''squash_tmp_dir'',
      conf_network_mode = get_str cf ''network_mode'', conf_platform = get_opt_str cf ''platform'',
      conf_build_args = (case conf_get cf ''build_args'' of Inr (DictValue d) \<Rightarrow> d | _ \<Rightarrow> []),
      conf_logs_dir = get_opt_str cf ''logs_dir'', conf_format = get_str cf ''format'',
      conf_summary_json_file = get_opt_str cf ''summary_json_file''\<rparr>"

definition worker_conf_of :: "cfg_conf \<Rightarrow> worker_conf" where
  "worker_conf_of cf =
     \<lparr>wc_registry = get_opt_str cf ''registry'', wc_namespace = get_str cf ''namespace'',
      wc_base = get_str cf ''base'', wc_base_image = get_str cf ''base_image'', wc_base_tag = get_str cf ''base_tag'',
      wc_base_arch = get_str cf ''base_arch'', wc_tag = get_str cf ''tag'', wc_repos_yaml = get_str cf ''repos_yaml'',
      wc_use_dumb_init = get_bool cf ''use_dumb_init'', wc_openstack_release = get_str cf ''openstack_release'',
      wc_openstack_release_codename = get_str cf ''openstack_release_codename'',
      wc_openstack_branch = get_str cf ''openstack_branch'',
      wc_openstack_branch_slashed = get_str cf ''openstack_branch_slashed'',
      wc_docker_healthchecks = get_bool cf ''docker_healthchecks'',
      wc_rpm_setup_config = map Some (get_list cf ''rpm_setup_config''),
      wc_distro_package_manager = get_opt_str cf ''distro_package_manager'',
      wc_base_package_type = get_opt_str cf ''base_package_type'',
      wc_clean_package_cache = get_bool cf ''clean_package_cache'',
      wc_image_name_prefix = get_str cf ''image_name_prefix'', wc_maintainer = get_str cf ''maintainer'',
      wc_patches_path = get_opt_str cf ''patches_path'', wc_apt_sources_list = get_opt_str cf ''apt_sources_list'',
      wc_apt_preferences = get_opt_str cf ''apt_preferences'', wc_template_override = get_list cf ''template_override'',
      wc_work_dir = get_opt_str cf ''work_dir'', wc_docker_dir = get_list cf ''docker_dir''\<rparr>"

text \<open>
  The sections of the sources and the users. A section that is not registered is registered when it
  is first read. Strings may refer to other options, of their group before those of no group; \<open>expand\<close> is how oslo.config
  replaces them in a group.
\<close>

definition section_value :: "cfg_conf \<Rightarrow> cfg_opt list \<Rightarrow> string \<Rightarrow> string \<Rightarrow> opt_value" where
  "section_value cf defaults name dest =
     (let os = (if name \<in> set (dict_keys (cf_groups cf)) then group_opts cf name else defaults)
      in case cf_assigned cf name dest of
           Some v \<Rightarrow> v
         | None \<Rightarrow> (case find_opt os dest of Some ot \<Rightarrow> opt_default ot | None \<Rightarrow> NoValue))"

definition value_str :: "opt_value \<Rightarrow> string option" where
  "value_str v = (case v of StrValue s \<Rightarrow> Some s | _ \<Rightarrow> None)"

definition value_int :: "opt_value \<Rightarrow> int option" where
  "value_int v = (case v of IntValue i \<Rightarrow> Some i | _ \<Rightarrow> None)"

definition read_source_section :: "(string \<Rightarrow> string \<Rightarrow> string) \<Rightarrow> cfg_conf \<Rightarrow> string \<Rightarrow> source_section" where
  "read_source_section expand cf name =
     (let get = section_value cf (get_source_opts None None None True None None) name
      in \<lparr>ss_type = value_str (get ''type''), ss_location = map_option (expand name) (value_str (get ''location'')),
          ss_reference = map_option (expand name) (value_str (get ''reference'')), ss_enabled = value_true (get ''enabled''),
          ss_sha256 = (case get ''sha256'' of DictValue d \<Rightarrow> d | _ \<Rightarrow> [])\<rparr>)"

definition read_user_section :: "cfg_conf \<Rightarrow> string \<Rightarrow> user_section" where
  "read_user_section cf name =
     (let get = section_value cf [opt IntOpt ''uid'' NoValue, opt IntOpt ''gid'' NoValue,
            opt StrOpt ''group'' (StrValue (take (length name - 5) name))] name
      in \<lparr>us_uid = value_int (get ''uid''), us_gid = value_int (get ''gid''), us_group = value_str (get ''group'')\<rparr>)"

section \<open>What a run is given\<close>

text \<open>
  The answers of the world: the machine and the version of kolla, the command line as oslo.config reads
  it, the libraries and clients of the engines, the order in which Python goes through the set of
  the sections, the renderer of the templates, the search of regular expressions, the engine's list of images,
  and Python's limit of nested calls.
\<close>

record run_env =
  re_machine :: string
  re_version :: string
  re_args :: "py_exn + (string \<Rightarrow> string \<Rightarrow> opt_value option)"
  re_file_sections :: "string list"
  re_set_order :: "string list \<Rightarrow> string list"
  re_expand :: "string \<Rightarrow> string \<Rightarrow> string"
  re_docker_lib :: bool
  re_podman_lib :: bool
  re_squash_version :: "py_exn option"
  re_engine :: engine_env
  re_host :: host
  re_image_paths :: "string list"
  re_temp_name :: string
  re_renderer :: renderer
  re_kolla_version :: string
  re_build_date :: string
  re_matcher :: "string \<Rightarrow> string \<Rightarrow> bool"
  re_cache :: "string \<Rightarrow> string list"
  re_limit :: nat

definition inspects_only :: "cfg_conf \<Rightarrow> bool" where
  "inspects_only cf \<longleftrightarrow> get_bool cf ''template_only'' \<or> get_bool cf ''save_dependency'' \<or>
     get_bool cf ''list_images'' \<or> get_bool cf ''list_dependencies''"

text \<open>The checks of the engine's name and library.\<close>

definition check_engine :: "run_env \<Rightarrow> cfg_conf \<Rightarrow> py_exn + unit" where
  "check_engine env cf =
     (case engine_of (get_str cf ''engine'') of
        OtherEngine name \<Rightarrow> Inl (SystemExit 1)
      | DOCKER \<Rightarrow>
          if \<not> re_docker_lib env then Inl (SystemExit 1)
          else if get_bool cf ''squash''
          then (case re_squash_version env of None \<Rightarrow> Inr () | Some e \<Rightarrow> Inl e)
          else Inr ()
      | PODMAN \<Rightarrow> if re_podman_lib env then Inr () else Inl (SystemExit 1))"

section \<open>Up to the list of images\<close>

record prepared =
  pr_cfg :: cfg_conf
  pr_dirs :: build_dirs
  pr_client :: "engine option"
  pr_images :: store

definition all_sections :: "run_env \<Rightarrow> cfg_conf \<Rightarrow> string list" where
  "all_sections env cf = re_set_order env (dict_keys (cf_groups cf) @ re_file_sections env)"

definition dockerfile_at :: "host \<Rightarrow> string node \<Rightarrow> string \<Rightarrow> string option" where
  "dockerfile_at h root path =
     (case os_stat h root (path_join path ''Dockerfile'') of Some (File m x) \<Rightarrow> Some x | _ \<Rightarrow> None)"

definition list_env_of :: "run_env \<Rightarrow> cfg_conf \<Rightarrow> string node \<Rightarrow> list_env" where
  "list_env_of env cf root =
     \<lparr>le_namespace = full_namespace (worker_conf_of cf), le_image_prefix = get_str cf ''image_name_prefix'',
      le_tag = get_str cf ''tag'', le_dockerfile = dockerfile_at (re_host env) root,
      le_section = read_source_section (re_expand env) cf, le_all_sections = all_sections env cf\<rparr>"

definition prepare :: "run_env \<Rightarrow> prepared worker_prog" where
  "prepare env =
     p_bind (lift_sum (parse (re_machine env) (re_version env) (re_args env))) (\<lambda>cf.
     p_bind (lift_sum (check_engine env cf)) (\<lambda>_.
     let h = re_host env; c = worker_conf_of cf in
     p_bind (p_bind (p_gets (\<lambda>root. find_images_dir h root (re_image_paths env))) lift_sum) (\<lambda>images_dir.
     p_bind (lift_sum (worker_rpm_setup c)) (\<lambda>rpm_setup.
     p_bind (lift_sum (worker_engine (re_engine env) (engine_of (get_str cf ''engine'')) (inspects_only cf))) (\<lambda>client.
     p_bind (setup_working_dir (re_limit env) h c images_dir (re_temp_name env)) (\<lambda>dirs.
     p_bind (p_gets (\<lambda>root. find_dockerfiles h root (bd_working_dir dirs))) (\<lambda>paths.
     p_then (create_dockerfiles h (re_renderer env) c (bd_working_dir dirs)
               (dockerfile_values c (re_kolla_version env) (re_build_date env)
                 (get_users (read_user_section cf) (all_sections env cf)) rpm_setup) paths)
     (p_then (create_patch_files h c paths)
     (p_bind (p_bind (p_gets (\<lambda>root. build_image_list (list_env_of env cf root) paths)) lift_sum) (\<lambda>st.
       p_return \<lparr>pr_cfg = cf, pr_dirs = dirs, pr_client = client, pr_images = st\<rparr>))))))))))"

section \<open>What the run does with them\<close>

datatype build_start =
    TemplatesOnly store
  | DependencySaved string "string list" "(string \<times> string) list"
  | ImagesListed "(nat \<times> string) list"
  | DependenciesListed "dep option"
  | ThreadsStart conf store build_dirs

text \<open>Without a client of the engine, \<open>in\_engine\_cache\<close> raises for the first matched image that it is asked for.\<close>

definition cache_unavailable :: "engine option \<Rightarrow> conf \<Rightarrow> store \<Rightarrow> bool" where
  "cache_unavailable client c st \<longleftrightarrow>
     client = None \<and> conf_skip_existing c \<and> list_ex (\<lambda>im. img_status im = MATCHED \<or> img_status im = SKIPPED) st"

definition start_build :: "run_env \<Rightarrow> prepared \<Rightarrow> store \<Rightarrow> build_start worker_prog" where
  "start_build env pr st =
     (let cf = pr_cfg pr; h = re_host env in
      if get_bool cf ''template_only''
      then p_then (p_for (filter (\<lambda>im. img_status im \<noteq> MATCHED) st) (\<lambda>im. shutil_rmtree (\<lambda>e. e) h (img_path im)))
             (p_return (TemplatesOnly st))
      else p_then (set_time h (bd_working_dir (pr_dirs pr)))
        (if get_bool cf ''save_dependency''
         then p_return (DependencySaved (get_str cf ''save_dependency'') (dependency_nodes st) (dependency_edges st))
         else if get_bool cf ''list_images'' then p_return (ImagesListed (list_images st))
         else if get_bool cf ''list_dependencies''
         then p_bind (lift_sum (list_dependencies (re_limit env) st)) (\<lambda>d. p_return (DependenciesListed d))
         else p_return (ThreadsStart (builder_conf cf) st (pr_dirs pr))))"

text \<open>\<open>None\<close>: the filter does not return.\<close>

definition run_build_start :: "run_env \<Rightarrow> string node \<Rightarrow> ((py_exn + build_start) \<times> string node) option" where
  "run_build_start env root =
     (case prepare env root of
        (Inl e, root') \<Rightarrow> Some (Inl e, root')
      | (Inr pr, root') \<Rightarrow>
          let c = builder_conf (pr_cfg pr) in
          (case filter_images (re_matcher env) (re_cache env) c (find_parents (pr_images pr)) of
             None \<Rightarrow> None
           | Some (Inl e) \<Rightarrow> Some (Inl e, root')
           | Some (Inr st) \<Rightarrow>
               if cache_unavailable (pr_client pr) c st then Some (Inl AttributeError, root')
               else Some (start_build env pr st root')))"

section \<open>After the threads\<close>

text \<open>The link to the log of a failed image; one that is there is replaced.\<close>

definition link_failed :: "host \<Rightarrow> string \<times> string \<Rightarrow> unit worker_prog" where
  "link_failed h link =
     (case link of (linkname, target) \<Rightarrow>
        p_then
          (p_catch
            (p_bind (p_gets (\<lambda>root. os_lexists h root linkname)) (\<lambda>there.
               if there then os_remove (\<lambda>e. e) h linkname else p_raise (OSError linkname)))
            (\<lambda>e. case e of OSError p \<Rightarrow> p_return () | _ \<Rightarrow> p_raise e))
          (os_symlink (\<lambda>e. e) h target linkname))"

text \<open>
  \<open>summary\<close>: fills the dictionaries when they are empty, links the logs of failed images and returns the report;
  a report file that cannot be written ends the program with code 1.
\<close>

definition summary :: "host \<Rightarrow> conf \<Rightarrow> store \<Rightarrow> statuses \<Rightarrow> (results \<times> statuses) worker_prog" where
  "summary h c st ss0 =
     (let ss = get_image_statuses c st ss0; results = summary_results ss in
      p_then (p_for (failed_links c ss) (link_failed h))
        (p_then
          (case summary_output c of
             JsonFile f \<Rightarrow>
               p_catch (write_file (\<lambda>e. e) h f (dump_report results))
                 (\<lambda>e. case e of OSError p \<Rightarrow> p_raise (SystemExit 1) | _ \<Rightarrow> p_raise e)
           | JsonStdout \<Rightarrow> p_return ()
           | NoJson \<Rightarrow> p_return ())
          (p_return (results, ss))))"

definition run_build_end :: "host \<Rightarrow> conf \<Rightarrow> bool \<Rightarrow> build_dirs \<Rightarrow> store \<Rightarrow> statuses worker_prog" where
  "run_build_end h c with_summary dirs st =
     p_bind (if with_summary
             then p_bind (summary h c st no_statuses) (\<lambda>(results, ss). p_return ss)
             else p_return no_statuses) (\<lambda>ss.
       p_then (cleanup h dirs) (p_return (get_image_statuses c st ss)))"

end
