(* ===== verification/Build_Pipeline.thy ===== *)
theory Build_Pipeline
  imports Run_Build Worker_Properties
begin

text \<open>
  The stages of a build put together: the store that \<open>build\_image\_list\<close> makes is one that
  \<open>find\_parents\<close> turns into a forest, the filter leaves it in a state in which the parent of an
  image to build is to be built or skipped, and the threads start from there.
\<close>

lemma built_list_fresh:
  assumes "build_image_list env paths = Inr st"
  shows "fresh_store st"
proof -
  have "img_status im = UNPROCESSED \<and> img_parent im = None \<and> img_children im = []" if "im \<in> set st" for im
  proof -
    obtain i where i: "i < length st" "im = st ! i" using \<open>im \<in> set st\<close> by (metis in_set_conv_nth)
    then have "make_image env (paths ! i) = Inr im"
      using build_image_list_nth [OF assms] by simp
    then show ?thesis using make_image_fields(3-5) by blast
  qed
  then show ?thesis by (simp add: fresh_store_def)
qed

lemma spec_parents_queued:
  assumes "same_shape st st'" and "ranked st depth"
    and "\<forall>i < length st. status_at st' i = status_spec names hit c engine_list st i"
  shows "parents_queued st'"
  unfolding parents_queued_def
proof (intro allI impI)
  fix i p
  assume i: "i < length st'" "child_queued st' i" and p: "parent_at st' i = Some p"
  have len: "length st' = length st" using assms(1) by (rule same_shape_length)
  have i': "i < length st" using i(1) len by simp
  have p': "parent_at st i = Some p" using p same_shape_parent [OF assms(1) i'] by simp
  have pl: "p < length st" using rankedD(2) [OF assms(2) i' p'] .
  have "\<not> not_buildable names st i" "wanted names hit st i"
    using i(2) assms(3) i' by (auto simp: child_queued_def status_spec_def split: if_splits)
  then have "\<not> not_buildable names st p" "wanted names hit st p"
    using not_buildable_child [OF p'] wanted_parent [OF p'] by blast+
  then show "child_queued st' p \<or> status_at st' p = SKIPPED"
    using assms(3) pl by (auto simp: child_queued_def status_spec_def)
qed

lemma spec_queued_matched:
  "child_queued st' i \<Longrightarrow> status_at st' i = status_spec names hit c engine_list st i \<Longrightarrow> status_at st' i = MATCHED"
  by (auto simp: child_queued_def status_spec_def split: if_splits)

text \<open>What the threads make of the images that the filter leaves.\<close>

lemma threads_build_matched:
  assumes built: "build_image_list env paths = Inr st0" and rk0: "ranked st depth"
    and st: "filter_images re_search engine_list c (find_parents st0) = Some (Inr st)"
    and run: "sys_run c st ls s"
  shows "distinct (sys_started s) \<and>
    (\<forall>i < length st.
       (i \<in> set (sys_started s) \<longrightarrow> status_at st i = MATCHED \<and>
          (\<forall>p. parent_at st i = Some p \<longrightarrow> status_at st p = SKIPPED \<or>
             p \<in> set (sys_started s) \<and> engine_called c (st ! p) (sys_ts s))) \<and>
       (status_at st i \<noteq> MATCHED \<longrightarrow> status_at (ts_images (sys_ts s)) i = status_at st i) \<and>
       (sys_main s = MainDone \<longrightarrow> \<not> sys_interrupted s \<longrightarrow> status_at st i = MATCHED \<longrightarrow>
          i \<in> set (sys_started s) \<or>
          (\<exists>a \<in> set (sys_started s). a \<noteq> i \<and> ancestor st i a \<and>
             status_at (ts_images (sys_ts s)) a \<noteq> BUILT)))"
proof -
  let ?st1 = "find_parents st0"
  have fresh: "fresh_store st0" using built by (rule built_list_fresh)
  have shape: "same_shape ?st1 st" using st by (rule filter_images_shape)
  have rk1: "ranked ?st1 depth" using shape rk0 by (simp add: ranked_def same_shape_length same_shape_parent)
  obtain patterns where patterns: "filter_patterns c = Inr patterns"
    using st by (auto simp: filter_images_def split: sum.splits)
  have unprocessed: "\<forall>i < length ?st1. status_at ?st1 i = UNPROCESSED"
    using fresh by (simp add: find_parents_status fresh_storeD(1))
  have spec: "\<forall>i < length ?st1. status_at st i =
      status_spec (unbuildable_names c) (pattern_hit re_search patterns) c engine_list ?st1 i"
    using filter_images_meets_spec [OF rk1 unprocessed patterns, of re_search engine_list] st by auto
  have forest: "forest_links st" using shape find_parents_forest [OF fresh] by (rule forest_links_same_shape)
  have closed: "parents_queued st" using shape rk1 spec by (rule spec_parents_queued)
  have len: "length st = length ?st1" using shape by (rule same_shape_length)
  have matched: "child_queued st i \<longleftrightarrow> status_at st i = MATCHED" if "i < length st" for i
    using spec_queued_matched [of st i] spec that len by (auto simp: child_queued_def)
  note inv = sys_run_inv [OF run forest]
  have started: "child_queued st i \<and>
      (\<forall>p. parent_at st i = Some p \<longrightarrow> status_at st p = SKIPPED \<or>
         p \<in> set (sys_started s) \<and> engine_called c (st ! p) (sys_ts s))" if "i \<in> set (sys_started s)" for i
    using pool_parent_first [OF inv, of i] that by (simp add: sys_pool_def)
  have kept: "status_at (ts_images (sys_ts s)) i = status_at st i"
    if "i < length st" "status_at st i \<noteq> MATCHED" for i
    using pool_invD(3) [OF inv that(1)] started matched [OF that(1)] that(2) by (auto simp: sys_pool_def status_ok_def)
  have complete: "i \<in> set (sys_started s) \<or> (\<exists>a \<in> set (sys_started s). a \<noteq> i \<and> ancestor st i a \<and>
        status_at (ts_images (sys_ts s)) a \<noteq> BUILT)"
    if "i < length st" "sys_main s = MainDone" "\<not> sys_interrupted s" "status_at st i = MATCHED" for i
    using build_is_complete [OF run forest rk0 closed that(3) _ that(1)] that(2, 4) matched [OF that(1)] by blast
  have "distinct (sys_started s)"
    using pool_started_once [OF inv] by (simp add: sys_pool_def)
  then show ?thesis using started kept complete matched by blast
qed

text \<open>The filter returns for every list of Dockerfiles whose images do not depend on themselves.\<close>

lemma build_from_dockerfiles:
  assumes "build_image_list env paths = Inr st0" and rk: "ranked (find_parents st0) depth"
    and "filter_patterns c = Inr patterns"
  shows "\<exists>st. filter_images re_search engine_list c (find_parents st0) = Some (Inr st) \<and>
    (\<forall>ls s. sys_run c st ls s \<longrightarrow>
       distinct (sys_started s) \<and>
       (\<forall>i < length st.
          (i \<in> set (sys_started s) \<longrightarrow> status_at st i = MATCHED \<and>
             (\<forall>p. parent_at st i = Some p \<longrightarrow> status_at st p = SKIPPED \<or>
                p \<in> set (sys_started s) \<and> engine_called c (st ! p) (sys_ts s))) \<and>
          (status_at st i \<noteq> MATCHED \<longrightarrow> status_at (ts_images (sys_ts s)) i = status_at st i) \<and>
          (sys_main s = MainDone \<longrightarrow> \<not> sys_interrupted s \<longrightarrow> status_at st i = MATCHED \<longrightarrow>
             i \<in> set (sys_started s) \<or>
             (\<exists>a \<in> set (sys_started s). a \<noteq> i \<and> ancestor st i a \<and>
                status_at (ts_images (sys_ts s)) a \<noteq> BUILT))))"
proof -
  have "\<forall>i < length (find_parents st0). status_at (find_parents st0) i = UNPROCESSED"
    using built_list_fresh [OF assms(1)] by (simp add: find_parents_status fresh_storeD(1))
  from filter_images_meets_spec [OF rk this assms(3)] obtain st where
      st: "filter_images re_search engine_list c (find_parents st0) = Some (Inr st)"
      "same_shape (find_parents st0) st" by blast
  have "ranked st depth" using st(2) rk by (rule ranked_same_shape)
  from threads_build_matched [OF assms(1) this st(1)] st(1) show ?thesis by blast
qed

text \<open>An image keeps its path and the name of its parent through \<open>find\_parents\<close> and the filter.\<close>

lemma listed_dockerfiles:
  assumes "build_image_list env paths = Inr st0"
    and "filter_images re_search engine_list c (find_parents st0) = Some (Inr st)" and "i < length st"
  shows "\<exists>content. le_dockerfile env (img_path (st ! i)) = Some content \<and>
    dockerfile_parent content = Inr (parent_name (st ! i))"
proof -
  have shape: "same_shape (find_parents st0) st" using assms(2) by (rule filter_images_shape)
  have i: "i < length (find_parents st0)" using same_shape_length [OF shape] assms(3) by simp
  have "img_path (st ! i) = img_path (st0 ! i)" "parent_name (st ! i) = parent_name (st0 ! i)"
    using same_shape_fields [OF shape i] i find_parents_raw(1) [of st0] by (simp_all add: links_only_def)
  moreover have "make_image env (paths ! i) = Inr (st0 ! i)"
    using build_image_list_nth [OF assms(1)] i by simp
  ultimately show ?thesis using make_image_fields(2,7) by auto
qed

section \<open>run_build\<close>

lemma lift_sum_returns: "lift_sum m s = (Inr x, s') \<Longrightarrow> m = Inr x \<and> s' = s"
  by (auto simp: lift_sum_def p_raise_def p_return_def split: sum.splits)

interpretation same_tree: state_frame "(=) :: string node \<Rightarrow> string node \<Rightarrow> bool"
  by unfold_locales simp_all

lemma set_time_keeps: "set_time h dir root = (r, root') \<Longrightarrow> root' = root"
proof -
  have "p_within (=) (set_time h dir)"
    unfolding set_time_def utime_def
    by (intro same_tree.within_intros same_tree.within_branches)
  then show "set_time h dir root = (r, root') \<Longrightarrow> root' = root"
    by (metis p_within_run)
qed

lemma prepare_returns:
  assumes "prepare env root = (Inr pr, root')"
  obtains paths where "parse (re_machine env) (re_version env) (re_args env) = Inr (pr_cfg pr)"
    and "worker_engine (re_engine env) (engine_of (get_str (pr_cfg pr) ''engine'')) (inspects_only (pr_cfg pr)) = Inr (pr_client pr)"
    and "build_image_list (list_env_of env (pr_cfg pr) root') paths = Inr (pr_images pr)"
  using assms unfolding prepare_def Let_def
  by (elim p_bind_returns p_then_returns)
    (auto dest!: lift_sum_returns p_gets_returns simp: p_return_def)

lemma start_build_threads:
  assumes "start_build env pr st root = (Inr (ThreadsStart c st' dirs), root')"
  shows "c = builder_conf (pr_cfg pr) \<and> st' = st \<and> dirs = pr_dirs pr \<and> root' = root \<and> \<not> inspects_only (pr_cfg pr)"
  using assms unfolding start_build_def Let_def
  by (auto simp: inspects_only_def p_return_def split: if_splits
      elim!: p_bind_returns p_then_returns dest: set_time_keeps)

lemma worker_engine_client:
  "worker_engine ee en inspects = Inr client \<Longrightarrow> \<not> inspects \<Longrightarrow> \<exists>cl. getEngineClient ee en = Inr cl"
  by (auto simp: worker_engine_def split: sum.splits if_splits)

lemma run_build_start_threads:
  assumes "run_build_start env root = Some (Inr (ThreadsStart c st dirs), root')"
  obtains cf paths st0 client where "parse (re_machine env) (re_version env) (re_args env) = Inr cf"
    and "c = builder_conf cf" and "build_image_list (list_env_of env cf root') paths = Inr st0"
    and "filter_images (re_matcher env) (re_cache env) c (find_parents st0) = Some (Inr st)"
    and "getEngineClient (re_engine env) (conf_engine c) = Inr client"
proof -
  obtain pr root1 where pr: "prepare env root = (Inr pr, root1)"
    using assms by (auto simp: run_build_start_def split: prod.splits sum.splits)
  let ?c = "builder_conf (pr_cfg pr)"
  obtain st1 where st1: "filter_images (re_matcher env) (re_cache env) ?c (find_parents (pr_images pr)) = Some (Inr st1)"
    and start: "start_build env pr st1 root1 = (Inr (ThreadsStart c st dirs), root')"
    using assms by (auto simp: run_build_start_def pr Let_def split: option.splits sum.splits if_splits)
  note threads = start_build_threads [OF start]
  obtain paths where paths: "parse (re_machine env) (re_version env) (re_args env) = Inr (pr_cfg pr)"
      "worker_engine (re_engine env) (engine_of (get_str (pr_cfg pr) ''engine'')) (inspects_only (pr_cfg pr)) = Inr (pr_client pr)"
      "build_image_list (list_env_of env (pr_cfg pr) root1) paths = Inr (pr_images pr)"
    using pr by (rule prepare_returns)
  obtain client where "getEngineClient (re_engine env) (engine_of (get_str (pr_cfg pr) ''engine'')) = Inr client"
    using worker_engine_client [OF paths(2)] threads by blast
  with paths st1 threads that show thesis by (simp add: builder_conf_def)
qed

end
