(* ===== verification/Build_End.thy ===== *)
theory Build_End
  imports Pool_Results Build_Pipeline Image_Properties
begin

text \<open>
  The end of a build: every run of the threads can be continued to its end, and what the exit code
  then says of the images.
\<close>

section \<open>Runs can be completed\<close>

fun main_rank :: "nat \<Rightarrow> main_phase \<Rightarrow> nat" where
  "main_rank n MainPolling = 5"
| "main_rank n MainBuildEmpty = 4"
| "main_rank n (MainHandler k) = 4 + (n - k)"
| "main_rank n MainPushTomb = 3"
| "main_rank n MainBuildTomb = 2"
| "main_rank n MainJoining = 1"
| "main_rank n MainCut = 1"
| "main_rank n MainDone = 0"
| "main_rank n MainLeft = 0"

text \<open>Where no worker need act the main program comes nearer to its end.\<close>

lemma main_can_act:
  assumes "sys_main s \<notin> {MainDone, MainCut, MainLeft}"
    and "sys_main s \<in> {MainPolling, MainBuildEmpty} \<longrightarrow> q_unfinished (sys_build s) = 0 \<and> q_unfinished (sys_push s) = 0"
    and "sys_main s = MainJoining \<longrightarrow> all_stopped s"
  shows "\<exists>s'. sys_step c Main s = Some s' \<and> sys_interrupted s' = sys_interrupted s \<and> sys_main s' \<notin> {MainCut, MainLeft} \<and>
    main_rank (length (sys_workers s')) (sys_main s') < main_rank (length (sys_workers s)) (sys_main s)"
  using assms by (cases "sys_main s") (auto simp: main_step_def put_job_def)

lemma worker_keeps_interrupt: "worker_step c env n s = Some s' \<Longrightarrow> sys_interrupted s' = sys_interrupted s"
  by (auto simp: worker_step_def Let_def split: phase.splits option.splits prod.splits job.splits list.splits sum.splits if_splits)

lemma run_completes:
  assumes run: "sys_run c st ls s" and forest: "forest_links st"
    and threads: "0 < conf_threads c" "0 < conf_push_threads c"
    and wait: "sys_main s \<notin> {MainCut, MainLeft}"
  shows "\<exists>ls' s'. sys_run c st (ls @ ls') s' \<and> sys_main s' = MainDone \<and> sys_interrupted s' = sys_interrupted s \<and>
    Interrupt \<notin> set ls'"
  using run wait
proof (induction "(work_left c st s, main_rank (length (sys_workers s)) (sys_main s))" arbitrary: ls s
    rule: wf_induct_rule [OF wf_lex_prod [OF wf_less_than wf_less_than]])
  case 1
  have continue: ?case
    if step: "sys_step c l s = Some s'" "sys_interrupted s' = sys_interrupted s" "l \<noteq> Interrupt" "sys_main s' \<notin> {MainCut, MainLeft}"
      and less: "work_left c st s' < work_left c st s \<or> work_left c st s' \<le> work_left c st s \<and>
        main_rank (length (sys_workers s')) (sys_main s') < main_rank (length (sys_workers s)) (sys_main s)" for l s'
  proof -
    have "sys_run c st (ls @ [l]) s'" using 1(2) step(1) by (rule sys_run_step)
    moreover have "((work_left c st s', main_rank (length (sys_workers s')) (sys_main s')),
        (work_left c st s, main_rank (length (sys_workers s)) (sys_main s))) \<in> less_than <*lex*> less_than"
      using less by auto
    ultimately obtain ls' s'' where "sys_run c st ((ls @ [l]) @ ls') s''" "sys_main s'' = MainDone"
        "sys_interrupted s'' = sys_interrupted s'" "Interrupt \<notin> set ls'"
      using 1(1) step(4) by blast
    then show ?thesis using step(2,3) by (intro exI [of _ "l # ls'"] exI [of _ s'']) simp
  qed
  have inv: "pool_inv c st (sys_pool s)" "stop_inv s"
    using sys_run_inv [OF 1(2) forest] sys_run_refines [OF 1(2)] by blast+
  show ?case
  proof (cases "sys_main s = MainDone")
    case True
    then show ?thesis using 1(2) by (intro exI [of _ "[]"] exI [of _ s]) simp
  next
    case busy: False
    show ?thesis
    proof (cases "(sys_main s \<in> {MainPolling, MainBuildEmpty} \<longrightarrow> q_unfinished (sys_build s) = 0 \<and> q_unfinished (sys_push s) = 0) \<and>
        (sys_main s = MainJoining \<longrightarrow> all_stopped s)")
      case True
      with busy 1(3) obtain s' where s': "sys_step c Main s = Some s'" "sys_interrupted s' = sys_interrupted s"
          "sys_main s' \<notin> {MainCut, MainLeft}"
          "main_rank (length (sys_workers s')) (sys_main s') < main_rank (length (sys_workers s)) (sys_main s)"
        using main_can_act [of s c] by blast
      moreover have "work_left c st s' \<le> work_left c st s"
        using work_left_other [OF s'(1)] by simp
      ultimately show ?thesis by (intro continue [of Main s']) auto
    next
      case False
      then have "sys_main s \<in> {MainPolling, MainBuildEmpty} \<longrightarrow>
          q_unfinished (sys_build s) \<noteq> 0 \<or> q_unfinished (sys_push s) \<noteq> 0"
        and "sys_main s \<in> {MainPolling, MainBuildEmpty} \<or> sys_main s = MainJoining \<and> \<not> all_stopped s"
        by auto
      then obtain n env s' where s': "sys_step c (Worker n env) s = Some s'"
        using progress [OF run_inv [OF 1(2)] threads] by blast
      moreover have "work_left c st s' < work_left c st s"
        using s' work_left_worker [OF forest inv] by (auto split: if_splits)
      moreover have "sys_interrupted s' = sys_interrupted s"
        using s' worker_keeps_interrupt by (auto split: if_splits)
      moreover have "sys_main s' = sys_main s"
        using s' worker_step_frame(1) by (auto split: if_splits)
      ultimately show ?thesis using 1(3) by (intro continue [of "Worker n env" s']) auto
    qed
  qed
qed

section \<open>The exit code\<close>

lemma dict_set_not_Nil: "dict_set k v d \<noteq> []"
  by (cases d) (auto split: prod.split if_splits)

lemma any_statuses_classify: "any_statuses (classify_image c im ss)"
  by (simp add: dict_set_not_Nil classify_image_def any_statuses_def Let_def)

lemma any_statuses_fold: "st \<noteq> [] \<Longrightarrow> any_statuses (fold (classify_image c) st ss)"
  by (cases st rule: rev_cases) (simp_all add: any_statuses_classify)

lemma get_image_statuses_again:
  "get_image_statuses c st (get_image_statuses c st no_statuses) = get_image_statuses c st no_statuses"
  using any_statuses_fold [of st c no_statuses] by (cases "st = []") (simp_all add: get_image_statuses_def)

lemma summary_statuses:
  "summary h c st ss0 root = (Inr (results, ss), root') \<Longrightarrow> ss = get_image_statuses c st ss0"
  unfolding summary_def Let_def by (elim p_then_returns) (simp add: p_return_def)

lemma run_build_end_statuses:
  assumes "run_build_end h c with_summary dirs st root = (Inr ss, root')"
  shows "ss = get_image_statuses c st no_statuses"
  using assms unfolding run_build_end_def
  by (elim p_bind_returns p_then_returns)
    (auto simp: p_return_def get_image_statuses_again split: if_splits elim!: p_bind_returns dest!: summary_statuses)

text \<open>The filter leaves each image with one of four statuses.\<close>

lemma filter_selects:
  assumes "fresh_store st0" and rk: "ranked (find_parents st0) depth"
    and st: "filter_images re_search engine_list c (find_parents st0) = Some (Inr st)" and i: "i < length st"
  shows "status_at st i \<in> {UNBUILDABLE, UNMATCHED, SKIPPED, MATCHED}"
proof -
  obtain patterns where patterns: "filter_patterns c = Inr patterns"
    using st by (auto simp: filter_images_def split: sum.splits)
  have "\<forall>i < length (find_parents st0). status_at (find_parents st0) i = UNPROCESSED"
    using assms(1) by (simp add: find_parents_status fresh_storeD(1))
  from filter_images_meets_spec [OF rk this patterns, of re_search engine_list] st i obtain names hit where
    "status_at st i = status_spec names hit c engine_list (find_parents st0) i"
    by (auto simp: same_shape_length)
  then show ?thesis by (simp add: status_spec_def)
qed

lemma ex_in_set_nth: "(\<exists>x \<in> set xs. P x) \<longleftrightarrow> (\<exists>i < length xs. P (xs ! i))"
  by (metis in_set_conv_nth)

lemma exit_code_selected:
  assumes shape: "same_shape st st'"
    and other: "\<And>i. i < length st \<Longrightarrow> status_at st i \<noteq> MATCHED \<Longrightarrow>
      status_at st' i = status_at st i \<and> status_at st i \<in> {UNBUILDABLE, UNMATCHED, SKIPPED}"
    and matched: "\<And>i. i < length st \<Longrightarrow> status_at st i = MATCHED \<Longrightarrow> status_at st' i \<notin> {UNBUILDABLE, UNMATCHED, SKIPPED}"
  shows "cmd_main (Inr (Some (get_image_statuses c st' no_statuses))) =
    Inr (if \<exists>i < length st. status_at st i = MATCHED \<and> status_at st' i \<noteq> BUILT \<and>
           img_name (st ! i) \<notin> set (conf_allowed_to_fail c) then 1 else 0)"
proof -
  have "(\<exists>im \<in> set st'. img_status im \<notin> {BUILT, UNMATCHED, SKIPPED, UNBUILDABLE} \<and>
      img_name im \<notin> set (conf_allowed_to_fail c)) \<longleftrightarrow>
    (\<exists>i < length st. status_at st' i \<notin> {BUILT, UNMATCHED, SKIPPED, UNBUILDABLE} \<and>
      img_name (st ! i) \<notin> set (conf_allowed_to_fail c))"
    using same_shape_fields(1) [OF shape] same_shape_length [OF shape]
    by (auto simp: ex_in_set_nth)
  also have "\<dots> \<longleftrightarrow> (\<exists>i < length st. status_at st i = MATCHED \<and> status_at st' i \<noteq> BUILT \<and>
      img_name (st ! i) \<notin> set (conf_allowed_to_fail c))"
    using other matched by (metis insert_iff)
  finally show ?thesis by (simp only: exit_code_of_images)
qed

lemma known_engine_client: "getEngineClient ee (conf_engine c) = Inr client \<Longrightarrow> known_engine c"
  by (auto simp: getEngineClient_def known_engine_def split: engine.splits)

lemma run_status_selected: "run_status s \<Longrightarrow> s \<notin> {UNBUILDABLE, UNMATCHED, SKIPPED}"
  by (auto simp: run_status_def)

text \<open>What the statuses are when the main program ends without an interrupt.\<close>

lemma build_outcome:
  assumes list: "build_image_list env paths = Inr st0" and rk: "ranked st depth"
    and filter: "filter_images re_search engine_list c (find_parents st0) = Some (Inr st)"
    and engine: "known_engine c" and run: "sys_run c st ls s"
    and ended: "sys_main s = MainDone" "\<not> sys_interrupted s"
  shows "cmd_main (Inr (Some (get_image_statuses c (ts_images (sys_ts s)) no_statuses))) =
      Inr (if \<exists>i < length st. status_at st i = MATCHED \<and> status_at (ts_images (sys_ts s)) i \<noteq> BUILT \<and>
             img_name (st ! i) \<notin> set (conf_allowed_to_fail c) then 1 else 0)"
    and "i < length st \<Longrightarrow> status_at (ts_images (sys_ts s)) i = BUILT \<Longrightarrow>
      engine_called c (st ! i) (sys_ts s) \<and> (conf_push c \<longrightarrow> pushed (st ! i) (sys_ts s))"
proof -
  have fresh: "fresh_store st0" using list by (rule built_list_fresh)
  have shape0: "same_shape (find_parents st0) st" using filter by (rule filter_images_shape)
  have forest: "forest_links st" using shape0 find_parents_forest [OF fresh] by (rule forest_links_same_shape)
  have rk0: "ranked (find_parents st0) depth"
    using shape0 rk by (simp add: ranked_def same_shape_length same_shape_parent)
  note selected = filter_selects [OF fresh rk0 filter]
  note inv = sys_run_inv [OF run forest]
  have shape: "same_shape st (ts_images (sys_ts s))" using pool_invD(1) [OF inv] by (simp add: sys_pool_def)
  note built = threads_build_matched [OF list rk filter run]
  have status: "status_at (ts_images (sys_ts s)) i = status_at st i \<or> run_status (status_at (ts_images (sys_ts s)) i)"
    if "i < length st" for i
    using pool_invD(3) [OF inv that] by (auto simp: sys_pool_def status_ok_def)
  show "cmd_main (Inr (Some (get_image_statuses c (ts_images (sys_ts s)) no_statuses))) =
      Inr (if \<exists>i < length st. status_at st i = MATCHED \<and> status_at (ts_images (sys_ts s)) i \<noteq> BUILT \<and>
             img_name (st ! i) \<notin> set (conf_allowed_to_fail c) then 1 else 0)"
  proof (rule exit_code_selected [OF shape])
    show "status_at (ts_images (sys_ts s)) i = status_at st i \<and> status_at st i \<in> {UNBUILDABLE, UNMATCHED, SKIPPED}"
      if "i < length st" "status_at st i \<noteq> MATCHED" for i
      using built selected [OF that(1)] that by blast
    show "status_at (ts_images (sys_ts s)) i \<notin> {UNBUILDABLE, UNMATCHED, SKIPPED}"
      if "i < length st" "status_at st i = MATCHED" for i
      using status [OF that(1)] run_status_selected that(2) by auto
  qed
  have unbuilt: "\<forall>i < length st. status_at st i \<noteq> BUILT" using selected by fastforce
  show "engine_called c (st ! i) (sys_ts s) \<and> (conf_push c \<longrightarrow> pushed (st ! i) (sys_ts s))"
    if "i < length st" "status_at (ts_images (sys_ts s)) i = BUILT"
    using built_images_at_end [OF run forest engine unbuilt ended(2) _ that] ended(1) by simp
qed

lemma filtered_forest:
  assumes "build_image_list env paths = Inr st0"
    and "filter_images re_search engine_list c (find_parents st0) = Some (Inr st)"
  shows "forest_links st"
  using filter_images_shape [OF assms(2)] find_parents_forest [OF built_list_fresh [OF assms(1)]]
  by (rule forest_links_same_shape)

section \<open>Liveness\<close>

text \<open>
  C17: The end of a build can be reached from everywhere: whatever the threads have done so far and
  whatever the engine answered, some continuation of the run without a further interrupt leads the main program to its end, and
  there to threads that have all ended, unless a second interrupt cut the handler of the first one short: then it ends, or leaves the threads. With the bound on the
  steps of the workers, no schedule that lets the workers and the main program take steps goes on for ever.
\<close>

theorem build_can_end:
  assumes "sys_run c st ls s" and "forest_links st" and "0 < conf_threads c" "0 < conf_push_threads c"
  shows "\<exists>ls' s'. sys_run c st (ls @ ls') s' \<and> Interrupt \<notin> set ls' \<and> sys_interrupted s' = sys_interrupted s \<and>
    (if sys_main s \<in> {MainCut, MainLeft} then sys_main s' \<in> {MainDone, MainLeft} else sys_main s' = MainDone \<and> all_stopped s')"
proof (cases "sys_main s \<in> {MainCut, MainLeft}")
  case True
  then have step: "sys_main s = MainLeft \<or> (\<exists>s'. sys_step c Main s = Some s' \<and> sys_main s' \<in> {MainDone, MainLeft} \<and>
      sys_interrupted s' = sys_interrupted s)"
    by (auto simp: main_step_def)
  show ?thesis
  proof (cases "sys_main s = MainLeft")
    case True
    with assms(1) show ?thesis by (intro exI [of _ "[]"] exI [of _ s]) simp
  next
    case False
    with step obtain s' where "sys_step c Main s = Some s'" "sys_main s' \<in> {MainDone, MainLeft}" "sys_interrupted s' = sys_interrupted s"
      by blast
    with True sys_run_step [OF assms(1)] show ?thesis by (intro exI [of _ "[Main]"] exI [of _ s']) simp
  qed
next
  case False
  with run_completes [OF assms] obtain ls' s' where
    "sys_run c st (ls @ ls') s'" "sys_main s' = MainDone" "sys_interrupted s' = sys_interrupted s" "Interrupt \<notin> set ls'"
    by blast
  moreover from this have "all_stopped s'" using run_inv [of c st "ls @ ls'" s'] by (simp add: run_inv_def exit_ok_def)
  ultimately show ?thesis using False by (intro exI [of _ ls'] exI [of _ s']) simp
qed

theorem build_can_end_witness:
  "\<exists>ls s. sys_run sample_conf sample_store (fst sample_middle @ ls) s \<and> sys_main s = MainDone"
  using build_can_end [OF sample_middle_run sample_store_forest] sample_middle_state(3) by (auto simp: sample_conf_def)

end
