(* ===== verification/Push_Race.thy ===== *)
theory Push_Race
  imports Worker_Properties
begin

text \<open>
  Pushing an image runs beside the builds of the images on top of it, and both write and read the same
  status: an example of a build whose outcome depends on the schedule.
\<close>

text \<open>A run in which the first of the given steps that is possible is taken.\<close>

fun run_by :: "conf \<Rightarrow> label list \<Rightarrow> nat \<Rightarrow> label list \<Rightarrow> system \<Rightarrow> label list \<times> system" where
  "run_by c order 0 ls s = (ls, s)"
| "run_by c order (Suc k) ls s =
     (case first_step c order s of
        None \<Rightarrow> (ls, s)
      | Some (l, s') \<Rightarrow> run_by c order k (ls @ [l]) s')"

lemma run_by_run:
  "sys_run c st ls s \<Longrightarrow> set ls \<subseteq> set order \<Longrightarrow> run_by c order k ls s = (ls', s') \<Longrightarrow> sys_run c st ls' s' \<and> set ls' \<subseteq> set order"
proof (induction k arbitrary: ls s)
  case (Suc k)
  have "l \<in> set order" if "first_step c order s = Some (l, s')" for l s'
    using that by (induction order) (auto split: option.splits)
  with Suc.prems Suc.IH [OF sys_run_step [OF Suc.prems(1)]] show ?case
    by (fastforce split: option.splits prod.splits dest: first_step_Some)
qed simp

text \<open>The registry refuses the first image; the engine builds everything.\<close>

definition refusing_env :: env where
  "refusing_env = sample_env\<lparr>env_push := (\<lambda>n. if n = ''k/base'' then PushStream [PushErrorDetail ''denied''] else PushStream [])\<rparr>"

definition late_push :: "label list" where
  "late_push = [Worker 0 refusing_env, Worker 1 refusing_env, Worker 2 refusing_env, Main]"

definition early_push :: "label list" where
  "early_push = [Worker 2 refusing_env, Worker 0 refusing_env, Worker 1 refusing_env, Main]"

lemma late_end:
  "sys_main (snd (run_by sample_conf late_push 200 [] (sys_init sample_conf sample_store))) = MainDone"
  "map img_status (ts_images (sys_ts (snd (run_by sample_conf late_push 200 [] (sys_init sample_conf sample_store))))) = [PUSH_ERROR, BUILT]"
  by code_simp+

lemma early_end:
  "sys_main (snd (run_by sample_conf early_push 200 [] (sys_init sample_conf sample_store))) = MainDone"
  "map img_status (ts_images (sys_ts (snd (run_by sample_conf early_push 200 [] (sys_init sample_conf sample_store))))) = [PUSH_ERROR, PARENT_ERROR]"
  by code_simp+

text \<open>
  C35: A push that fails can take the images built on the pushed one with it, or not, depending on the
  schedule alone: with the same answers of the engine and the registry, and the same workers, the build
  of a parent and a child of which the push of the parent is refused ends in one schedule with the
  child built and in another with a parent error for the child, although its parent was built.
\<close>

theorem failed_push_races_children:
  "\<exists>ls1 s1 ls2 s2. sys_run sample_conf sample_store ls1 s1 \<and> sys_run sample_conf sample_store ls2 s2 \<and>
     set ls1 \<union> set ls2 \<subseteq> {Worker 0 refusing_env, Worker 1 refusing_env, Worker 2 refusing_env, Main} \<and>
     sys_main s1 = MainDone \<and> sys_main s2 = MainDone \<and>
     map img_status (ts_images (sys_ts s1)) = [PUSH_ERROR, BUILT] \<and>
     map img_status (ts_images (sys_ts s2)) = [PUSH_ERROR, PARENT_ERROR]"
proof -
  let ?r = "\<lambda>order. run_by sample_conf order 200 [] (sys_init sample_conf sample_store)"
  have run: "sys_run sample_conf sample_store (fst (?r order)) (snd (?r order)) \<and> set (fst (?r order)) \<subseteq> set order" for order
    by (rule run_by_run [OF sys_run_init]) simp_all
  show ?thesis
    using run [of late_push] run [of early_push] late_end early_end
    by (intro exI [of _ "fst (?r late_push)"] exI [of _ "snd (?r late_push)"] exI [of _ "fst (?r early_push)"]
        exI [of _ "snd (?r early_push)"]) (simp add: late_push_def early_push_def insert_commute)
qed

end
