(* ===== verification/Option_Properties.thy ===== *)
theory Option_Properties
  imports Config_Options Worker_Setup
begin

text \<open>
  What \<open>parse\<close> makes of the command line: registering the options never fails, and the derived
  defaults.
\<close>

section \<open>Registering\<close>

lemma group_opts_set:
  "group_opts (cf\<lparr>cf_groups := dict_set grp os (cf_groups cf)\<rparr>) grp = os"
  by (simp add: group_opts_def)

lemma find_opt_None: "find_opt os d = None \<longleftrightarrow> d \<notin> opt_dest ` set os"
  by (auto simp: find_opt_def find_None_iff)

lemma find_optD: "find_opt os d = Some ot \<Longrightarrow> ot \<in> set os \<and> opt_dest ot = d"
  unfolding find_opt_def by (induction os) (auto split: if_splits)

lemma find_opt_unique:
  "distinct (map opt_dest os) \<Longrightarrow> ot \<in> set os \<Longrightarrow> find_opt os (opt_dest ot) = Some ot"
  unfolding find_opt_def by (induction os) auto

lemma register_opts_fresh:
  assumes "distinct (map opt_dest os)" and "opt_dest ` set os \<inter> opt_dest ` set (group_opts cf grp) = {}"
    and "os \<noteq> []"
  shows "register_opts os grp cf =
    Inr (cf\<lparr>cf_groups := dict_set grp (group_opts cf grp @ os) (cf_groups cf)\<rparr>)"
  using assms
proof (induction os arbitrary: cf)
  case (Cons ot os)
  let ?cf = "cf\<lparr>cf_groups := dict_set grp (group_opts cf grp @ [ot]) (cf_groups cf)\<rparr>"
  have fresh: "find_opt (group_opts cf grp) (opt_dest ot) = None"
    using Cons.prems(2) by (auto simp: find_opt_None)
  have "opt_dest ` set os \<inter> opt_dest ` set (group_opts ?cf grp) = {}"
    using Cons.prems(1,2) by (auto simp: group_opts_set)
  then have "os \<noteq> [] \<Longrightarrow> register_opts os grp ?cf =
      Inr (cf\<lparr>cf_groups := dict_set grp (group_opts cf grp @ ot # os) (cf_groups cf)\<rparr>)"
    using Cons.IH [of ?cf] Cons.prems(1) by (simp add: group_opts_set dict_set_twice)
  then show ?case using fresh by (cases "os = []") simp_all
qed simp

lemma group_opts_fresh: "grp \<notin> set (dict_keys (cf_groups cf)) \<Longrightarrow> group_opts cf grp = []"
  by (simp add: group_opts_def dict_get_None [THEN iffD2])

lemma register_groups_fresh:
  assumes "distinct (map fst gs)" and "set (map fst gs) \<inter> set (dict_keys (cf_groups cf)) = {}"
    and "list_all (\<lambda>(grp, os). distinct (map opt_dest os) \<and> os \<noteq> []) gs"
  shows "register_groups gs cf = Inr (cf\<lparr>cf_groups := cf_groups cf @ gs\<rparr>)"
  using assms
proof (induction gs arbitrary: cf)
  case (Cons g gs)
  obtain grp os where g: "g = (grp, os)" by (cases g)
  let ?cf = "cf\<lparr>cf_groups := cf_groups cf @ [(grp, os)]\<rparr>"
  have fresh: "grp \<notin> set (dict_keys (cf_groups cf))" using Cons.prems(2) g by auto
  have reg: "register_opts os grp cf = Inr ?cf"
    using Cons.prems(3) group_opts_fresh [OF fresh] dict_set_fresh [OF fresh]
    by (subst register_opts_fresh) (simp_all add: g)
  have "register_groups gs ?cf = Inr (cf\<lparr>cf_groups := cf_groups cf @ g # gs\<rparr>)"
    using Cons.IH [of ?cf] Cons.prems g by auto
  then show ?case using reg by (simp add: g)
qed simp

lemma default_dests:
  "distinct (map opt_dest (CLI_OPTS hostarch debianarch version @ BASE_OPTS))"
  unfolding CLI_OPTS_def BASE_OPTS_def opt_def opt_dest_def py_replace_char_def by simp

lemma user_names_distinct: "distinct (map fst USERS)"
  by (simp add: user_table_defs)

lemma user_names_end: "list_all (\<lambda>n. py_endswith n ''-user'') (map fst USERS)"
  by (simp add: user_table_defs py_endswith_def py_startswith_def)

lemma source_names_end: "list_all (\<lambda>n. \<not> py_endswith n ''-user'') (map fst SOURCES)"
  by code_simp

lemma group_names_distinct:
  "distinct (''DEFAULT'' # ''profiles'' # map fst SOURCES @ map fst USERS)"
proof -
  have "set (map fst SOURCES) \<inter> set (map fst USERS) = {}"
    using user_names_end source_names_end by (fastforce simp: list_all_iff)
  moreover have "''DEFAULT'' \<notin> set (map fst USERS)" "''profiles'' \<notin> set (map fst USERS)"
    using user_names_end by (fastforce simp: list_all_iff py_endswith_def py_startswith_def)+
  moreover have "''DEFAULT'' \<notin> set (map fst SOURCES)" "''profiles'' \<notin> set (map fst SOURCES)"
    by code_simp+
  ultimately show ?thesis
    using source_names_distinct user_names_distinct by (simp add: distinct_append)
qed

lemma registered_dests:
  "list_all (\<lambda>(grp, os). distinct (map opt_dest os) \<and> os \<noteq> [])
     ((''profiles'', PROFILE_OPTS) # gen_all_source_opts @ all_user_opts)"
proof -
  have "distinct (map opt_dest PROFILE_OPTS)" "PROFILE_OPTS \<noteq> []"
    by (simp_all add: PROFILE_OPTS_def opt_def opt_dest_def py_replace_char_def)
  moreover have "distinct (map opt_dest (source_opts p))" "source_opts p \<noteq> []" for p
    by (simp_all add: source_opts_def get_source_opts_def opt_def opt_dest_def py_replace_char_def)
  moreover have "distinct (map opt_dest (get_user_opts u g n))" "get_user_opts u g n \<noteq> []" for u g n
    by (simp_all add: get_user_opts_def opt_def opt_dest_def py_replace_char_def)
  ultimately show ?thesis
    by (auto simp: gen_all_source_opts_def all_user_opts_def list_all_iff)
qed

lemma registered_names:
  "map fst (gen_all_source_opts @ all_user_opts) = map fst SOURCES @ map fst USERS"
  by (simp add: gen_all_source_opts_def all_user_opts_def gen_all_user_opts_def comp_def case_prod_beta)

definition registered_conf :: "string \<Rightarrow> string \<Rightarrow> string \<Rightarrow> cfg_conf" where
  "registered_conf hostarch debianarch version = empty_conf\<lparr>cf_groups :=
     (default_group, CLI_OPTS hostarch debianarch version @ BASE_OPTS) # (''profiles'', PROFILE_OPTS) #
     gen_all_source_opts @ all_user_opts\<rparr>"

lemma options_registered:
  "register_groups (registered_groups hostarch debianarch version) empty_conf =
     Inr (registered_conf hostarch debianarch version)"
proof -
  let ?cli = "CLI_OPTS hostarch debianarch version"
  let ?c1 = "empty_conf\<lparr>cf_groups := [(default_group, ?cli)]\<rparr>"
  let ?c2 = "empty_conf\<lparr>cf_groups := [(default_group, ?cli @ BASE_OPTS)]\<rparr>"
  have empty: "group_opts empty_conf default_group = []" "cf_groups empty_conf = []"
    by (simp_all add: group_opts_def empty_conf_def)
  have nonempty: "?cli \<noteq> []" "BASE_OPTS \<noteq> []"
    by (simp_all add: CLI_OPTS_def BASE_OPTS_def)
  note distinct = default_dests [of hostarch debianarch version]
  have "register_opts ?cli default_group empty_conf = Inr ?c1"
    using register_opts_fresh [of ?cli empty_conf default_group] distinct nonempty by (simp add: empty)
  moreover have "register_opts BASE_OPTS default_group ?c1 = Inr ?c2"
    using register_opts_fresh [of BASE_OPTS ?c1 default_group] distinct nonempty
    by (simp add: group_opts_def Int_commute)
  moreover have "register_groups ((''profiles'', PROFILE_OPTS) # gen_all_source_opts @ all_user_opts) ?c2 =
      Inr (?c2\<lparr>cf_groups := cf_groups ?c2 @ (''profiles'', PROFILE_OPTS) # gen_all_source_opts @ all_user_opts\<rparr>)"
    using group_names_distinct registered_dests registered_names
    by (intro register_groups_fresh) (auto simp: default_group_def)
  ultimately show ?thesis
    by (simp add: registered_groups_def registered_conf_def)
qed

section \<open>Values\<close>

text \<open>What oslo.config checks of a value before it accepts it.\<close>

definition value_fits :: "cfg_opt \<Rightarrow> opt_value \<Rightarrow> bool" where
  "value_fits ot v =
     (case (opt_kind ot, v) of
        (StrOpt, StrValue s) \<Rightarrow> opt_choices ot = [] \<or> s \<in> set (opt_choices ot)
      | (BoolOpt, BoolValue b) \<Rightarrow> True
      | (IntOpt, IntValue i) \<Rightarrow> (case opt_min ot of None \<Rightarrow> True | Some m \<Rightarrow> m \<le> i)
      | (ListOpt, ListValue xs) \<Rightarrow> True
      | (DictOpt, DictValue d) \<Rightarrow> True
      | (MultiOpt, ListValue xs) \<Rightarrow> True
      | _ \<Rightarrow> False)"

definition values_fit :: "(string \<times> cfg_opt list) list \<Rightarrow> (string \<Rightarrow> string \<Rightarrow> opt_value option) \<Rightarrow> bool" where
  "values_fit gs assigned \<longleftrightarrow> list_all (\<lambda>(grp, os). list_all (\<lambda>ot.
     case assigned grp (opt_dest ot) of None \<Rightarrow> True | Some v \<Rightarrow> value_fits ot v) os) gs"

definition assigned_or :: "(string \<Rightarrow> string \<Rightarrow> opt_value option) \<Rightarrow> string \<Rightarrow> opt_value \<Rightarrow> opt_value" where
  "assigned_or assigned dest v = (case assigned default_group dest of Some w \<Rightarrow> w | None \<Rightarrow> v)"

lemma conf_get_default:
  assumes "find_opt (group_opts cf default_group) dest = Some ot" and "dict_get (cf_attrs cf) dest = None"
  shows "conf_get cf dest = Inr (assigned_or (cf_assigned cf) dest
    (case dict_get (cf_defaults cf) dest of Some v \<Rightarrow> v | None \<Rightarrow> opt_default ot))"
  using assms by (simp add: conf_get_def assigned_or_def split: option.splits)

lemma registered_default_group:
  "group_opts (registered_conf h d v) default_group = CLI_OPTS h d v @ BASE_OPTS"
  by (simp add: group_opts_def registered_conf_def)

lemma find_default_opts:
  "find_opt (CLI_OPTS h d v @ BASE_OPTS) ''base'' =
     Some ((opt StrOpt ''base'' (StrValue ''rocky''))\<lparr>opt_short := Some CHR ''b'', opt_choices := BASE_OS_DISTRO\<rparr>)"
  "find_opt (CLI_OPTS h d v @ BASE_OPTS) ''base_arch'' =
     Some ((opt StrOpt ''base-arch'' (StrValue h))\<lparr>opt_choices := BASE_ARCH\<rparr>)"
  "find_opt (CLI_OPTS h d v @ BASE_OPTS) ''base_image'' = Some (opt StrOpt ''base-image'' NoValue)"
  "find_opt (CLI_OPTS h d v @ BASE_OPTS) ''base_tag'' = Some (opt StrOpt ''base-tag'' (StrValue ''latest''))"
  "find_opt (CLI_OPTS h d v @ BASE_OPTS) ''openstack_release'' =
     Some (opt StrOpt ''openstack-release'' (StrValue OPENSTACK_RELEASE))"
  "find_opt (CLI_OPTS h d v @ BASE_OPTS) ''openstack_branch'' = Some (opt StrOpt ''openstack-branch'' NoValue)"
  "find_opt (CLI_OPTS h d v @ BASE_OPTS) ''openstack_branch_slashed'' =
     Some (opt StrOpt ''openstack-branch-slashed'' NoValue)"
  "find_opt (CLI_OPTS h d v @ BASE_OPTS) ''debian_arch'' =
     Some ((opt StrOpt ''debian-arch'' (StrValue d))\<lparr>opt_choices := DEBIAN_ARCH\<rparr>)"
  by (simp_all add: find_opt_def CLI_OPTS_def opt_def opt_dest_def py_replace_char_def)

lemma assigned_string:
  assumes "values_fit (registered_groups h d v) assigned"
    and "find_opt (CLI_OPTS h d v @ BASE_OPTS) dest = Some ot" and "opt_kind ot = StrOpt"
  shows "case assigned default_group dest of None \<Rightarrow> True
    | Some w \<Rightarrow> \<exists>s. w = StrValue s \<and> (opt_choices ot = [] \<or> s \<in> set (opt_choices ot))"
proof -
  have ot: "ot \<in> set (CLI_OPTS h d v @ BASE_OPTS)" "opt_dest ot = dest"
    using find_optD [OF assms(2)] by simp_all
  then have "case assigned default_group dest of None \<Rightarrow> True | Some w \<Rightarrow> value_fits ot w"
    using assms(1) by (auto simp: values_fit_def registered_groups_def list_all_iff)
  then show ?thesis
    using assms(3) by (auto simp: value_fits_def split: option.splits opt_value.splits)
qed

section \<open>parse\<close>

definition parsed_defaults :: "string \<Rightarrow> string \<Rightarrow> string \<Rightarrow> (string, opt_value) dict" where
  "parsed_defaults tag release arch =
     [(''base_tag'', StrValue tag), (''openstack_branch'', StrValue (openstack_branch_of release)),
      (''openstack_branch_slashed'',
         StrValue (py_replace_char (CHR ''-'') (CHR ''/'') (openstack_branch_of release))),
      (''debian_arch'', StrValue (derived_arch_of arch))]"

lemma derive_defaults_run:
  assumes "conf_get cf ''base'' = Inr (StrValue base)" "conf_get cf ''openstack_release'' = Inr (StrValue release)"
    "conf_get cf ''base_arch'' = Inr (StrValue arch)" "conf_get cf ''base_image'' = Inr im"
    and "dict_get DEFAULT_BASE_TAGS base = Some (name, tag)" and "cf_defaults cf = []" "cf_attrs cf = []"
  shows "derive_defaults cf = Inr (cf\<lparr>cf_defaults := parsed_defaults tag release arch,
    cf_attrs := if value_true im then [] else [(''base_image'', StrValue name)]\<rparr>)"
  using assms
  by (simp add: derive_defaults_def str_of_def set_default_def Let_def parsed_defaults_def)

text \<open>The values after a successful reading of the command line and before the derived defaults.\<close>

lemma chosen_values:
  assumes machine: "debianarch_of (hostarch_of machine) = Some d"
    and fit: "values_fit (registered_groups (hostarch_of machine) d version) assigned"
  obtains base arch release where
    "assigned_or assigned ''base'' (StrValue ''rocky'') = StrValue base" "base \<in> set BASE_OS_DISTRO"
    "assigned_or assigned ''base_arch'' (StrValue (hostarch_of machine)) = StrValue arch" "arch \<in> set BASE_ARCH"
    "assigned_or assigned ''openstack_release'' (StrValue OPENSTACK_RELEASE) = StrValue release"
proof -
  note found = find_default_opts [of "hostarch_of machine" d version]
  note str = assigned_string [OF fit]
  have h: "hostarch_of machine \<in> set BASE_ARCH" "BASE_ARCH \<noteq> []"
    using machine by (auto simp: debianarch_of_def BASE_ARCH_def split: if_splits)
  obtain base where base: "assigned_or assigned ''base'' (StrValue ''rocky'') = StrValue base" "base \<in> set BASE_OS_DISTRO"
    using str [OF found(1)]
    by (auto simp: assigned_or_def opt_def BASE_OS_DISTRO_def split: option.splits)
  obtain arch where arch: "assigned_or assigned ''base_arch'' (StrValue (hostarch_of machine)) = StrValue arch"
      "arch \<in> set BASE_ARCH"
    using str [OF found(2)] h by (auto simp: assigned_or_def opt_def split: option.splits)
  obtain release where "assigned_or assigned ''openstack_release'' (StrValue OPENSTACK_RELEASE) = StrValue release"
    using str [OF found(5)] by (auto simp: assigned_or_def opt_def split: option.splits)
  with base arch show thesis by (rule that)
qed

lemma conf_get_parsed:
  assumes "find_opt (CLI_OPTS h d version @ BASE_OPTS) dest = Some ot" and "dict_get attrs dest = None"
  shows "conf_get ((registered_conf h d version)\<lparr>cf_assigned := assigned, cf_defaults := ds, cf_attrs := attrs\<rparr>) dest =
    Inr (assigned_or assigned dest (case dict_get ds dest of Some v \<Rightarrow> v | None \<Rightarrow> opt_default ot))"
proof -
  have "group_opts ((registered_conf h d version)\<lparr>cf_assigned := assigned, cf_defaults := ds, cf_attrs := attrs\<rparr>)
      default_group = CLI_OPTS h d version @ BASE_OPTS"
    using registered_default_group [of h d version] by (simp add: group_opts_def)
  then show ?thesis using conf_get_default assms by simp
qed

text \<open>A command line that oslo.config accepts is parsed.\<close>

lemma parse_run:
  assumes machine: "debianarch_of (hostarch_of machine) = Some d"
    and fit: "values_fit (registered_groups (hostarch_of machine) d version) assigned"
  obtains base arch release name tag where
    "assigned_or assigned ''base'' (StrValue ''rocky'') = StrValue base" "base \<in> set BASE_OS_DISTRO"
    "assigned_or assigned ''base_arch'' (StrValue (hostarch_of machine)) = StrValue arch" "arch \<in> set BASE_ARCH"
    "assigned_or assigned ''openstack_release'' (StrValue OPENSTACK_RELEASE) = StrValue release"
    "dict_get DEFAULT_BASE_TAGS base = Some (name, tag)"
    "parse machine version (Inr assigned) = Inr ((registered_conf (hostarch_of machine) d version)\<lparr>
       cf_assigned := assigned, cf_defaults := parsed_defaults tag release arch,
       cf_attrs := if value_true (assigned_or assigned ''base_image'' NoValue) then [] else [(''base_image'', StrValue name)]\<rparr>)"
proof -
  let ?h = "hostarch_of machine"
  let ?rc = "registered_conf ?h d version"
  note found = find_default_opts [of ?h d version]
  obtain base arch release where chosen:
      "assigned_or assigned ''base'' (StrValue ''rocky'') = StrValue base" "base \<in> set BASE_OS_DISTRO"
      "assigned_or assigned ''base_arch'' (StrValue ?h) = StrValue arch" "arch \<in> set BASE_ARCH"
      "assigned_or assigned ''openstack_release'' (StrValue OPENSTACK_RELEASE) = StrValue release"
    using chosen_values [OF assms] .
  obtain name tag where tag: "dict_get DEFAULT_BASE_TAGS base = Some (name, tag)"
    using chosen(2) by (auto simp: BASE_OS_DISTRO_def DEFAULT_BASE_TAGS_def)
  let ?image = "assigned_or assigned ''base_image'' NoValue"
  let ?attrs = "if value_true ?image then [] else [(''base_image'', StrValue name)]"
  let ?cf = "?rc\<lparr>cf_assigned := assigned, cf_defaults := parsed_defaults tag release arch, cf_attrs := ?attrs\<rparr>"
  note get = conf_get_parsed [where h = ?h and d = d and version = version and assigned = assigned]
  have cf: "?rc\<lparr>cf_assigned := assigned\<rparr> = ?rc\<lparr>cf_assigned := assigned, cf_defaults := [], cf_attrs := []\<rparr>"
    by (simp add: registered_conf_def empty_conf_def)
  note get0 = get [where ds = "[]" and attrs = "[]", folded cf]
  have unset: "cf_defaults (?rc\<lparr>cf_assigned := assigned\<rparr>) = []" "cf_attrs (?rc\<lparr>cf_assigned := assigned\<rparr>) = []"
    by (simp_all add: registered_conf_def empty_conf_def)
  have "derive_defaults (?rc\<lparr>cf_assigned := assigned\<rparr>) = Inr ?cf"
    by (rule derive_defaults_run [OF _ _ _ _ tag unset])
      (use get0 [OF found(1)] get0 [OF found(2)] get0 [OF found(3)] get0 [OF found(5)] chosen in
        \<open>simp_all add: opt_def\<close>)
  then have parsed: "parse machine version (Inr assigned) = Inr ?cf"
    using machine by (simp add: parse_def options_registered)
  with chosen tag show thesis by (rule that)
qed

text \<open>
  C12: Every command line that oslo.config accepts is parsed: the options are registered without a
  clash, and what depends on other options gets its value, unless it was assigned: the tag and the
  name of the base image from the table of the distributions, the branch from the release, and the
  Debian name of the architecture, which is then the one the templates are given.
\<close>

theorem parse_derives:
  assumes machine: "debianarch_of (hostarch_of machine) = Some d"
    and fit: "values_fit (registered_groups (hostarch_of machine) d version) assigned"
  shows "\<exists>cf base arch release name tag.
    parse machine version (Inr assigned) = Inr cf \<and>
    assigned_or assigned ''base'' (StrValue ''rocky'') = StrValue base \<and> base \<in> set BASE_OS_DISTRO \<and>
    assigned_or assigned ''base_arch'' (StrValue (hostarch_of machine)) = StrValue arch \<and> arch \<in> set BASE_ARCH \<and>
    assigned_or assigned ''openstack_release'' (StrValue OPENSTACK_RELEASE) = StrValue release \<and>
    dict_get DEFAULT_BASE_TAGS base = Some (name, tag) \<and>
    conf_get cf ''base'' = Inr (StrValue base) \<and> conf_get cf ''base_arch'' = Inr (StrValue arch) \<and>
    conf_get cf ''openstack_release'' = Inr (StrValue release) \<and>
    conf_get cf ''base_tag'' = Inr (assigned_or assigned ''base_tag'' (StrValue tag)) \<and>
    conf_get cf ''openstack_branch'' =
      Inr (assigned_or assigned ''openstack_branch'' (StrValue (openstack_branch_of release))) \<and>
    conf_get cf ''openstack_branch_slashed'' =
      Inr (assigned_or assigned ''openstack_branch_slashed''
        (StrValue (py_replace_char (CHR ''-'') (CHR ''/'') (openstack_branch_of release)))) \<and>
    conf_get cf ''debian_arch'' = Inr (assigned_or assigned ''debian_arch'' (StrValue (worker_debian_arch arch))) \<and>
    conf_get cf ''base_image'' = Inr (case assigned default_group ''base_image'' of
        Some (StrValue s) \<Rightarrow> if s = [] then StrValue name else StrValue s | _ \<Rightarrow> StrValue name)"
proof -
  let ?h = "hostarch_of machine"
  note found = find_default_opts [of ?h d version]
  obtain base arch release name tag where chosen:
      "assigned_or assigned ''base'' (StrValue ''rocky'') = StrValue base" "base \<in> set BASE_OS_DISTRO"
      "assigned_or assigned ''base_arch'' (StrValue ?h) = StrValue arch" "arch \<in> set BASE_ARCH"
      "assigned_or assigned ''openstack_release'' (StrValue OPENSTACK_RELEASE) = StrValue release"
    and tag: "dict_get DEFAULT_BASE_TAGS base = Some (name, tag)"
    and parsed: "parse machine version (Inr assigned) = Inr ((registered_conf ?h d version)\<lparr>
       cf_assigned := assigned, cf_defaults := parsed_defaults tag release arch,
       cf_attrs := if value_true (assigned_or assigned ''base_image'' NoValue) then [] else [(''base_image'', StrValue name)]\<rparr>)"
    using assms by (rule parse_run)
  let ?attrs = "if value_true (assigned_or assigned ''base_image'' NoValue) then [] else [(''base_image'', StrValue name)]"
  let ?cf = "(registered_conf ?h d version)\<lparr>cf_assigned := assigned, cf_defaults := parsed_defaults tag release arch,
    cf_attrs := ?attrs\<rparr>"
  note get = conf_get_parsed [where h = ?h and d = d and version = version and assigned = assigned]
  have debian: "derived_arch_of arch = worker_debian_arch arch"
    using chosen(4) by (auto simp: BASE_ARCH_def derived_arch_of_def worker_debian_arch_def)
  have image: "conf_get ?cf ''base_image'' = Inr (case assigned default_group ''base_image'' of
      Some (StrValue s) \<Rightarrow> if s = [] then StrValue name else StrValue s | _ \<Rightarrow> StrValue name)"
    using assigned_string [OF fit found(3)] get [OF found(3), of "[]" "parsed_defaults tag release arch"]
    by (auto simp: conf_get_def value_true_def assigned_or_def opt_def parsed_defaults_def split: option.splits)
  have none: "dict_get ?attrs dest = None" if "dest \<noteq> ''base_image''" for dest
    using that by simp
  have read: "conf_get ?cf ''base'' = Inr (StrValue base)" "conf_get ?cf ''base_arch'' = Inr (StrValue arch)"
      "conf_get ?cf ''openstack_release'' = Inr (StrValue release)"
    using get [OF found(1) none] get [OF found(2) none] get [OF found(5) none] chosen(1,3,5)
    by (simp_all add: parsed_defaults_def opt_def)
  have set: "conf_get ?cf ''base_tag'' = Inr (assigned_or assigned ''base_tag'' (StrValue tag))"
      "conf_get ?cf ''openstack_branch'' =
         Inr (assigned_or assigned ''openstack_branch'' (StrValue (openstack_branch_of release)))"
      "conf_get ?cf ''openstack_branch_slashed'' = Inr (assigned_or assigned ''openstack_branch_slashed''
         (StrValue (py_replace_char (CHR ''-'') (CHR ''/'') (openstack_branch_of release))))"
      "conf_get ?cf ''debian_arch'' = Inr (assigned_or assigned ''debian_arch'' (StrValue (worker_debian_arch arch)))"
    using get [OF found(4) none] get [OF found(6) none] get [OF found(7) none] get [OF found(8) none]
    by (simp_all add: parsed_defaults_def debian)
  show ?thesis
    by (rule exI [where x = ?cf], rule exI [where x = base], rule exI [where x = arch],
        rule exI [where x = release], rule exI [where x = name], rule exI [where x = tag])
      (intro conjI parsed chosen tag read set image)
qed

definition debian_args :: "string \<Rightarrow> string \<Rightarrow> opt_value option" where
  "debian_args grp dest = (if dest = ''base'' then Some (StrValue ''debian'') else None)"

lemma debian_args_fit: "values_fit (registered_groups h d v) debian_args"
proof -
  have "case debian_args grp (opt_dest ot) of None \<Rightarrow> True | Some w \<Rightarrow> value_fits ot w"
    if "(grp, os) \<in> set (registered_groups h d v)" "ot \<in> set os" for grp os ot
  proof (cases "opt_dest ot = ''base''")
    case True
    have "opt_dest ot \<noteq> ''base''" if "ot \<in> set (source_opts p)" for p
      using that by (auto simp: source_opts_def get_source_opts_def opt_def opt_dest_def py_replace_char_def)
    moreover have "opt_dest ot \<noteq> ''base''" if "ot \<in> set (get_user_opts u g n)" for u g n
      using that by (auto simp: get_user_opts_def opt_def opt_dest_def py_replace_char_def)
    moreover have "opt_dest ot \<noteq> ''base''" if "ot \<in> set PROFILE_OPTS \<or> ot \<in> set BASE_OPTS"
      using that by (auto simp: PROFILE_OPTS_def BASE_OPTS_def opt_def opt_dest_def py_replace_char_def)
    ultimately have "ot \<in> set (CLI_OPTS h d v)"
      using that True
      by (auto simp: registered_groups_def gen_all_source_opts_def all_user_opts_def)
    then have "find_opt (CLI_OPTS h d v @ BASE_OPTS) ''base'' = Some ot"
      using find_opt_unique [OF default_dests, of ot h d v] True by simp
    then have "ot = (opt StrOpt ''base'' (StrValue ''rocky''))\<lparr>opt_short := Some CHR ''b'', opt_choices := BASE_OS_DISTRO\<rparr>"
      using find_default_opts(1) [of h d v] by simp
    then show ?thesis
      by (simp add: debian_args_def True value_fits_def opt_def opt_dest_def py_replace_char_def BASE_OS_DISTRO_def)
  qed (simp add: debian_args_def)
  then show ?thesis by (auto simp: values_fit_def list_all_iff)
qed

theorem parse_derives_witness:
  "\<exists>cf. parse ''arm64'' ''21.0'' (Inr debian_args) = Inr cf \<and>
     conf_get cf ''base_tag'' = Inr (StrValue ''bookworm'') \<and>
     conf_get cf ''openstack_branch_slashed'' = Inr (StrValue ''stable/2025.2'') \<and>
     conf_get cf ''debian_arch'' = Inr (StrValue ''arm64'')"
proof -
  have "debianarch_of (hostarch_of ''arm64'') = Some ''arm64''"
    by (simp add: debianarch_of_def hostarch_of_def)
  from parse_derives [OF this debian_args_fit, of "''21.0''"] obtain cf base arch release name tag where
      "parse ''arm64'' ''21.0'' (Inr debian_args) = Inr cf"
      "assigned_or debian_args ''base'' (StrValue ''rocky'') = StrValue base"
      "assigned_or debian_args ''base_arch'' (StrValue (hostarch_of ''arm64'')) = StrValue arch"
      "assigned_or debian_args ''openstack_release'' (StrValue OPENSTACK_RELEASE) = StrValue release"
      "dict_get DEFAULT_BASE_TAGS base = Some (name, tag)"
      "conf_get cf ''base_tag'' = Inr (assigned_or debian_args ''base_tag'' (StrValue tag))"
      "conf_get cf ''openstack_branch_slashed'' = Inr (assigned_or debian_args ''openstack_branch_slashed''
        (StrValue (py_replace_char (CHR ''-'') (CHR ''/'') (openstack_branch_of release))))"
      "conf_get cf ''debian_arch'' = Inr (assigned_or debian_args ''debian_arch'' (StrValue (worker_debian_arch arch)))"
    by blast
  then show ?thesis
    by (auto simp: assigned_or_def debian_args_def DEFAULT_BASE_TAGS_def OPENSTACK_RELEASE_def hostarch_of_def
      worker_debian_arch_def openstack_branch_of_def py_replace_char_def)
qed

end
