(* ===== verification/Working_Dir_Props.thy ===== *)
theory Working_Dir_Props
  imports Working_Dir File_System_Props
begin

text \<open>
  What \<open>copytree\<close> makes of a directory without links: a function of the two nodes (\<open>copied\<close>), in which the
  source is laid over what is there already.
\<close>

section \<open>The copy of a node\<close>

fun copied :: "host \<Rightarrow> 'c node \<Rightarrow> 'c node option \<Rightarrow> 'c node"
  and copied_entries :: "host \<Rightarrow> (string \<times> 'c node) list \<Rightarrow> (string \<times> 'c node) list \<Rightarrow> (string \<times> 'c node) list" where
  "copied h (File m x) d =
     File ((case d of Some (File m' y) \<Rightarrow> m' | _ \<Rightarrow> new_file_meta h)\<lparr>m_mode := m_mode m mod 4096\<rparr>) x"
| "copied h (Dir m es) d =
     (case d of
        Some (Dir m' es') \<Rightarrow> Dir (m'\<lparr>m_mode := m_mode m mod 4096\<rparr>) (copied_entries h es es')
      | _ \<Rightarrow> Dir ((new_dir_meta h)\<lparr>m_mode := m_mode m mod 4096\<rparr>) (copied_entries h es []))"
| "copied h (Link t) d = Link t"
| "copied_entries h [] d = d"
| "copied_entries h ((n, x) # es) d = copied_entries h es (dict_set n (copied h x (map_of d n)) d)"

text \<open>No links, names that can be names, and no file where a directory is to go or the other way round.\<close>

fun copy_ok :: "'c node \<Rightarrow> 'c node option \<Rightarrow> bool"
  and entries_copy_ok :: "(string \<times> 'c node) list \<Rightarrow> (string \<times> 'c node) list \<Rightarrow> bool" where
  "copy_ok (File m x) d \<longleftrightarrow> (case d of None \<Rightarrow> True | Some (File m' y) \<Rightarrow> True | _ \<Rightarrow> False)"
| "copy_ok (Dir m es) d \<longleftrightarrow> distinct (map fst es) \<and>
     (case d of None \<Rightarrow> entries_copy_ok es [] | Some (Dir m' es') \<Rightarrow> entries_copy_ok es es' | _ \<Rightarrow> False)"
| "copy_ok (Link t) d \<longleftrightarrow> False"
| "entries_copy_ok [] d \<longleftrightarrow> True"
| "entries_copy_ok ((n, x) # es) d \<longleftrightarrow> names_ok [n] \<and> copy_ok x (map_of d n) \<and> entries_copy_ok es d"

fun height :: "'c node \<Rightarrow> nat" and entries_height :: "(string \<times> 'c node) list \<Rightarrow> nat" where
  "height (Dir m es) = Suc (entries_height es)"
| "height (File m x) = 0"
| "height (Link t) = 0"
| "entries_height [] = 0"
| "entries_height ((n, x) # es) = max (height x) (entries_height es)"

lemma entries_copy_ok_set:
  "n \<notin> fst ` set es \<Longrightarrow> entries_copy_ok es (dict_set n y d) \<longleftrightarrow> entries_copy_ok es d"
  by (induction es) auto

section \<open>Copying a file\<close>

lemma copystat_file:
  assumes "os_stat h root src = Some n" and "node_meta n = Some m" and "plain_at root q"
    and "fs_get root q = Some (File m' x)" and "writable h q"
  shows "copystat h src (path_of q) root = (Inr (), fs_put q (File (m'\<lparr>m_mode := m_mode m mod 4096\<rparr>) x) root)"
  using assms by (simp add: copystat_def p_bind_def p_gets_def os_chmod_plain)

lemma copystat_dir:
  assumes "os_stat h root src = Some n" and "node_meta n = Some m" and "plain_at root q"
    and "fs_get root q = Some (Dir m' es)" and "writable h q"
  shows "copystat h src (path_of q) root = (Inr (), fs_put q (Dir (m'\<lparr>m_mode := m_mode m mod 4096\<rparr>) es) root)"
  using assms by (simp add: copystat_def p_bind_def p_gets_def os_chmod_dir)

lemma copy2_file:
  assumes src: "plain_at root p" "fs_get root p = Some (File m x)"
    and dst: "plain_at root q" "copy_ok (File m x) (fs_get root q)" "writable h q" and apart: "apart q p"
  shows "copy2 h (path_of p) (path_of q) root = (Inr (), fs_put q (copied h (File m x) (fs_get root q)) root)"
proof -
  have pq: "p \<noteq> q" using apart by (auto simp: apart_def)
  let ?m' = "case fs_get root q of Some (File m' y) \<Rightarrow> m' | _ \<Rightarrow> new_file_meta h"
  have "write_file (\<lambda>e. e) h (path_of q) x root = (Inr (), fs_put q (File ?m' x) root)"
    and "copied h (File m x) (fs_get root q) = File (?m'\<lparr>m_mode := m_mode m mod 4096\<rparr>) x"
    using dst write_file_plain [OF dst(1)] write_file_over [OF dst(1)]
    by (auto split: option.splits node.splits)
  then obtain m' where m': "write_file (\<lambda>e. e) h (path_of q) x root = (Inr (), fs_put q (File m' x) root)"
    and copy: "copied h (File m x) (fs_get root q) = File (m'\<lparr>m_mode := m_mode m mod 4096\<rparr>) x"
    by (rule that)
  let ?root1 = "fs_put q (File m' x) root"
  have "\<not> os_isdir h root (path_of q)"
    using dst by (auto simp: os_isdir_plain)
  moreover have "shutil_copyfile h (path_of p) (path_of q) root = (Inr (), ?root1)"
    using src dst(1) pq m'
    by (simp add: shutil_copyfile_def p_bind_def p_gets_def locate_plain read_file_plain)
  moreover have "copystat h (path_of p) (path_of q) ?root1 =
      (Inr (), fs_put q (File (m'\<lparr>m_mode := m_mode m mod 4096\<rparr>) x) ?root1)"
  proof (rule copystat_file)
    have "fs_get ?root1 p = Some (File m x)" using src(2) apart by (simp add: fs_get_put_apart)
    moreover from this have "plain_at ?root1 p"
      using src(1) plain_at_file [of p ?root1] by (simp add: plain_at_def)
    ultimately show "os_stat h ?root1 (path_of p) = Some (File m x)" by (simp add: os_stat_plain)
    show "plain_at ?root1 q" using dst(1) by (intro plain_at_put) (simp_all add: is_link_node_def)
    show "fs_get ?root1 q = Some (File m' x)" using dst(1) by (rule fs_get_put_plain)
  qed (use dst in simp_all)
  ultimately show ?thesis
    by (simp add: copy2_def p_bind_def p_gets_def p_then_def copy fs_put_put del: copied.simps)
qed

section \<open>Copying a directory\<close>

text \<open>A source that can be copied to a place apart from it, all of which can be written.\<close>

definition copy_setting :: "host \<Rightarrow> 'c node \<Rightarrow> string list \<Rightarrow> string list \<Rightarrow> 'c node \<Rightarrow> bool" where
  "copy_setting h root p q x \<longleftrightarrow> plain_at root p \<and> fs_get root p = Some x \<and> plain_at root q \<and>
     copy_ok x (fs_get root q) \<and> apart q p \<and> (\<forall>r. prefix q r \<longrightarrow> writable h r)"

text \<open>A node of a limited height is copied as \<open>copied\<close> says.\<close>

definition copies :: "nat \<Rightarrow> host \<Rightarrow> bool" where
  "copies k h \<longleftrightarrow> (\<forall>root p q x. copy_setting h root p q x \<and> height x \<le> k \<longrightarrow>
     (if is_dir_node x then copytree k else copy2) h (path_of p) (path_of q) root =
       (Inr (), fs_put q (copied h x (fs_get root q)) root))"

definition copy_entry :: "nat \<Rightarrow> host \<Rightarrow> string list \<Rightarrow> string list \<Rightarrow> string \<Rightarrow> unit worker_prog" where
  "copy_entry k h p q n =
     p_bind (p_gets (\<lambda>root. os_isdir h root (path_join (path_of p) n))) (\<lambda>dir.
       (if dir then copytree k else copy2) h (path_join (path_of p) n) (path_join (path_of q) n))"

lemma apart_extend: "apart q p \<Longrightarrow> apart (q @ u) (p @ v)"
  unfolding apart_def prefix_def by (metis append_eq_append_conv2)

lemma plain_at_child:
  "plain_at root p \<Longrightarrow> fs_get root p = Some (Dir m es) \<Longrightarrow> names_ok [n] \<Longrightarrow>
     \<not> is_link_node (map_of es n) \<Longrightarrow> plain_at root (p @ [n])"
  by (auto simp: plain_at_def fs_get_append split: option.splits)

lemma copy_entry_run:
  assumes IH: "copies k h" and setting: "copy_setting h root p q (Dir m es)"
    and there: "map_of es n = Some x" and names: "names_ok [n]" and ok: "copy_ok x (map_of d n)" and k: "height x \<le> k"
  shows "copy_entry k h p q n (fs_put q (Dir md d) root) =
    (Inr (), fs_put q (Dir md (dict_set n (copied h x (map_of d n)) d)) root)"
proof -
  let ?r = "fs_put q (Dir md d) root"
  have p: "plain_at root p" "fs_get root p = Some (Dir m es)" and q: "plain_at root q" and apart: "apart q p"
    using setting by (simp_all add: copy_setting_def)
  have rq: "fs_get ?r q = Some (Dir md d)" using q by (rule fs_get_put_plain)
  have rp: "fs_get ?r p = Some (Dir m es)" using p(2) apart by (simp add: fs_get_put_apart)
  have nonempty: "p \<noteq> []" "q \<noteq> []" and pq_names: "names_ok p" "names_ok q" using p q by (simp_all add: plain_at_def)
  have links: "\<not> is_link_node (map_of d n)" "\<not> is_link_node (Some x)"
    using ok by (cases x; auto simp: is_link_node_def)+
  have "plain_at ?r q" using q by (intro plain_at_put) (simp_all add: is_link_node_def)
  then have qn: "plain_at ?r (q @ [n])" using rq names links(1) by (rule plain_at_child)
  have "plain_at ?r p" using pq_names(1) nonempty(1) rp plain_at_there [of p ?r "Dir m es"] by (simp add: is_link_node_def)
  then have pn: "plain_at ?r (p @ [n])" using plain_at_child [OF _ rp names] links(2) there by simp
  have x: "fs_get ?r (p @ [n]) = Some x" using rp there by (simp add: fs_get_append)
  have y: "fs_get ?r (q @ [n]) = map_of d n" using rq by (simp add: fs_get_append split: option.split)
  have "copy_setting h ?r (p @ [n]) (q @ [n]) x"
    using setting pn qn x y ok apart_extend [OF apart, of "[n]" "[n]"]
    by (auto simp: copy_setting_def dest: append_prefixD)
  with IH k have "(if is_dir_node x then copytree k else copy2) h (path_of (p @ [n])) (path_of (q @ [n])) ?r =
      (Inr (), fs_put (q @ [n]) (copied h x (map_of d n)) ?r)"
    using y unfolding copies_def by metis
  moreover have "os_isdir h ?r (path_of (p @ [n])) \<longleftrightarrow> is_dir_node x"
    using os_isdir_plain [OF pn] x by (cases x) simp_all
  moreover have "fs_put (q @ [n]) (copied h x (map_of d n)) ?r =
      fs_put q (Dir md (dict_set n (copied h x (map_of d n)) d)) root"
    using rq by (rule fs_put_below)
  ultimately show ?thesis
    using names pq_names nonempty by (simp add: copy_entry_def p_bind_def p_gets_def path_join_of)
qed

lemma copy_entries_run:
  assumes IH: "copies k h" and setting: "copy_setting h root p q (Dir m es0)"
  shows "(\<forall>(n, x) \<in> set es. map_of es0 n = Some x) \<Longrightarrow> distinct (map fst es) \<Longrightarrow> entries_copy_ok es d \<Longrightarrow>
    entries_height es \<le> k \<Longrightarrow>
    note_errors (map (copy_entry k h p q) (map fst es)) (fs_put q (Dir md d) root) =
      (Inr False, fs_put q (Dir md (copied_entries h es d)) root)"
proof (induction es arbitrary: d)
  case (Cons e es)
  obtain n x where e: "e = (n, x)" by (cases e)
  let ?d = "dict_set n (copied h x (map_of d n)) d"
  have "copy_entry k h p q n (fs_put q (Dir md d) root) = (Inr (), fs_put q (Dir md ?d) root)"
    using Cons.prems by (intro copy_entry_run [OF IH setting]) (simp_all add: e)
  moreover have "note_errors (map (copy_entry k h p q) (map fst es)) (fs_put q (Dir md ?d) root) =
      (Inr False, fs_put q (Dir md (copied_entries h es ?d)) root)"
    using Cons.prems by (intro Cons.IH) (simp_all add: e entries_copy_ok_set)
  ultimately show ?case by (simp add: e p_bind_def note_error_def p_return_def)
qed (simp add: p_return_def)

lemma copytree_step: "copytree (Suc k) h (path_of p) (path_of q) =
   p_bind (list_dir (\<lambda>e. e) h (path_of p)) (\<lambda>names.
     p_then (makedirs (\<lambda>e. e) h True (path_of q))
       (p_bind (note_errors (map (copy_entry k h p q) names)) (\<lambda>failed.
        p_bind (note_error (copystat h (path_of p) (path_of q))) (\<lambda>stat_failed.
          if failed \<or> stat_failed then p_raise (OSError (path_of p)) else p_return ()))))"
  by (simp add: copy_entry_def [abs_def])

lemma copytree_dir:
  assumes IH: "copies k h" and setting: "copy_setting h root p q (Dir m es)" and k: "entries_height es \<le> k"
  shows "copytree (Suc k) h (path_of p) (path_of q) root = (Inr (), fs_put q (copied h (Dir m es) (fs_get root q)) root)"
proof -
  have p: "plain_at root p" "fs_get root p = Some (Dir m es)" and q: "plain_at root q"
    and ok: "copy_ok (Dir m es) (fs_get root q)" and apart: "apart q p" and w: "writable h q"
    using setting by (simp_all add: copy_setting_def)
  let ?md = "case fs_get root q of Some (Dir m' es') \<Rightarrow> m' | _ \<Rightarrow> new_dir_meta h"
  let ?d = "case fs_get root q of Some (Dir m' es') \<Rightarrow> es' | _ \<Rightarrow> []"
  have made: "makedirs (\<lambda>e. e) h True (path_of q) root = (Inr (), fs_put q (Dir ?md ?d) root)"
  proof (cases "fs_get root q")
    case None
    with makedirs_plain [OF q _ w] show ?thesis by (simp add: dir_at_def)
  next
    case (Some n)
    with ok obtain m' es' where n: "n = Dir m' es'" by (cases n) auto
    with Some makedirs_plain [OF q _ w] show ?thesis by (simp add: dir_at_def fs_put_same)
  qed
  have entries: "note_errors (map (copy_entry k h p q) (map fst es)) (fs_put q (Dir ?md ?d) root) =
      (Inr False, fs_put q (Dir ?md (copied_entries h es ?d)) root)"
    using ok k by (intro copy_entries_run [OF IH setting]) (auto split: option.splits node.splits)
  let ?r = "fs_put q (Dir ?md (copied_entries h es ?d)) root"
  have "copystat h (path_of p) (path_of q) ?r =
      (Inr (), fs_put q (Dir (?md\<lparr>m_mode := m_mode m mod 4096\<rparr>) (copied_entries h es ?d)) ?r)"
  proof (rule copystat_dir)
    have "fs_get ?r p = Some (Dir m es)" using p(2) apart by (simp add: fs_get_put_apart)
    moreover from this have "plain_at ?r p"
      using p(1) plain_at_there [of p ?r "Dir m es"] by (simp add: plain_at_def is_link_node_def)
    ultimately show "os_stat h ?r (path_of p) = Some (Dir m es)" by (simp add: os_stat_plain)
    show "plain_at ?r q" using q by (intro plain_at_put) (simp_all add: is_link_node_def)
    show "fs_get ?r q = Some (Dir ?md (copied_entries h es ?d))" using q by (rule fs_get_put_plain)
  qed (use w in simp_all)
  moreover have "Dir (?md\<lparr>m_mode := m_mode m mod 4096\<rparr>) (copied_entries h es ?d) = copied h (Dir m es) (fs_get root q)"
    using ok by (auto split: option.splits node.splits)
  ultimately show ?thesis
    using list_dir_plain [OF p, of "\<lambda>e. e :: py_exn" h] made entries
    by (simp add: copytree_step p_bind_def p_then_def note_error_def p_return_def fs_put_put
      del: copytree.simps copied.simps)
qed

lemma all_copies: "copies k h"
proof (induction k)
  case 0
  show ?case
    unfolding copies_def
  proof (intro allI impI)
    fix root :: "string node" and p q x
    assume s: "copy_setting h root p q x \<and> height x \<le> 0"
    then obtain m y where x: "x = File m y" by (cases x) (auto simp: copy_setting_def)
    with s copy2_file [of root p m y q h] show
      "(if is_dir_node x then copytree 0 else copy2) h (path_of p) (path_of q) root =
         (Inr (), fs_put q (copied h x (fs_get root q)) root)"
      by (simp add: copy_setting_def del: copied.simps copy_ok.simps)
  qed
next
  case (Suc k)
  show ?case
    unfolding copies_def
  proof (intro allI impI)
    fix root :: "string node" and p q x
    assume s: "copy_setting h root p q x \<and> height x \<le> Suc k"
    show "(if is_dir_node x then copytree (Suc k) else copy2) h (path_of p) (path_of q) root =
         (Inr (), fs_put q (copied h x (fs_get root q)) root)"
    proof (cases x)
      case (Dir m es)
      with s copytree_dir [OF Suc.IH] show ?thesis by (simp del: copytree.simps copied.simps)
    next
      case (File m y)
      with s copy2_file [of root p m y q h] show ?thesis
        by (simp add: copy_setting_def del: copied.simps copy_ok.simps)
    next
      case (Link t)
      with s show ?thesis by (simp add: copy_setting_def)
    qed
  qed
qed

lemma copytree_copies:
  assumes "copy_setting h root p q (Dir m es)" and "entries_height es < k"
  shows "copytree k h (path_of p) (path_of q) root = (Inr (), fs_put q (copied h (Dir m es) (fs_get root q)) root)"
proof (cases k)
  case (Suc k')
  with assms all_copies [of k' h] copytree_dir show ?thesis by (simp del: copytree.simps copied.simps)
qed (use assms in simp)

section \<open>What a copy holds\<close>

lemma map_of_copied_entries:
  "distinct (map fst es) \<Longrightarrow> map_of (copied_entries h es d) n =
     (case map_of es n of Some x \<Rightarrow> Some (copied h x (map_of d n)) | None \<Rightarrow> map_of d n)"
proof (induction es arbitrary: d)
  case (Cons e es)
  obtain k x where e: "e = (k, x)" by (cases e)
  have "map_of es k = None" using Cons.prems by (simp add: e map_of_eq_None_iff)
  then show ?case using Cons by (simp add: e split: option.splits)
qed simp

lemma entries_copy_okD: "entries_copy_ok es d \<Longrightarrow> map_of es n = Some x \<Longrightarrow> copy_ok x (map_of d n)"
  by (induction es) (auto split: if_splits)

lemma copied_dir:
  assumes "copy_ok (Dir m es) d"
  obtains m' es' where "copied h (Dir m es) d = Dir m' (copied_entries h es es')" "distinct (map fst es)"
    "entries_copy_ok es es'" "es' = (case d of Some (Dir n es') \<Rightarrow> es' | _ \<Rightarrow> [])"
  using assms by (cases d) (auto split: node.splits)

lemma copied_file:
  "copy_ok x d \<Longrightarrow> fs_get x r = Some (File m c) \<Longrightarrow>
     \<exists>m'. fs_get (copied h x d) r = Some (File m' c) \<and> m_mode m' = m_mode m mod 4096"
proof (induction r arbitrary: x d)
  case Nil
  then show ?case by simp
next
  case (Cons n r)
  from Cons.prems(2) obtain m0 es y where x: "x = Dir m0 es" "map_of es n = Some y" "fs_get y r = Some (File m c)"
    by (cases x) (auto split: option.splits)
  obtain m' es' where copy: "copied h x d = Dir m' (copied_entries h es es')" "distinct (map fst es)"
      "entries_copy_ok es es'"
    using copied_dir [of m0 es d h] Cons.prems(1) x(1) by blast
  have "copy_ok y (map_of es' n)" using copy(3) x(2) by (rule entries_copy_okD)
  from Cons.IH [OF this x(3)] show ?case
    using copy(1) x(2) map_of_copied_entries [OF copy(2), of h es' n] by simp
qed

lemma copied_other:
  "copy_ok x d \<Longrightarrow> fs_get x r = None \<Longrightarrow>
     fs_get (copied h x d) r = (case d of None \<Rightarrow> None | Some y \<Rightarrow> fs_get y r)"
proof (induction r arbitrary: x d)
  case Nil
  then show ?case by simp
next
  case (Cons n r)
  show ?case
  proof (cases x)
    case (Dir m0 es)
    obtain m' es' where copy: "copied h x d = Dir m' (copied_entries h es es')" "distinct (map fst es)"
        "entries_copy_ok es es'" "es' = (case d of Some (Dir k es') \<Rightarrow> es' | _ \<Rightarrow> [])"
      using copied_dir [of m0 es d h] Cons.prems(1) Dir by blast
    have there: "(case d of None \<Rightarrow> None | Some y \<Rightarrow> fs_get y (n # r)) =
        (case map_of es' n of None \<Rightarrow> None | Some y \<Rightarrow> fs_get y r)"
      using Cons.prems(1) Dir copy(4) by (cases d) (auto split: node.splits)
    show ?thesis
    proof (cases "map_of es n")
      case None
      then show ?thesis
        using copy(1) map_of_copied_entries [OF copy(2), of h es' n] there by (simp split: option.split)
    next
      case (Some y)
      have "copy_ok y (map_of es' n)" using copy(3) Some by (rule entries_copy_okD)
      from Cons.IH [OF this] show ?thesis
        using Cons.prems(2) Dir Some copy(1) map_of_copied_entries [OF copy(2), of h es' n] there by simp
    qed
  next
    case (File m c)
    then show ?thesis using Cons.prems(1) by (auto split: option.splits node.splits)
  qed (use Cons.prems in simp)
qed

section \<open>Directories laid over each other\<close>

definition placed :: "'c node \<Rightarrow> string list \<Rightarrow> 'c node option \<Rightarrow> 'c node" where
  "placed root q d = (case d of None \<Rightarrow> root | Some x \<Rightarrow> fs_put q x root)"

primrec overlaid :: "host \<Rightarrow> 'c node list \<Rightarrow> 'c node option \<Rightarrow> 'c node option" where
  "overlaid h [] d = d"
| "overlaid h (x # xs) d = overlaid h xs (Some (copied h x d))"

primrec overlay_ok :: "host \<Rightarrow> 'c node list \<Rightarrow> 'c node option \<Rightarrow> bool" where
  "overlay_ok h [] d \<longleftrightarrow> True"
| "overlay_ok h (x # xs) d \<longleftrightarrow> is_dir_node x \<and> copy_ok x d \<and> overlay_ok h xs (Some (copied h x d))"

text \<open>Directories with the given positions and nodes, apart from the place they are copied to.\<close>

definition sources_at :: "'c node \<Rightarrow> string list \<Rightarrow> string list list \<Rightarrow> 'c node list \<Rightarrow> bool" where
  "sources_at root q ps xs \<longleftrightarrow>
     list_all2 (\<lambda>p x. plain_at root p \<and> apart q p \<and> fs_get root p = Some x) ps xs"

lemma placed_get: "plain_at root q \<Longrightarrow> d = None \<longrightarrow> fs_get root q = None \<Longrightarrow> fs_get (placed root q d) q = d"
  by (simp add: placed_def fs_get_put_plain split: option.split)

lemma placed_apart: "apart q p \<Longrightarrow> fs_get (placed root q d) p = fs_get root p"
  by (simp add: placed_def fs_get_put_apart split: option.split)

lemma placed_plain: "plain_at root q \<Longrightarrow> \<not> is_link_node d \<Longrightarrow> plain_at (placed root q d) q"
  by (cases d) (simp_all add: placed_def plain_at_put)

lemma placed_placed: "fs_put q x (placed root q d) = placed root q (Some x)"
  by (simp add: placed_def fs_put_put split: option.split)

lemma copy_ok_no_link: "copy_ok x d \<Longrightarrow> \<not> is_link_node d"
  by (cases x; cases d) (auto simp: is_link_node_def split: node.splits)

lemma copytree_placed:
  assumes q: "plain_at root q" and d: "d = None \<longrightarrow> fs_get root q = None"
    and p: "plain_at root p" "apart q p" "fs_get root p = Some x"
    and x: "is_dir_node x" "copy_ok x d" "height x \<le> k" and w: "\<forall>r. prefix q r \<longrightarrow> writable h r"
  shows "copytree k h (path_of p) (path_of q) (placed root q d) = (Inr (), placed root q (Some (copied h x d)))"
proof -
  obtain m es where dir: "x = Dir m es" using x(1) by (cases x) simp_all
  have xp: "fs_get (placed root q d) p = Some x" using p(2,3) by (simp add: placed_apart)
  then have "plain_at (placed root q d) p"
    using p(1) plain_at_there [of p "placed root q d" x] by (simp add: plain_at_def is_link_node_def dir)
  moreover have "plain_at (placed root q d) q" using q copy_ok_no_link [OF x(2)] by (rule placed_plain)
  ultimately have "copy_setting h (placed root q d) p q (Dir m es)"
    using xp x(2) p(2) w placed_get [OF q d] by (simp add: copy_setting_def dir)
  from copytree_copies [OF this, of k] show ?thesis
    using x(3) placed_get [OF q d] placed_placed [of q "copied h x d" root d] by (simp add: dir)
qed

lemma copy_all:
  assumes q: "plain_at root q" and w: "\<forall>r. prefix q r \<longrightarrow> writable h r"
  shows "sources_at root q ps xs \<Longrightarrow> overlay_ok h xs d \<Longrightarrow> d = None \<longrightarrow> fs_get root q = None \<Longrightarrow>
    \<forall>x \<in> set xs. height x \<le> k \<Longrightarrow>
    p_for (map path_of ps) (\<lambda>dir. copytree k h dir (path_of q)) (placed root q d) =
      (Inr (), placed root q (overlaid h xs d))"
proof (induction ps arbitrary: xs d)
  case Nil
  then show ?case by (simp add: sources_at_def p_return_def)
next
  case (Cons p ps)
  from Cons.prems(1) obtain x xs' where xs: "xs = x # xs'" "sources_at root q ps xs'"
      and p: "plain_at root p" "apart q p" "fs_get root p = Some x"
    by (auto simp: sources_at_def list_all2_Cons1)
  have "copytree k h (path_of p) (path_of q) (placed root q d) = (Inr (), placed root q (Some (copied h x d)))"
    using Cons.prems xs(1) by (intro copytree_placed [OF q _ p _ _ _ w]) simp_all
  moreover have "p_for (map path_of ps) (\<lambda>dir. copytree k h dir (path_of q)) (placed root q (Some (copied h x d))) =
      (Inr (), placed root q (overlaid h xs' (Some (copied h x d))))"
    using Cons.prems xs by (intro Cons.IH) simp_all
  ultimately show ?case by (simp add: xs(1) p_then_def p_bind_def)
qed

lemma overlaid_other:
  "overlay_ok h xs d \<Longrightarrow> \<forall>x \<in> set xs. fs_get x r = None \<Longrightarrow>
     Option.bind (overlaid h xs d) (\<lambda>y. fs_get y r) = Option.bind d (\<lambda>y. fs_get y r)"
proof (induction xs arbitrary: d)
  case (Cons x xs)
  then have "Option.bind (overlaid h xs (Some (copied h x d))) (\<lambda>y. fs_get y r) = fs_get (copied h x d) r"
    by simp
  with Cons.prems copied_other [of x d r h] show ?case by (cases d) simp_all
qed simp

lemma overlaid_Some: "overlaid h xs (Some y) \<noteq> None"
  by (induction xs arbitrary: y) simp_all

lemma overlaid_file:
  "overlay_ok h xs d \<Longrightarrow> i < length xs \<Longrightarrow> fs_get (xs ! i) r = Some (File m c) \<Longrightarrow>
     \<forall>j < length xs. i < j \<longrightarrow> fs_get (xs ! j) r = None \<Longrightarrow>
     \<exists>m'. Option.bind (overlaid h xs d) (\<lambda>y. fs_get y r) = Some (File m' c) \<and> m_mode m' = m_mode m mod 4096"
proof (induction xs arbitrary: d i)
  case (Cons x xs)
  have ok: "overlay_ok h xs (Some (copied h x d))" using Cons.prems(1) by simp
  show ?case
  proof (cases i)
    case 0
    have "fs_get (xs ! j) r = None" if "j < length xs" for j
      using Cons.prems(4) [rule_format, of "Suc j"] that by (simp add: 0)
    then have later: "\<forall>y \<in> set xs. fs_get y r = None"
      by (auto simp: in_set_conv_nth)
    obtain m' where "fs_get (copied h x d) r = Some (File m' c)" "m_mode m' = m_mode m mod 4096"
      using copied_file [of x d r m c h] Cons.prems(1,3) 0 by auto
    then show ?thesis using overlaid_other [OF ok later] by simp
  next
    case (Suc i')
    have "\<forall>j < length xs. i' < j \<longrightarrow> fs_get (xs ! j) r = None"
      using Cons.prems(4) by (auto simp: Suc)
    with Cons.IH [OF ok, of i'] Cons.prems(2,3) show ?thesis by (simp add: Suc)
  qed
qed simp

section \<open>setup_working_dir\<close>

lemma placed_start: "placed root q (fs_get root q) = root"
  by (simp add: placed_def fs_put_same split: option.split)

lemma placed_below:
  assumes "plain_at root q" and "d = None \<longrightarrow> fs_get root q = None"
  shows "fs_get (placed root q d) (q @ r) = Option.bind d (\<lambda>y. fs_get y r)"
  using placed_get [OF assms] by (cases d) (simp_all add: fs_get_append)

text \<open>
  C7: The working directory is the images' directory with the user's directories laid over it: the
  copying succeeds, every file of the result is that of the last of the directories that has one of
  this name, with its content and mode, what none of them has is left as it was, and nothing outside
  of the working directory changes.
\<close>

theorem working_dir_overlays:
  assumes c: "wc_work_dir c = Some w" "w \<noteq> []" "path_join w ''docker'' = path_of q"
      "wc_docker_dir c = map path_of ps" "wc_apt_sources_list c = None" "wc_apt_preferences c = None"
    and q: "plain_at root q" "\<forall>r. prefix q r \<longrightarrow> writable h r"
    and xs: "sources_at root q (p # ps) xs" "overlay_ok h xs (fs_get root q)" "\<forall>x \<in> set xs. height x \<le> limit"
  shows "\<exists>root'. setup_working_dir limit h c (path_of p) tmp root =
      (Inr \<lparr>bd_working_dir = path_of q, bd_temp_dir = None\<rparr>, root') \<and>
    (\<forall>i < length xs. \<forall>r m t. fs_get (xs ! i) r = Some (File m t) \<and>
       (\<forall>j < length xs. i < j \<longrightarrow> fs_get (xs ! j) r = None) \<longrightarrow>
       (\<exists>m'. fs_get root' (q @ r) = Some (File m' t) \<and> m_mode m' = m_mode m mod 4096)) \<and>
    (\<forall>r. (\<forall>x \<in> set xs. fs_get x r = None) \<longrightarrow> fs_get root' (q @ r) = fs_get root (q @ r)) \<and>
    (\<forall>r. apart q r \<longrightarrow> fs_get root' r = fs_get root r)"
proof -
  let ?d = "overlaid h xs (fs_get root q)"
  let ?root' = "placed root q ?d"
  have "p_for (map path_of (p # ps)) (\<lambda>dir. copytree limit h dir (path_of q)) root = (Inr (), ?root')"
    using copy_all [OF q xs(1,2) _ xs(3)] by (simp add: placed_start)
  then have run: "setup_working_dir limit h c (path_of p) tmp root =
      (Inr \<lparr>bd_working_dir = path_of q, bd_temp_dir = None\<rparr>, ?root')"
    using c by (auto simp: setup_working_dir_def make_working_dir_def copy_apt_files_def copy_if_set_def
        p_then_def p_bind_def p_return_def split: prod.splits sum.splits)
  have d: "?d = None \<longrightarrow> fs_get root q = None"
    using xs(1) by (cases xs) (auto simp: sources_at_def overlaid_Some)
  have below: "fs_get ?root' (q @ r) = Option.bind ?d (\<lambda>y. fs_get y r)" for r
    using q(1) d by (rule placed_below)
  have start: "Option.bind (fs_get root q) (\<lambda>y. fs_get y r) = fs_get root (q @ r)" for r
    by (simp add: fs_get_append split: Option.bind_split option.split)
  have "\<exists>m'. fs_get ?root' (q @ r) = Some (File m' t) \<and> m_mode m' = m_mode m mod 4096"
    if "i < length xs" "fs_get (xs ! i) r = Some (File m t)" "\<forall>j < length xs. i < j \<longrightarrow> fs_get (xs ! j) r = None"
    for i r m t
    using overlaid_file [OF xs(2) that] by (simp only: below)
  moreover have "fs_get ?root' (q @ r) = fs_get root (q @ r)" if "\<forall>x \<in> set xs. fs_get x r = None" for r
    using overlaid_other [OF xs(2) that] by (simp only: below start)
  ultimately show ?thesis using run placed_apart [of q _ root ?d] by blast
qed

definition plain_file :: "string \<Rightarrow> string node" where
  "plain_file t = File \<lparr>m_mode = 420, m_uid = 0, m_gid = 0\<rparr> t"

definition plain_dir :: "(string \<times> string node) list \<Rightarrow> string node" where
  "plain_dir es = Dir \<lparr>m_mode = 493, m_uid = 0, m_gid = 0\<rparr> es"

definition shipped_docker :: "string node" where
  "shipped_docker = plain_dir [(''base'', plain_dir [(''Dockerfile.j2'', plain_file ''shipped'')]),
     (''nova'', plain_dir [(''Dockerfile.j2'', plain_file ''nova'')])]"

definition own_docker :: "string node" where
  "own_docker = plain_dir [(''base'', plain_dir [(''Dockerfile.j2'', plain_file ''own'')])]"

definition overlay_tree :: "string node" where
  "overlay_tree = plain_dir [(''kolla'', plain_dir [(''docker'', shipped_docker)]), (''own'', own_docker), (''w'', plain_dir [])]"

definition root_host :: host where
  "root_host = \<lparr>host_cwd = [], host_users = [], host_groups = [], host_read_only = (\<lambda>q. False), host_uid = 0,
     host_gid = 0, host_dir_mode = 493, host_file_mode = 420\<rparr>"

definition overlay_conf :: worker_conf where
  "overlay_conf = \<lparr>wc_registry = None, wc_namespace = ''kolla'', wc_base = ''debian'', wc_base_image = ''debian'',
     wc_base_tag = ''bookworm'', wc_base_arch = ''x86_64'', wc_tag = ''1'', wc_repos_yaml = [], wc_use_dumb_init = True,
     wc_openstack_release = ''master'', wc_openstack_release_codename = ''Epoxy'', wc_openstack_branch = ''master'',
     wc_openstack_branch_slashed = ''master'', wc_docker_healthchecks = True, wc_rpm_setup_config = [],
     wc_distro_package_manager = None, wc_base_package_type = None, wc_clean_package_cache = True,
     wc_image_name_prefix = [], wc_maintainer = ''m'', wc_patches_path = None, wc_apt_sources_list = None,
     wc_apt_preferences = None, wc_template_override = [], wc_work_dir = Some ''/w'', wc_docker_dir = [''/own'']\<rparr>"

lemma overlay_setting:
  "sources_at overlay_tree [''w'', ''docker''] [[''kolla'', ''docker''], [''own'']] [shipped_docker, own_docker]"
  "overlay_ok root_host [shipped_docker, own_docker] (fs_get overlay_tree [''w'', ''docker''])"
  "\<forall>x \<in> set [shipped_docker, own_docker]. height x \<le> 10"
  "plain_at overlay_tree [''w'', ''docker'']"
  by (simp_all add: sources_at_def plain_at_code names_ok_def plain_component_def slash_def dir_at_def is_link_node_def
    overlay_tree_def shipped_docker_def own_docker_def plain_dir_def plain_file_def apart_def new_dir_meta_def)

theorem working_dir_overlays_witness:
  "\<exists>root'. setup_working_dir 10 root_host overlay_conf ''/kolla/docker'' [] overlay_tree =
      (Inr \<lparr>bd_working_dir = ''/w/docker'', bd_temp_dir = None\<rparr>, root') \<and>
    (\<exists>m. fs_get root' [''w'', ''docker'', ''base'', ''Dockerfile.j2''] = Some (File m ''own'')) \<and>
    (\<exists>m. fs_get root' [''w'', ''docker'', ''nova'', ''Dockerfile.j2''] = Some (File m ''nova''))"
proof -
  have paths: "path_of [''w'', ''docker''] = ''/w/docker''" "path_of [''kolla'', ''docker''] = ''/kolla/docker''"
    "path_of [''own''] = ''/own''"
    by (simp_all add: path_of_def)
  have conf: "wc_work_dir overlay_conf = Some ''/w''" "path_join ''/w'' ''docker'' = path_of [''w'', ''docker'']"
    "wc_docker_dir overlay_conf = map path_of [[''own'']]" "wc_apt_sources_list overlay_conf = None"
    "wc_apt_preferences overlay_conf = None"
    by (simp_all add: overlay_conf_def path_join_def py_startswith_def py_endswith_def path_of_def)
  have writable: "\<forall>r. prefix [''w'', ''docker''] r \<longrightarrow> writable root_host r"
    by (simp add: writable_def root_host_def)
  from working_dir_overlays [OF conf(1) _ conf(2-5) overlay_setting(4) writable overlay_setting(1-3), of "[]"]
  obtain root' where run: "setup_working_dir 10 root_host overlay_conf ''/kolla/docker'' [] overlay_tree =
      (Inr \<lparr>bd_working_dir = ''/w/docker'', bd_temp_dir = None\<rparr>, root')"
    and files: "\<forall>i < length [shipped_docker, own_docker]. \<forall>r m t.
       fs_get ([shipped_docker, own_docker] ! i) r = Some (File m t) \<and>
       (\<forall>j < length [shipped_docker, own_docker]. i < j \<longrightarrow> fs_get ([shipped_docker, own_docker] ! j) r = None) \<longrightarrow>
       (\<exists>m'. fs_get root' ([''w'', ''docker''] @ r) = Some (File m' t) \<and> m_mode m' = m_mode m mod 4096)"
    unfolding paths by auto
  have "\<exists>m'. fs_get root' ([''w'', ''docker''] @ [''base'', ''Dockerfile.j2'']) = Some (File m' ''own'')"
    using files [rule_format, of 1 "[''base'', ''Dockerfile.j2'']" _ "''own''"]
    by (auto simp: own_docker_def plain_dir_def plain_file_def)
  moreover have "\<exists>m'. fs_get root' ([''w'', ''docker''] @ [''nova'', ''Dockerfile.j2'']) = Some (File m' ''nova'')"
    using files [rule_format, of 0 "[''nova'', ''Dockerfile.j2'']" _ "''nova''"]
    by (auto simp: shipped_docker_def own_docker_def plain_dir_def plain_file_def less_Suc_eq)
  ultimately show ?thesis using run by simp
qed

end
