(* ===== verification/Path_Fuel.thy ===== *)
theory Path_Fuel
  imports Py_Glob
begin

text \<open>
  The bounds of the recursions over paths are enough: the directory part of a path is a prefix of
  it, so \<open>makedirs\<close> and \<open>glob\<close> give the same result with any larger bound.
\<close>

lemma path_dirname_prefix: "prefix (path_dirname p) p"
proof -
  let ?head = "take (length p - length (path_basename p)) p"
  have "prefix ?head p" by (rule take_is_prefix)
  moreover have "prefix (rev (dropWhile (\<lambda>c. c = slash) (rev ?head))) ?head"
    using suffix_dropWhile [of "\<lambda>c. c = slash" "rev ?head"] by (simp add: suffix_to_prefix)
  ultimately show ?thesis
    unfolding path_dirname_def Let_def using prefix_order.trans by auto
qed

lemma path_dirname_le: "length (path_dirname p) \<le> length p"
  by (rule prefix_length_le [OF path_dirname_prefix])

lemma path_dirname_shorter: "path_dirname p \<noteq> p \<Longrightarrow> length (path_dirname p) < length p"
  using path_dirname_prefix [of p] prefix_length_prefix path_dirname_le [of p]
  by (metis le_neq_implies_less prefix_def append_eq_conv_conj take_all_iff order_refl)

lemma path_dirname_basename:
  assumes "path_basename p \<noteq> []"
  shows "length (path_dirname p) < length p"
proof -
  let ?head = "take (length p - length (path_basename p)) p"
  have "p \<noteq> []" using assms by (auto simp: path_basename_def)
  with assms have "length ?head < length p" by simp
  moreover have "length (rev (dropWhile (\<lambda>c. c = slash) (rev ?head))) \<le> length ?head"
    using length_dropWhile_le [of "\<lambda>c. c = slash" "rev ?head"] by simp
  ultimately show ?thesis unfolding path_dirname_def Let_def by simp
qed

lemma split_tail_shorter:
  assumes "snd (split_tail p) \<noteq> []"
  shows "length (fst (split_tail p)) < length p"
proof (cases "path_basename p = []")
  case True
  with assms show ?thesis
    using path_dirname_basename [of "path_dirname p"] path_dirname_le [of p] by (simp add: split_tail_def)
next
  case False
  then show ?thesis using path_dirname_basename [of p] by (simp add: split_tail_def)
qed

lemma os_isdir_empty: "\<not> os_isdir h root []"
  by (simp add: os_isdir_def os_stat_def locate_def)

lemma makedirs_n_more:
  fixes wrap :: "py_exn \<Rightarrow> 'e"
  shows "length p \<le> k \<Longrightarrow>
    makedirs_n (Suc k) wrap h exist_ok p = (makedirs_n k wrap h exist_ok p :: ('e, 'c node, unit) prog)"
proof (induction k arbitrary: p)
  case 0
  then have p: "p = []" by simp
  have "split_tail ([] :: string) = ([], [])"
    by (simp add: split_tail_def path_basename_def path_dirname_def)
  then show ?case
    by (rule_tac ext) (simp add: p os_isdir_empty p_bind_def p_then_def p_gets_def p_return_def)
next
  case (Suc k)
  have IH: "makedirs_n (Suc k) wrap h exist_ok (fst (split_tail p)) =
      (makedirs_n k wrap h exist_ok (fst (split_tail p)) :: ('e, 'c node, unit) prog)"
    if "snd (split_tail p) \<noteq> []"
    using Suc.IH [of "fst (split_tail p)"] split_tail_shorter [OF that] Suc.prems by linarith
  show ?case
  proof (rule ext)
    fix root :: "'c node"
    show "makedirs_n (Suc (Suc k)) wrap h exist_ok p root = makedirs_n (Suc k) wrap h exist_ok p root"
      unfolding makedirs_n.simps(2) [of "Suc k" wrap h exist_ok p] makedirs_n.simps(2) [of k wrap h exist_ok p]
      by (cases "snd (split_tail p) = []")
        (simp_all add: IH p_bind_def p_then_def p_gets_def p_return_def del: makedirs_n.simps)
  qed
qed

lemma makedirs_enough: "length p \<le> k \<Longrightarrow> makedirs_n k wrap h exist_ok p = makedirs wrap h exist_ok p"
  unfolding makedirs_def
proof (induction k rule: dec_induct)
  case (step k)
  then show ?case by (simp only: makedirs_n_more)
qed (rule refl)

lemma glob_n_more: "length p < k \<Longrightarrow> glob_n (Suc k) h root p dironly = glob_n k h root p dironly"
proof (induction k arbitrary: p dironly)
  case (Suc k)
  have "glob_n (Suc k) h root (path_dirname p) True = glob_n k h root (path_dirname p) True"
    if "path_dirname p \<noteq> p"
    using Suc.IH [of "path_dirname p" True] path_dirname_shorter [OF that] Suc.prems by simp
  then show ?case
    unfolding glob_n.simps(2) [of "Suc k" h root p dironly] glob_n.simps(2) [of k h root p dironly]
    by (auto simp: Let_def simp del: glob_n.simps cong: if_cong)
qed simp

lemma glob_enough: "length p < k \<Longrightarrow> glob_n k h root p False = glob_glob h root p"
proof -
  assume "length p < k"
  then have "Suc (length p) \<le> k" by simp
  then show ?thesis
    unfolding glob_glob_def
  proof (induction k rule: dec_induct)
    case (step k)
    then show ?case using glob_n_more [of p k h root False] by (simp del: glob_n.simps)
  qed (rule refl)
qed

end
