(* ===== verification/Run_Sample.thy ===== *)
theory Run_Sample
  imports Build_Pipeline Option_Properties Working_Dir_Props Path_Fuel
begin

text \<open>
  A run of \<open>kolla-build\<close> evaluated up to its threads, on which the property of the whole build is
  applied: one image on Debian, on an empty working directory.
\<close>

section \<open>The configuration\<close>

definition run_args :: "string \<Rightarrow> string \<Rightarrow> opt_value option" where
  "run_args grp dest =
     (if dest = ''base'' then Some (StrValue ''debian'')
      else if dest = ''work_dir'' then Some (StrValue ''/w'')
      else None)"

definition run_cf :: "(string \<times> cfg_opt list) list \<Rightarrow> cfg_conf" where
  "run_cf gs = \<lparr>cf_groups = (default_group, CLI_OPTS ''x86_64'' ''amd64'' ''21.0'' @ BASE_OPTS) # gs,
     cf_assigned = run_args, cf_defaults = parsed_defaults ''bookworm'' ''2025.2'' ''x86_64'',
     cf_attrs = [(''base_image'', StrValue ''debian'')]\<rparr>"

lemma run_cf_fields:
  "group_opts (run_cf gs) default_group = CLI_OPTS ''x86_64'' ''amd64'' ''21.0'' @ BASE_OPTS"
  "cf_assigned (run_cf gs) = run_args" "cf_defaults (run_cf gs) = parsed_defaults ''bookworm'' ''2025.2'' ''x86_64''"
  "cf_attrs (run_cf gs) = [(''base_image'', StrValue ''debian'')]"
  by (simp_all add: run_cf_def group_opts_def)

lemma run_cf_get: "conf_get (run_cf gs) = conf_get (run_cf [])"
  unfolding fun_eq_iff conf_get_def run_cf_fields by simp

lemma run_small:
  "worker_conf_of (run_cf gs) = worker_conf_of (run_cf [])" 
  "inspects_only (run_cf gs) = inspects_only (run_cf [])"
  "get_bool (run_cf gs) = get_bool (run_cf [])"  "get_str (run_cf gs) = get_str (run_cf [])"
  by (simp_all add: run_cf_get [of gs] worker_conf_of_def inspects_only_def get_bool_def get_str_def get_opt_str_def get_list_def fun_eq_iff)

definition run_conf :: worker_conf where
  "run_conf = worker_conf_of (run_cf [])"

lemma run_gets:
  "conf_get (run_cf []) ''rpm_setup_config'' = Inr (ListValue [])"
  "conf_get (run_cf []) ''work_dir'' = Inr (StrValue ''/w'')"
  "conf_get (run_cf []) ''docker_dir'' = Inr NoValue"
  "conf_get (run_cf []) ''apt_sources_list'' = Inr NoValue"
  "conf_get (run_cf []) ''apt_preferences'' = Inr NoValue"
  "conf_get (run_cf []) ''base'' = Inr (StrValue ''debian'')"
  "conf_get (run_cf []) ''base_package_type'' = Inr NoValue"
  "conf_get (run_cf []) ''distro_package_manager'' = Inr NoValue"
  "conf_get (run_cf []) ''template_override'' = Inr NoValue"
  "conf_get (run_cf []) ''patches_path'' = Inr NoValue"
  "conf_get (run_cf []) ''template_only'' = Inr (BoolValue False)"
  "conf_get (run_cf []) ''save_dependency'' = Inr NoValue"
  "conf_get (run_cf []) ''list_images'' = Inr NoValue"
  "conf_get (run_cf []) ''list_dependencies'' = Inr NoValue"
  "conf_get (run_cf []) ''squash'' = Inr (BoolValue False)"
  "conf_get (run_cf []) ''engine'' = Inr (StrValue ''docker'')"
  "conf_get (run_cf []) ''regex'' = Inr NoValue"
  "conf_get (run_cf []) ''profile'' = Inr NoValue"
  "conf_get (run_cf []) ''skip_existing'' = Inr (BoolValue False)"
  "conf_get (run_cf []) ''skip_parents'' = Inr (BoolValue False)"
  by code_simp+

lemmas get_defs = get_str_def get_opt_str_def get_bool_def get_list_def list_value_def value_true_def

lemma run_conf_fields:
  "wc_rpm_setup_config run_conf = []" "wc_work_dir run_conf = Some ''/w''" "wc_docker_dir run_conf = []"
  "wc_apt_sources_list run_conf = None" "wc_apt_preferences run_conf = None" "wc_base run_conf = ''debian''"
  "wc_base_package_type run_conf = None" "wc_distro_package_manager run_conf = None"
  "wc_template_override run_conf = []" "wc_patches_path run_conf = None"
  by (simp_all add: run_conf_def worker_conf_of_def get_defs run_gets)

lemma run_flags: "\<not> inspects_only (run_cf [])" "\<not> get_bool (run_cf []) ''squash''" "get_str (run_cf []) ''engine'' = ''docker''"
  by (simp_all add: inspects_only_def get_defs run_gets)

lemma run_parsed: "parse ''x86_64'' ''21.0'' (Inr run_args) = Inr (run_cf ((''profiles'', PROFILE_OPTS) # gen_all_source_opts @ all_user_opts))"
proof -
  let ?rc = "registered_conf ''x86_64'' ''amd64'' ''21.0''"
  have arch: "debianarch_of ''x86_64'' = Some ''amd64''" "hostarch_of ''x86_64'' = ''x86_64''"
    by (simp_all add: debianarch_of_def hostarch_of_def)
  note get = conf_get_parsed [where h = "''x86_64''" and d = "''amd64''" and version = "''21.0''" and assigned = run_args
    and ds = "[]" and attrs = "[]"]
  have cf: "?rc\<lparr>cf_assigned := run_args\<rparr> = ?rc\<lparr>cf_assigned := run_args, cf_defaults := [], cf_attrs := []\<rparr>"
    by (simp add: registered_conf_def empty_conf_def)
  have "derive_defaults (?rc\<lparr>cf_assigned := run_args\<rparr>) = Inr ((?rc\<lparr>cf_assigned := run_args\<rparr>)\<lparr>
      cf_defaults := parsed_defaults ''bookworm'' ''2025.2'' ''x86_64'',
      cf_attrs := if value_true NoValue then [] else [(''base_image'', StrValue ''debian'')]\<rparr>)"
    by (rule derive_defaults_run [where base = "''debian''" and release = "''2025.2''" and arch = "''x86_64''" and im = NoValue])
      (use get [OF find_default_opts(1)] get [OF find_default_opts(2)] get [OF find_default_opts(3)]
        get [OF find_default_opts(5)] in
        \<open>simp_all add: cf [symmetric] registered_conf_def empty_conf_def opt_def assigned_or_def run_args_def OPENSTACK_RELEASE_def DEFAULT_BASE_TAGS_def\<close>)
  moreover have "parse ''x86_64'' ''21.0'' (Inr run_args) = derive_defaults (?rc\<lparr>cf_assigned := run_args\<rparr>)"
    by (simp add: parse_def arch options_registered)
  ultimately show ?thesis
    by (simp add: run_cf_def registered_conf_def empty_conf_def value_true_def)
qed

section \<open>The files\<close>

definition run_docker :: "string node" where
  "run_docker = plain_dir [(''base'', plain_dir [(''Dockerfile.j2'', plain_file ''T'')])]"

definition run_tree :: "(string \<times> string node) list \<Rightarrow> string node" where
  "run_tree w = plain_dir [(''k'', plain_dir [(''docker'', run_docker)]), (''w'', plain_dir w)]"

definition run_content :: string where
  "run_content = ''FROM debian:12''"

definition run_copied :: "(string \<times> string node) list \<Rightarrow> string node" where
  "run_copied es = run_tree [(''docker'', plain_dir [(''base'', plain_dir ((''Dockerfile.j2'', plain_file ''T'') # es))])]"

lemmas run_tree_defs = run_copied_def run_tree_def run_docker_def plain_dir_def plain_file_def

lemma run_paths:
  "path_of [''w'', ''docker''] = ''/w/docker''" "path_of [''k'', ''docker''] = ''/k/docker''"
  "path_of [''w'', ''docker'', ''base''] = ''/w/docker/base''" 
  "path_of [''w'', ''docker'', ''base'', ''Dockerfile''] = ''/w/docker/base/Dockerfile''"
  "path_of [''w'', ''docker'', ''base'', ''patches''] = ''/w/docker/base/patches''"
  by (simp_all add: path_of_def)

lemma run_writable: "writable root_host r"
  by (simp add: writable_def root_host_def)

lemma run_images_dir: "find_images_dir root_host (run_tree []) [''/k''] = Inr ''/k/docker''"
  by (simp add: path_join_def py_startswith_def py_endswith_def os_exists_def os_stat_def locate_def slash_def resolve.simps run_tree_defs Let_def)

lemma run_setup: "setup_working_dir 10 root_host run_conf ''/k/docker'' [] (run_tree []) =
    (Inr \<lparr>bd_working_dir = ''/w/docker'', bd_temp_dir = None\<rparr>, run_copied [])"
proof -
  have "copytree 10 root_host (path_of [''k'', ''docker'']) (path_of [''w'', ''docker''])
      (placed (run_tree []) [''w'', ''docker''] None) =
    (Inr (), placed (run_tree []) [''w'', ''docker''] (Some (copied root_host run_docker None)))"
    by (rule copytree_placed)
      (simp_all add: run_tree_defs plain_at_code names_ok_def plain_component_def slash_def dir_at_def is_link_node_def
        apart_def run_writable)
  moreover have "placed (run_tree []) [''w'', ''docker''] None = run_tree []"
    "placed (run_tree []) [''w'', ''docker''] (Some (copied root_host run_docker None)) = run_copied []"
    by (simp_all add: placed_def run_tree_defs root_host_def new_dir_meta_def new_file_meta_def)
  ultimately have "copytree 10 root_host ''/k/docker'' ''/w/docker'' (run_tree []) = (Inr (), run_copied [])"
    by (simp only: run_paths)
  then show ?thesis
    by (simp add: setup_working_dir_def make_working_dir_def copy_apt_files_def copy_if_set_def run_conf_fields
      p_then_def p_bind_def p_return_def path_join_def py_startswith_def py_endswith_def)
qed

section \<open>The Dockerfiles\<close>

lemma run_find: "find_dockerfiles root_host (run_copied es) ''/w/docker'' = [''/w/docker/base'']"
  if "es = [] \<or> es = [(''Dockerfile'', plain_file t), (''patches'', plain_dir [])]"
  using that
  by (elim disjE) (simp_all add: find_dockerfiles_def os_walk_def walk_dirs_def walk_files_def os_isdir_def path_join_def py_startswith_def
      py_endswith_def os_stat_def locate_def slash_def resolve.simps run_tree_defs)

definition run_template :: renderer where
  "run_template = \<lparr>render_template = (\<lambda>p v. Inr run_content), render_override = (\<lambda>r p v. Inr run_content)\<rparr>"

lemma run_create:
  "create_dockerfiles root_host run_template run_conf ''/w/docker'' (dockerfile_values run_conf kv bd us rs) [''/w/docker/base'']
     (run_copied []) = (Inr (), run_copied [(''Dockerfile'', plain_file run_content)])"
proof -
  let ?q = "[''w'', ''docker'', ''base'', ''Dockerfile'']"
  have "write_file (\<lambda>e. e) root_host (path_of ?q) run_content (run_copied []) =
      (Inr (), fs_put ?q (File (new_file_meta root_host) run_content) (run_copied []))"
    by (rule write_file_plain)
      (simp_all add: run_tree_defs plain_at_code plain_component_def slash_def dir_at_def is_link_node_def run_writable)
  moreover have "fs_put ?q (File (new_file_meta root_host) run_content) (run_copied []) =
      run_copied [(''Dockerfile'', plain_file run_content)]"
    by (simp add: run_tree_defs root_host_def new_file_meta_def)
  moreover obtain v where "dockerfile_values run_conf kv bd us rs ''/w/docker/base'' = Inr v"
    by (simp add: dockerfile_values_def base_package_type_def distro_package_manager_def run_conf_fields
        default_package_type_def default_package_manager_def)
  moreover have "path_join ''/w/docker/base'' ''Dockerfile'' = path_of ?q"
    by (simp add: path_join_def py_startswith_def py_endswith_def run_paths)
  ultimately show ?thesis
    by (simp add: create_dockerfiles_def create_dockerfile_def run_conf_fields run_template_def lift_sum_def
        p_bind_def p_then_def p_return_def Let_def)
qed

lemma run_patches:
  "create_patch_files root_host run_conf [''/w/docker/base''] (run_copied [(''Dockerfile'', plain_file run_content)]) =
     (Inr (), run_copied [(''Dockerfile'', plain_file run_content), (''patches'', plain_dir [])])"
proof -
  let ?q = "[''w'', ''docker'', ''base'', ''patches'']"
  let ?t = "run_copied [(''Dockerfile'', plain_file run_content)]"
  have "makedirs (\<lambda>e. e) root_host True (path_of ?q) ?t =
      (Inr (), if dir_at ?t ?q then ?t else fs_put ?q (Dir (new_dir_meta root_host) []) ?t)"
    by (rule makedirs_plain)
      (simp_all add: run_tree_defs plain_at_code plain_component_def slash_def dir_at_def is_link_node_def run_writable)
  moreover have "\<not> dir_at ?t ?q" "fs_put ?q (Dir (new_dir_meta root_host) []) ?t =
      run_copied [(''Dockerfile'', plain_file run_content), (''patches'', plain_dir [])]"
    by (simp_all add: run_tree_defs root_host_def new_dir_meta_def dir_at_def)
  moreover have "path_join ''/w/docker/base'' ''patches'' = path_of ?q"
    by (simp add: path_join_def py_startswith_def py_endswith_def run_paths)
  ultimately show ?thesis
    by (simp add: create_patch_files_def create_patch_file_def run_conf_fields p_bind_def p_then_def p_return_def p_gets_def)
qed

lemma run_time:
  "set_time root_host ''/w/docker'' (run_copied [(''Dockerfile'', plain_file t), (''patches'', plain_dir [])]) =
     (Inr (), run_copied [(''Dockerfile'', plain_file t), (''patches'', plain_dir [])])"
  by (simp add: set_time_def utime_def os_walk_def walk_dirs_def walk_files_def os_isdir_def path_join_def py_startswith_def
      py_endswith_def os_exists_def os_stat_def locate_def slash_def resolve.simps run_tree_defs p_bind_def p_gets_def p_then_def p_return_def)

section \<open>The run\<close>

definition run_world :: run_env where
  "run_world = \<lparr>re_machine = ''x86_64'', re_version = ''21.0'', re_args = Inr run_args, re_file_sections = [],
     re_set_order = (\<lambda>xs. xs), re_expand = (\<lambda>group s. s), re_docker_lib = True, re_podman_lib = False,
     re_squash_version = None,
     re_engine = \<lparr>ee_docker_client = None, ee_podman_client = None, ee_podman_version = None\<rparr>,
     re_host = root_host, re_image_paths = [''/k''], re_temp_name = [], re_renderer = run_template,
     re_kolla_version = ''21.0'', re_build_date = ''20250101'', re_matcher = (\<lambda>p s. True), re_cache = (\<lambda>s. []), re_limit = 10\<rparr>"

definition run_full :: cfg_conf where
  "run_full = run_cf ((''profiles'', PROFILE_OPTS) # gen_all_source_opts @ all_user_opts)"

definition run_dirs :: build_dirs where
  "run_dirs = \<lparr>bd_working_dir = ''/w/docker'', bd_temp_dir = None\<rparr>"

definition run_end :: "string node" where
  "run_end = run_copied [(''Dockerfile'', plain_file run_content), (''patches'', plain_dir [])]"

lemma run_full_reads:
  "worker_conf_of run_full = run_conf" "\<not> inspects_only run_full" "\<not> get_bool run_full ''squash''"
  "get_str run_full ''engine'' = ''docker''"
  using run_small [of "(''profiles'', PROFILE_OPTS) # gen_all_source_opts @ all_user_opts"] run_flags
  by (simp_all add: run_full_def run_conf_def)

lemma run_dockerfile: "dockerfile_at root_host run_end ''/w/docker/base'' = Some run_content"
  by (simp add: dockerfile_at_def path_join_def py_startswith_def py_endswith_def os_stat_def locate_def slash_def
      resolve.simps run_end_def run_tree_defs)

lemma run_parent: "dockerfile_parent run_content = Inr ''debian:12''"
  by (simp add: dockerfile_parent_def from_line_def run_content_def py_startswith_def)

lemma run_image:
  obtains im where "build_image_list (list_env_of run_world run_full run_end) [''/w/docker/base''] = Inr [im]"
    and "parent_name im = ''debian:12''" "hd (canonical_name im) = CHR ''k''" "img_status im = UNPROCESSED" "img_parent im = None"
proof -
  have "conf_get run_full ''registry'' = Inr NoValue" "conf_get run_full ''namespace'' = Inr (StrValue ''kolla'')"
    unfolding run_full_def run_cf_get [of "_ # _"] by code_simp+
  then have "full_namespace (worker_conf_of run_full) = ''kolla''"
    by (simp add: full_namespace_def worker_conf_of_def get_defs)
  then show thesis
    using that run_dockerfile run_parent
    by (simp add: make_image_def list_env_of_def run_world_def Let_def new_image_def)
qed

lemma run_prepared:
  obtains im where "prepare run_world (run_tree []) =
      (Inr \<lparr>pr_cfg = run_full, pr_dirs = \<lparr>bd_working_dir = ''/w/docker'', bd_temp_dir = None\<rparr>,
         pr_client = Some DOCKER, pr_images = [im]\<rparr>, run_end)"
    and "parent_name im = ''debian:12''" "hd (canonical_name im) = CHR ''k''" "img_status im = UNPROCESSED" "img_parent im = None"
proof -
  obtain im where im: "build_image_list (list_env_of run_world run_full run_end) [''/w/docker/base''] = Inr [im]"
      "parent_name im = ''debian:12''" "hd (canonical_name im) = CHR ''k''" "img_status im = UNPROCESSED" "img_parent im = None"
    by (rule run_image)
  have engine: "worker_engine (re_engine run_world) DOCKER b = Inr (Some DOCKER)" for b
    by (simp add: worker_engine_def getEngineClient_def run_world_def)
  have "check_engine run_world run_full = Inr ()" "engine_of (get_str run_full ''engine'') = DOCKER"
    by (simp_all add: check_engine_def engine_of_def run_full_reads run_world_def)
  moreover have "worker_rpm_setup run_conf = Inr []"
    by (simp add: worker_rpm_setup_def run_conf_fields)
  moreover have "parse (re_machine run_world) (re_version run_world) (re_args run_world) = Inr run_full"
    using run_parsed by (simp add: run_world_def run_full_def)
  ultimately have "prepare run_world (run_tree []) =
      (Inr \<lparr>pr_cfg = run_full, pr_dirs = \<lparr>bd_working_dir = ''/w/docker'', bd_temp_dir = None\<rparr>,
         pr_client = Some DOCKER, pr_images = [im]\<rparr>, run_end)"
    using engine im(1) run_images_dir run_setup run_create run_patches run_find [of "[]"]
    by (simp add: prepare_def p_bind_def p_then_def p_gets_def p_return_def lift_sum_def Let_def run_full_reads
        run_world_def run_end_def)
  with im(2-5) that show thesis by blast
qed

lemma run_threads: "0 < conf_threads (builder_conf run_full)" "0 < conf_push_threads (builder_conf run_full)"
proof -
  have "get_nat run_full ''threads'' = 8" "get_nat run_full ''push_threads'' = 1"
    unfolding get_nat_def run_full_def run_cf_get [of "_ # _"] by code_simp+
  then show "0 < conf_threads (builder_conf run_full)" "0 < conf_push_threads (builder_conf run_full)"
    by (simp_all add: builder_conf_def)
qed

lemma run_patterns: "filter_patterns (builder_conf run_full) = Inr []"
proof -
  have "get_list run_full ''regex'' = []" "get_list run_full ''profile'' = []"
    by (simp_all add: run_full_def run_cf_get [of "_ # _"] run_gets get_defs)
  then show ?thesis by (simp add: filter_patterns_def builder_conf_def)
qed

lemma run_starts:
  "\<exists>st. run_build_start run_world (run_tree []) = Some (Inr (ThreadsStart (builder_conf run_full) st run_dirs), run_end) \<and>
     length st = 1 \<and> ranked st (\<lambda>i. i)"
proof -
  obtain im where im: "prepare run_world (run_tree []) =
      (Inr \<lparr>pr_cfg = run_full, pr_dirs = \<lparr>bd_working_dir = ''/w/docker'', bd_temp_dir = None\<rparr>,
         pr_client = Some DOCKER, pr_images = [im]\<rparr>, run_end)"
      "parent_name im = ''debian:12''" "hd (canonical_name im) = CHR ''k''" "img_status im = UNPROCESSED" "img_parent im = None"
    by (rule run_prepared)
  have "canonical_name im \<noteq> parent_name im" using im(2,3) by auto
  then have alone: "find_parents [im] = [im]"
    by (simp add: find_parents_def sort_images_def adopt_def)
  have rk: "ranked [im] (\<lambda>i. i)" using im(5) by (simp add: ranked_def)
  obtain st where st: "filter_images (re_matcher run_world) (re_cache run_world) (builder_conf run_full) [im] = Some (Inr st)"
      "same_shape [im] st"
    using filter_images_meets_spec [OF rk _ run_patterns, of "re_matcher run_world" "re_cache run_world"] im(4) by auto
  have "length st = 1" using same_shape_length [OF st(2)] by simp
  moreover have "ranked st (\<lambda>i. i)"
    using rk same_shape_length [OF st(2)] same_shape_parent [OF st(2)] by (simp add: ranked_def)
  moreover have "set_time root_host ''/w/docker'' run_end = (Inr (), run_end)"
    unfolding run_end_def by (rule run_time)
  ultimately show ?thesis
    using im(1) st(1) alone run_full_reads(2)
    by (simp add: run_build_start_def cache_unavailable_def start_build_def p_then_def p_bind_def p_return_def Let_def
        inspects_only_def) (simp add: run_world_def p_return_def run_dirs_def)
qed

end
