(* ===== verification/Source_Properties.thy ===== *)
theory Source_Properties
  imports Run_Sample Sample_Data
begin

text \<open>
  The table of sources through the whole chain: registered as options, read back as the source of
  an image, and downloaded. What the table says of the origin of each source is what the task
  checks.
\<close>

section \<open>The table\<close>

definition is_sha256 :: "string \<Rightarrow> bool" where
  "is_sha256 s \<longleftrightarrow> length s = 64 \<and> list_all (\<lambda>c. c \<in> set ''0123456789abcdef'') s"

datatype origin = Tarball | Release "(string, string) dict" | Repository string | Unknown_Origin

definition origin_of :: "source_params \<Rightarrow> origin" where
  "origin_of p =
     (if sp_type p = ''git'' then (case sp_reference p of Some r \<Rightarrow> Repository r | None \<Rightarrow> Unknown_Origin)
      else if sp_type p = ''url'' \<and> sp_reference p = None
      then (case sp_sha256 p of
              Some sums \<Rightarrow> Release sums
            | None \<Rightarrow> if py_startswith (sp_location p) ''$tarballs_base/openstack/'' then Tarball else Unknown_Origin)
      else Unknown_Origin)"

definition origin_ok :: "origin \<Rightarrow> bool" where
  "origin_ok w = (case w of
     Tarball \<Rightarrow> True
   | Repository r \<Rightarrow> r \<noteq> []
   | Release sums \<Rightarrow> list_all (\<lambda>a. case map_of sums a of Some sha \<Rightarrow> is_sha256 sha | None \<Rightarrow> False) DEBIAN_ARCH
   | Unknown_Origin \<Rightarrow> False)"

lemma table_origins: "list_all (\<lambda>(name, p). origin_ok (origin_of p) \<and> sp_enabled p = None) SOURCES"
  by code_simp

section \<open>The sections of the sources\<close>

lemma source_group:
  assumes "(name, p) \<in> set SOURCES"
  shows "group_opts ((registered_conf h d version)\<lparr>cf_assigned := a, cf_defaults := ds, cf_attrs := attrs\<rparr>) name = source_opts p"
    and "name \<in> set (dict_keys (cf_groups ((registered_conf h d version)\<lparr>cf_assigned := a, cf_defaults := ds, cf_attrs := attrs\<rparr>)))"
proof -
  have name: "name \<in> fst ` set SOURCES" using assms by force
  have "''DEFAULT'' \<notin> fst ` set SOURCES" "''profiles'' \<notin> fst ` set SOURCES"
    using group_names_distinct by simp_all
  with name have "name \<noteq> default_group" "name \<noteq> ''profiles''"
    unfolding default_group_def by metis+
  moreover have "map_of SOURCES name = Some p" using source_names_distinct assms by simp
  then have "map_of gen_all_source_opts name = Some (source_opts p)"
    by (simp add: gen_all_source_opts_def map_of_map [of source_opts, unfolded map_prod_def])
  ultimately show "group_opts ((registered_conf h d version)\<lparr>cf_assigned := a, cf_defaults := ds, cf_attrs := attrs\<rparr>) name = source_opts p"
    by (simp add: group_opts_def registered_conf_def empty_conf_def)
  show "name \<in> set (dict_keys (cf_groups ((registered_conf h d version)\<lparr>cf_assigned := a, cf_defaults := ds, cf_attrs := attrs\<rparr>)))"
    using name by (force simp: registered_conf_def empty_conf_def gen_all_source_opts_def)
qed

lemma source_section_read:
  assumes "group_opts cf name = source_opts p" "name \<in> set (dict_keys (cf_groups cf))"
    and "\<forall>dest. cf_assigned cf name dest = None" and "sp_enabled p = None"
  shows "read_source_section expand cf name =
    \<lparr>ss_type = Some (sp_type p), ss_location = Some (expand name (sp_location p)),
     ss_reference = map_option (expand name) (sp_reference p), ss_enabled = True,
     ss_sha256 = (case sp_sha256 p of None \<Rightarrow> [] | Some d \<Rightarrow> d)\<rparr>"
  using assms
  by (simp add: read_source_section_def Let_def section_value_def source_opts_def get_source_opts_def find_opt_def
      opt_def opt_dest_def py_replace_char_def value_str_def str_value_def value_true_def split: option.split)

lemma parsed_debian_arch:
  assumes machine: "debianarch_of (hostarch_of machine) = Some d"
    and fit: "values_fit (registered_groups (hostarch_of machine) d version) assigned"
    and cf: "cf = (registered_conf (hostarch_of machine) d version)\<lparr>cf_assigned := assigned,
      cf_defaults := parsed_defaults tag release arch, cf_attrs := attrs\<rparr>"
    and attrs: "dict_get attrs ''debian_arch'' = None"
  shows "conf_debian_arch (builder_conf cf) \<in> set DEBIAN_ARCH"
proof -
  have "derived_arch_of arch \<in> set DEBIAN_ARCH"
    by (simp add: derived_arch_of_def DEBIAN_ARCH_def)
  moreover have "conf_get cf ''debian_arch'' = Inr (assigned_or assigned ''debian_arch'' (StrValue (derived_arch_of arch)))"
    unfolding cf conf_get_parsed [OF find_default_opts(8) attrs] by (simp add: parsed_defaults_def)
  ultimately show ?thesis
    using assigned_string [OF fit find_default_opts(8)]
    by (auto simp: builder_conf_def get_str_def assigned_or_def opt_def DEBIAN_ARCH_def split: option.splits)
qed

text \<open>What the download of an archive with a checksum does.\<close>

lemma fetch_url_checked:
  assumes "src_sha256 s \<noteq> []" and "map_of (src_sha256 s) (conf_debian_arch c) = Some sha"
    and "env_http te (src_source s) = HttpReply 200 content"
  shows "fetch_url c te i s dest =
    (if env_sha256 te content = sha
     then p_then (perform_if (env_writable te dest) dest (WriteFile dest content)) (p_return True)
     else p_then (write_status i ERROR) (p_return False))"
  using assms by (simp add: fetch_url_def Let_def)

text \<open>
  C4: Every source of the table that the user does not override comes from where the table says,
  whatever the command line: a git source is cloned at a reference, an archive of OpenStack comes from
  the tarballs' server, and every other download has a SHA-256 checksum of 64 digits for the
  architecture that is built: an archive with another checksum is not stored and the image fails.
\<close>

theorem table_sources_checked:
  assumes machine: "debianarch_of (hostarch_of machine) = Some d"
    and fit: "values_fit (registered_groups (hostarch_of machine) d version) assigned"
    and parse: "parse machine version (Inr assigned) = Inr cf"
    and p: "(name, p) \<in> set SOURCES" "\<forall>dest. assigned name dest = None"
  shows "\<exists>s. process_source_installation (list_env_of env cf root) name = Some s \<and> src_enabled s \<and>
    src_source s = Some (re_expand env name (sp_location p)) \<and>
    (case origin_of p of
       Tarball \<Rightarrow> src_type s = ''url'' \<and> py_startswith (sp_location p) ''$tarballs_base/openstack/''
     | Repository r \<Rightarrow> src_type s = ''git'' \<and> src_reference s = Some (re_expand env name r) \<and> r \<noteq> []
     | Release sums \<Rightarrow> src_type s = ''url'' \<and>
         (\<exists>sha. map_of sums (conf_debian_arch (builder_conf cf)) = Some sha \<and> is_sha256 sha \<and>
            (\<forall>te i dest content. env_http te (src_source s) = HttpReply 200 content \<longrightarrow>
               fetch_url (builder_conf cf) te i s dest =
                 (if env_sha256 te content = sha
                  then p_then (perform_if (env_writable te dest) dest (WriteFile dest content)) (p_return True)
                  else p_then (write_status i ERROR) (p_return False))))
     | Unknown_Origin \<Rightarrow> False)"
proof -
  obtain base arch release title tag where "parse machine version (Inr assigned) =
      Inr ((registered_conf (hostarch_of machine) d version)\<lparr>
        cf_assigned := assigned, cf_defaults := parsed_defaults tag release arch,
        cf_attrs := if value_true (assigned_or assigned ''base_image'' NoValue) then [] else [(''base_image'', StrValue title)]\<rparr>)"
    using machine fit by (rule parse_run)
  then have cf: "cf = (registered_conf (hostarch_of machine) d version)\<lparr>cf_assigned := assigned,
      cf_defaults := parsed_defaults tag release arch,
      cf_attrs := if value_true (assigned_or assigned ''base_image'' NoValue) then [] else [(''base_image'', StrValue title)]\<rparr>"
    using parse by simp
  have table: "origin_ok (origin_of p)" "sp_enabled p = None"
    using table_origins p(1) by (auto simp: list_all_iff)
  have arch: "conf_debian_arch (builder_conf cf) \<in> set DEBIAN_ARCH"
    using machine fit cf by (rule parsed_debian_arch) simp
  have "read_source_section (re_expand env) cf name =
      \<lparr>ss_type = Some (sp_type p), ss_location = Some (re_expand env name (sp_location p)),
       ss_reference = map_option (re_expand env name) (sp_reference p), ss_enabled = True,
       ss_sha256 = (case sp_sha256 p of None \<Rightarrow> [] | Some d \<Rightarrow> d)\<rparr>"
    unfolding cf using p by (intro source_section_read source_group table(2)) simp_all
  then obtain s where s: "process_source_installation (list_env_of env cf root) name = Some s" "src_enabled s"
    "src_source s = Some (re_expand env name (sp_location p))" "src_type s = sp_type p"
    "src_reference s = (if sp_type p = ''git'' then map_option (re_expand env name) (sp_reference p) else None)"
    "src_sha256 s = (case sp_sha256 p of None \<Rightarrow> [] | Some d \<Rightarrow> d)"
    by (simp add: process_source_installation_def list_env_of_def Let_def)
  show ?thesis
  proof (cases "origin_of p")
    case (Release sums)
    then have url: "sp_type p = ''url''" "sp_sha256 p = Some sums"
      by (auto simp: origin_of_def split: if_splits option.splits)
    obtain sha where sha: "map_of sums (conf_debian_arch (builder_conf cf)) = Some sha" "is_sha256 sha"
      using table(1) arch by (auto simp: Release origin_ok_def list_all_iff split: option.splits)
    then have "src_sha256 s \<noteq> []" "map_of (src_sha256 s) (conf_debian_arch (builder_conf cf)) = Some sha"
      using s(6) url by auto
    with fetch_url_checked s(1-4) url sha show ?thesis by (simp add: Release)
  qed (use s table(1) in \<open>auto simp: origin_of_def origin_ok_def split: if_splits option.splits\<close>)
qed

definition no_args :: "string \<Rightarrow> string \<Rightarrow> opt_value option" where
  "no_args grp dest = None"

definition etcd_params :: source_params where
  "etcd_params = versioned_source ''3.6.4''
     ''4d5f3101daa534e45ccaf3eec8d21c19b7222db377bcfd5e5a9144155238c105''
     ''323421fa279f4f3d7da4c7f2dfa17d9e49529cb2b4cdf40899a7416bccdde42d''
     ''https://github.com/etcd-io/etcd/releases/download/v${version}/etcd-v${version}-linux-${debian_arch}.tar.gz''"

theorem table_sources_checked_witness:
  "\<exists>cf s. parse ''aarch64'' ''21.0'' (Inr no_args) = Inr cf \<and>
     process_source_installation (list_env_of run_world cf run_end) ''etcd'' = Some s \<and>
     fetch_url (builder_conf cf) sample_env 0 s ''/w/etcd.tar.gz'' = p_then (write_status 0 ERROR) (p_return False)"
proof -
  have machine: "debianarch_of (hostarch_of ''aarch64'') = Some ''arm64''"
    by (simp add: debianarch_of_def hostarch_of_def)
  have fit: "values_fit (registered_groups (hostarch_of ''aarch64'') ''arm64'' ''21.0'') no_args"
    by (simp add: values_fit_def no_args_def list_all_iff case_prod_beta)
  obtain cf where cf: "parse ''aarch64'' ''21.0'' (Inr no_args) = Inr cf"
    using machine fit by (rule parse_run)
  have etcd: "(''etcd'', etcd_params) \<in> set SOURCES"
    by (simp add: SOURCES_def sources_1_def etcd_params_def)
  have origin: "origin_of etcd_params = Release
      [(''amd64'', ''4d5f3101daa534e45ccaf3eec8d21c19b7222db377bcfd5e5a9144155238c105''),
       (''arm64'', ''323421fa279f4f3d7da4c7f2dfa17d9e49529cb2b4cdf40899a7416bccdde42d'')]"
    by (simp add: origin_of_def etcd_params_def versioned_source_def)
  have "\<not> is_sha256 ''d''"
    by (simp add: is_sha256_def)
  moreover have "env_http sample_env u = HttpReply 200 ''data''" "env_sha256 sample_env ''data'' = ''d''" for u
    by (simp_all add: sample_env_def)
  ultimately show ?thesis
    using table_sources_checked [OF machine fit cf etcd, of run_world run_end] cf
    by (auto simp: origin no_args_def)
qed

end
