(* ===== verification/Version_Check.thy ===== *)
theory Version_Check
  imports Source_Table Py_Path "HOL-Library.List_Lexorder" "HOL-Library.Char_ord"
begin

text \<open>
  \<open>tools/version-check.py\<close>: compares the versions in the names of the source archives with those of
  the repository of releases and rewrites them in \<open>kolla/common/config.py\<close>. What git fetches and
  YAML reads are the parsed deliverables of a release, a parameter; the actions of a run on the
  outside world are a trace.
\<close>

section \<open>Tables\<close>

definition SKIP_PROJECTS :: "string list" where
  "SKIP_PROJECTS = [''gnocchi-base'', ''monasca-thresh'']"

definition ALWAYS_USE_VERSION_PROJECTS :: "string list" where
  "ALWAYS_USE_VERSION_PROJECTS = []"

definition RENAME_PROJECTS :: "(string, string) dict" where
  "RENAME_PROJECTS =
     [(''kuryr-lib'', ''kuryr''), (''openstack-cyborg'', ''cyborg''), (''openstack-heat'', ''heat''),
      (''openstack-placement'', ''placement''), (''python-watcher'', ''watcher''),
      (''requirements-stable'', ''requirements'')]"

section \<open>The regular expression of file names\<close>

text \<open>
  \<open>RE\_FILENAME\<close> is \<open>(.*)-([^-]*).tar.gz\<close>, matched at the start of a name: the groups take as much as
  they can, and a dot stands for any character but a line end.
\<close>

definition not_newline :: "char \<Rightarrow> bool" where
  "not_newline c \<longleftrightarrow> c \<noteq> CHR 0x0A"

definition archive_end :: "string \<Rightarrow> bool" where
  "archive_end s \<longleftrightarrow> 7 \<le> length s \<and> not_newline (s ! 0) \<and> take 3 (drop 1 s) = ''tar'' \<and>
     not_newline (s ! 4) \<and> take 2 (drop 5 s) = ''gz''"

fun match_tag :: "string \<Rightarrow> string option" where
  "match_tag [] = None"
| "match_tag (c # cs) =
     (case (if c \<noteq> CHR ''-'' then match_tag cs else None) of
        Some t \<Rightarrow> Some (c # t)
      | None \<Rightarrow> if archive_end (c # cs) then Some [] else None)"

fun match_filename :: "string \<Rightarrow> (string \<times> string) option" where
  "match_filename [] = None"
| "match_filename (c # cs) =
     (case (if not_newline c then match_filename cs else None) of
        Some (p, t) \<Rightarrow> Some (c # p, t)
      | None \<Rightarrow> if c = CHR ''-'' then map_option (\<lambda>t. ([], t)) (match_tag cs) else None)"

section \<open>Releases\<close>

record project_info =
  pj_repo :: string
  pj_tarball_base :: "string option"

record release_info =
  rl_version :: string
  rl_projects :: "project_info list"

text \<open>
  A deliverable without the key \<open>releases\<close> has the empty list of them; in its
  \<open>repository-settings\<close>, a repository has a \<open>tarball-base\<close> or not.
\<close>

record deliverable =
  dl_releases :: "release_info list"
  dl_settings :: "(string, string option) dict option"

type_synonym projects = "(string, string \<times> string) dict"

definition latest_release :: "release_info list \<Rightarrow> release_info" where
  "latest_release rs =
     (if py_endswith (rl_version (last rs)) ''-em'' \<and> 1 < length rs then last (butlast rs) else last rs)"

text \<open>The variable \<open>tarball\_base\<close> keeps its value from one project to the next.\<close>

definition project_tarball_base :: "deliverable \<Rightarrow> project_info \<Rightarrow> string \<Rightarrow> string option \<Rightarrow> string option" where
  "project_tarball_base info project name current =
     (case pj_tarball_base project of
        Some b \<Rightarrow> Some b
      | None \<Rightarrow>
          (case dl_settings info of
             None \<Rightarrow> current
           | Some settings \<Rightarrow>
               (case dict_get settings (pj_repo project) of Some (Some b) \<Rightarrow> Some b | _ \<Rightarrow> Some name)))"

definition project_name_of :: "project_info \<Rightarrow> string" where
  "project_name_of project = last (py_split slash (pj_repo project))"

fun load_projects ::
    "deliverable \<Rightarrow> string \<Rightarrow> project_info list \<Rightarrow> string option \<times> projects \<Rightarrow>
     py_exn + string option \<times> projects" where
  "load_projects info version [] st = Inr st"
| "load_projects info version (project # ps) (current, projects) =
     (case project_tarball_base info project (project_name_of project) current of
        None \<Rightarrow> Inl (UnboundLocalError ''tarball_base'')
      | Some b \<Rightarrow> load_projects info version ps
          (Some b, dict_set b (version, b) (dict_set (project_name_of project) (version, b) projects)))"

fun load_deliverables ::
    "(string \<times> deliverable) list \<Rightarrow> string option \<times> projects \<Rightarrow> py_exn + string option \<times> projects" where
  "load_deliverables [] st = Inr st"
| "load_deliverables ((name, info) # ds) st =
     (if \<not> py_endswith name ''.yaml'' \<or> dl_releases info = [] then load_deliverables ds st
      else let latest = latest_release (dl_releases info)
           in case load_projects info (rl_version latest) (rl_projects latest) st of
                Inl e \<Rightarrow> Inl e
              | Inr st' \<Rightarrow> load_deliverables ds st')"

text \<open>The deliverables of a release, in the order of the directory, if the directory exists.\<close>

definition load_all_info :: "(string \<Rightarrow> (string \<times> deliverable) list option) \<Rightarrow> string \<Rightarrow> py_exn + projects" where
  "load_all_info releases release =
     (case releases release of
        None \<Rightarrow> Inl (ValueError (''Can not find openstack release: \"'' @ release @ ''\"''))
      | Some ds \<Rightarrow> (case load_deliverables ds (None, []) of Inl e \<Rightarrow> Inl e | Inr st \<Rightarrow> Inr (snd st)))"

section \<open>The run\<close>

record vc_args =
  vc_release :: "string option"
  vc_include_independent :: bool
  vc_check :: bool
  vc_versioned :: bool

record vc_env =
  ve_gitreview :: "string list option"
  ve_target_exists :: bool
  ve_releases :: "string \<Rightarrow> (string \<times> deliverable) list option"
  ve_config_py :: "string option"

datatype vc_effect = RunCommand "string list" | WriteConfig string

definition default_branch_prefix :: string where
  "default_branch_prefix = ''defaultbranch=stable/''"

definition get_default_branch :: "vc_env \<Rightarrow> string option" where
  "get_default_branch env =
     (case ve_gitreview env of
        None \<Rightarrow> None
      | Some ls \<Rightarrow> map_option (drop (length default_branch_prefix))
          (find (\<lambda>l. py_startswith l default_branch_prefix) ls))"

definition update_releases_repo :: "vc_env \<Rightarrow> string list" where
  "update_releases_repo env =
     (if \<not> ve_target_exists env
      then [''git'', ''clone'', ''https://github.com/openstack/releases'', ''.releases'']
      else [''git'', ''--git-dir'', ''.releases/.git'', ''--work-tree'', ''.releases'', ''pull''])"

text \<open>\<open>s.replace(old, new)\<close> for a string that is not empty.\<close>

function py_replace :: "string \<Rightarrow> string \<Rightarrow> string \<Rightarrow> string" where
  "py_replace old new [] = []"
| "py_replace old new (c # cs) =
     (if old \<noteq> [] \<and> py_startswith (c # cs) old then new @ py_replace old new (drop (length old) (c # cs))
      else c # py_replace old new cs)"
  by pat_completeness auto
termination
  by (relation "measure (\<lambda>(old, new, s). length s)") auto

datatype tag_choice = Chosen "string option" string bool | NotFound

text \<open>The tag and the name of the archive that a project should have, and whether it is independent.\<close>

definition choose_tag :: "vc_args \<Rightarrow> string \<Rightarrow> projects \<Rightarrow> projects \<Rightarrow> string \<Rightarrow> tag_choice" where
  "choose_tag args release projects independents project_name =
     (if project_name = ''requirements'' \<or>
         (\<not> vc_versioned args \<and> project_name \<notin> set ALWAYS_USE_VERSION_PROJECTS)
      then Chosen (Some (''stable-'' @ release))
             (case dict_get RENAME_PROJECTS project_name of Some b \<Rightarrow> b | None \<Rightarrow> project_name) False
      else case dict_get projects project_name of
             Some (v, b) \<Rightarrow> Chosen (Some v) b False
           | None \<Rightarrow>
               (case dict_get independents project_name of
                  Some (v, b) \<Rightarrow> Chosen (Some v) b True
                | None \<Rightarrow> NotFound))"

definition check_project ::
    "vc_args \<Rightarrow> string \<Rightarrow> projects \<Rightarrow> projects \<Rightarrow> string \<Rightarrow> source_params \<Rightarrow> string \<Rightarrow> py_exn + string" where
  "check_project args release projects independents key value config_py =
     (if key \<in> set SKIP_PROJECTS then Inr config_py
      else let filename = path_basename (sp_location value)
           in case match_filename filename of
                None \<Rightarrow> Inl (ValueError (''Can not parse \"'' @ filename @ ''\"''))
              | Some (project_name, old_tag) \<Rightarrow>
                  (case choose_tag args release projects independents project_name of
                     NotFound \<Rightarrow> Inr config_py
                   | Chosen tag tarball_base independent \<Rightarrow>
                       (case tag of
                          None \<Rightarrow> Inr config_py
                        | Some latest_tag \<Rightarrow>
                            if latest_tag = [] \<or> old_tag = latest_tag then Inr config_py
                            else if independent \<and> \<not> vc_include_independent args then Inr config_py
                            else Inr (py_replace ([CHR 0x27] @ project_name @ ''-'' @ old_tag)
                              ([CHR 0x27] @ tarball_base @ ''-'' @ latest_tag) config_py))))"

fun check_sources ::
    "vc_args \<Rightarrow> string \<Rightarrow> projects \<Rightarrow> projects \<Rightarrow> string list \<Rightarrow> string \<Rightarrow> py_exn + string" where
  "check_sources args release projects independents [] config_py = Inr config_py"
| "check_sources args release projects independents (key # keys) config_py =
     (case check_project args release projects independents key (the (dict_get SOURCES key)) config_py of
        Inl e \<Rightarrow> Inl e
      | Inr config_py' \<Rightarrow> check_sources args release projects independents keys config_py')"

definition vc_perform :: "vc_effect \<Rightarrow> (py_exn, vc_effect list, unit) prog" where
  "vc_perform e = p_modify (\<lambda>trace. trace @ [e])"

definition vc_lift :: "py_exn + 'a \<Rightarrow> (py_exn, vc_effect list, 'a) prog" where
  "vc_lift m = (case m of Inl e \<Rightarrow> p_raise e | Inr x \<Rightarrow> p_return x)"

definition vc_main :: "vc_env \<Rightarrow> vc_args \<Rightarrow> (py_exn, vc_effect list, unit) prog" where
  "vc_main env args =
     (case (case vc_release args of Some r \<Rightarrow> Some r | None \<Rightarrow> get_default_branch env) of
        None \<Rightarrow> p_raise (ValueError ''Can not detect openstack release. Please assign it through \"--openstack-release\" parameter'')
      | Some release \<Rightarrow>
          if release = []
          then p_raise (ValueError ''Can not detect openstack release. Please assign it through \"--openstack-release\" parameter'')
          else
            p_then (vc_perform (RunCommand (update_releases_repo env)))
            (p_bind (vc_lift (load_all_info (ve_releases env) release)) (\<lambda>projects.
             p_bind (vc_lift (load_all_info (ve_releases env) ''_independent'')) (\<lambda>independents.
             p_bind (case ve_config_py env of None \<Rightarrow> p_raise (OSError ''kolla/common/config.py'') | Some t \<Rightarrow> p_return t)
               (\<lambda>config_py.
             p_bind (vc_lift (check_sources args release projects independents (sort (map fst SOURCES)) config_py))
               (\<lambda>config_py'.
             if \<not> vc_check args then vc_perform (WriteConfig config_py') else p_return ()))))))"

end
