(* ===== verification/Version_Properties.thy ===== *)
theory Version_Properties
  imports Version_Check
begin

text \<open>
  The properties of \<open>version-check.py\<close>: its regular expression takes a file name apart as it was
  put together, but not every location in the table of sources has such a file name.
\<close>

section \<open>File names\<close>

definition archive_suffix :: string where
  "archive_suffix = ''.tar.gz''"

lemma match_tag_archive:
  "CHR ''-'' \<notin> set t \<Longrightarrow> match_tag (t @ archive_suffix) = Some t"
proof (induction t)
  case Nil
  show ?case by (simp add: archive_suffix_def archive_end_def not_newline_def)
qed (auto simp: archive_suffix_def)

lemma match_tag_dash: "match_tag s = Some t \<Longrightarrow> CHR ''-'' \<notin> set t"
  by (induction s arbitrary: t) (auto split: option.splits if_splits)

lemma no_dash_no_match: "CHR ''-'' \<notin> set s \<Longrightarrow> match_filename s = None"
  by (induction s) (auto split: option.splits)

text \<open>
  C36: The file name of an archive, \<open>project-tag.tar.gz\<close>, is taken apart into the project and the tag,
  for every project (dashes included) and every tag without a dash.
\<close>

theorem filename_round_trip:
  assumes "CHR ''-'' \<notin> set tag" and "list_all not_newline project"
  shows "match_filename (project @ ''-'' @ tag @ archive_suffix) = Some (project, tag)"
  using assms(2)
proof (induction project)
  case Nil
  have "match_filename (tag @ archive_suffix) = None"
    using assms(1) by (intro no_dash_no_match) (simp add: archive_suffix_def)
  with match_tag_archive [OF assms(1)] show ?case
    by (simp add: not_newline_def)
qed simp

theorem filename_round_trip_witness:
  "match_filename ''neutron-vpnaas-stable2025.tar.gz'' = Some (''neutron-vpnaas'', ''stable2025'')"
  using filename_round_trip [of "''stable2025''" "''neutron-vpnaas''"]
  by (simp add: archive_suffix_def not_newline_def)

section \<open>The run\<close>

lemma check_sources_unparsable:
  assumes "key \<in> set keys" and "key \<notin> set SKIP_PROJECTS"
    and "match_filename (path_basename (sp_location (the (dict_get SOURCES key)))) = None"
  shows "\<exists>f. check_sources args release projects independents keys config_py =
    Inl (ValueError (''Can not parse \"'' @ f @ ''\"''))"
  using assms(1)
proof (induction keys arbitrary: config_py)
  case (Cons k keys)
  have "(\<exists>f. check_project args release projects independents k (the (dict_get SOURCES k)) config_py =
      Inl (ValueError (''Can not parse \"'' @ f @ ''\"''))) \<or>
    (\<exists>t. check_project args release projects independents k (the (dict_get SOURCES k)) config_py = Inr t)"
    by (auto simp: check_project_def Let_def split: option.splits tag_choice.splits)
  moreover have "check_project args release projects independents key (the (dict_get SOURCES key)) config_py =
      Inl (ValueError (''Can not parse \"'' @ path_basename (sp_location (the (dict_get SOURCES key))) @ ''\"''))"
    using assms(2,3) by (simp add: check_project_def)
  ultimately show ?case using Cons by (cases "k = key") auto
qed simp

lemma lego_unparsable:
  "''letsencrypt-lego'' \<in> set (sort (map fst SOURCES))"
  "''letsencrypt-lego'' \<notin> set SKIP_PROJECTS"
  "match_filename (path_basename (sp_location (the (dict_get SOURCES ''letsencrypt-lego'')))) = None"
proof -
  have "''letsencrypt-lego'' \<in> set (map fst SOURCES)" by code_simp
  then show "''letsencrypt-lego'' \<in> set (sort (map fst SOURCES))" by (simp only: set_sort)
  show "''letsencrypt-lego'' \<notin> set SKIP_PROJECTS" by code_simp
  show "match_filename (path_basename (sp_location (the (dict_get SOURCES ''letsencrypt-lego'')))) = None"
    by code_simp
qed

lemma check_always_fails:
  obtains f where "check_sources args release projects independents (sort (map fst SOURCES)) config_py =
    Inl (ValueError (''Can not parse \"'' @ f @ ''\"''))"
  using check_sources_unparsable [OF lego_unparsable] by blast

lemmas vc_run_defs =
  vc_perform_def vc_lift_def p_then_def p_bind_def p_modify_def p_raise_def p_return_def

lemma vc_main_run:
  assumes "(case vc_release args of Some r \<Rightarrow> Some r | None \<Rightarrow> get_default_branch env) = Some release"
    and "release \<noteq> []"
  shows "\<exists>e. vc_main env args trace = (Inl e, trace @ [RunCommand (update_releases_repo env)]) \<and>
    (\<forall>projects independents config_py. load_all_info (ve_releases env) release = Inr projects \<and>
        load_all_info (ve_releases env) ''_independent'' = Inr independents \<and> ve_config_py env = Some config_py \<longrightarrow>
          (\<exists>f. e = ValueError (''Can not parse \"'' @ f @ ''\"'')))"
proof (cases "load_all_info (ve_releases env) release")
  case (Inr projects)
  show ?thesis
  proof (cases "load_all_info (ve_releases env) ''_independent''")
    case (Inr independents)
    show ?thesis
    proof (cases "ve_config_py env")
      case (Some config_py)
      obtain f where "check_sources args release projects independents (sort (map fst SOURCES)) config_py =
          Inl (ValueError (''Can not parse \"'' @ f @ ''\"''))"
        by (rule check_always_fails)
      then show ?thesis
        using assms Inr \<open>load_all_info (ve_releases env) release = Inr projects\<close> Some
        by (simp add: vc_main_def vc_run_defs)
    qed (use assms Inr \<open>load_all_info (ve_releases env) release = Inr projects\<close> in
        \<open>simp add: vc_main_def vc_run_defs\<close>)
  qed (use assms Inr in \<open>simp add: vc_main_def vc_run_defs\<close>)
qed (use assms in \<open>simp add: vc_main_def vc_run_defs\<close>)

text \<open>
  C37: With the table of sources as it is, \<open>version-check.py\<close> never gets to its end: whatever the
  arguments and the releases, it raises, and when all its inputs can be read it raises the ValueError of
  a file name that it cannot parse. It never writes \<open>config.py\<close>.
\<close>

theorem version_check_always_fails:
  "\<exists>e acts. vc_main env args trace = (Inl e, trace @ acts) \<and> (\<forall>t. WriteConfig t \<notin> set acts) \<and>
     (\<forall>release projects independents config_py. vc_release args = Some release \<and> release \<noteq> [] \<and>
        load_all_info (ve_releases env) release = Inr projects \<and>
        load_all_info (ve_releases env) ''_independent'' = Inr independents \<and> ve_config_py env = Some config_py \<longrightarrow>
          (\<exists>f. e = ValueError (''Can not parse \"'' @ f @ ''\"'')))"
proof (cases "case vc_release args of Some r \<Rightarrow> Some r | None \<Rightarrow> get_default_branch env")
  case None
  then show ?thesis by (auto simp: vc_main_def p_raise_def split: option.splits)
next
  case (Some release)
  show ?thesis
  proof (cases "release = []")
    case True
    with Some show ?thesis by (auto simp: vc_main_def p_raise_def split: option.splits)
  next
    case False
    show ?thesis using vc_main_run [OF Some False, of trace] Some by fastforce
  qed
qed

definition readable_env :: vc_env where
  "readable_env = \<lparr>ve_gitreview = Some [''[gerrit]'', ''defaultbranch=stable/2025.2''], ve_target_exists = False,
     ve_releases = (\<lambda>r. Some []), ve_config_py = Some ''SOURCES = {}''\<rparr>"

definition release_args :: vc_args where
  "release_args = \<lparr>vc_release = Some ''2025.2'', vc_include_independent = False, vc_check = False, vc_versioned = False\<rparr>"

theorem version_check_always_fails_witness:
  "\<exists>f acts. vc_main readable_env release_args [] = (Inl (ValueError (''Can not parse \"'' @ f @ ''\"'')), acts) \<and>
     (\<forall>t. WriteConfig t \<notin> set acts)"
proof -
  have "vc_release release_args = Some ''2025.2''" "ve_config_py readable_env = Some ''SOURCES = {}''"
    "load_all_info (ve_releases readable_env) r = Inr []" for r
    by (simp_all add: release_args_def readable_env_def load_all_info_def)
  note facts = this
  obtain e acts where all: "vc_main readable_env release_args [] = (Inl e, [] @ acts)"
      "\<forall>t. WriteConfig t \<notin> set acts"
      "\<forall>release projects independents config_py. vc_release release_args = Some release \<and> release \<noteq> [] \<and>
        load_all_info (ve_releases readable_env) release = Inr projects \<and>
        load_all_info (ve_releases readable_env) ''_independent'' = Inr independents \<and>
        ve_config_py readable_env = Some config_py \<longrightarrow> (\<exists>f. e = ValueError (''Can not parse \"'' @ f @ ''\"''))"
    using version_check_always_fails [of readable_env release_args "[]"] by (elim exE conjE) (rule that)
  obtain f where "e = ValueError (''Can not parse \"'' @ f @ ''\"'')"
    using all(3) [THEN spec, THEN spec, THEN spec, THEN spec, THEN mp,
        OF conjI [OF facts(1) conjI [OF _ conjI [OF facts(3) conjI [OF facts(3) facts(2)]]]]] by auto
  with all(1,2) show ?thesis by (simp only: append_Nil) auto
qed

section \<open>Releases\<close>

text \<open>
  A project without a name for its tarball, in a deliverable without settings, gets the name that
  the project before it had, of whatever deliverable that was; and the version of that name is
  replaced by its own.
\<close>

theorem stale_tarball_base:
  "\<exists>projects. load_all_info (\<lambda>r. Some
      [(''a.yaml'', \<lparr>dl_releases = [\<lparr>rl_version = v1, rl_projects = [\<lparr>pj_repo = ''openstack/a'', pj_tarball_base = Some b\<rparr>]\<rparr>],
          dl_settings = None\<rparr>),
       (''z.yaml'', \<lparr>dl_releases = [\<lparr>rl_version = v2, rl_projects = [\<lparr>pj_repo = ''openstack/z'', pj_tarball_base = None\<rparr>]\<rparr>],
          dl_settings = None\<rparr>)]) release = Inr projects \<and>
    dict_get projects ''z'' = Some (v2, b) \<and> dict_get projects b = Some (v2, b)"
  by (simp add: load_all_info_def py_endswith_def py_startswith_def latest_release_def project_tarball_base_def
    project_name_of_def slash_def)

end
