(* ===== verification/Hacking_Checks.thy ===== *)
theory Hacking_Checks
  imports Py_Regex Worker_Setup
begin

text \<open>
  The checks of \<open>kolla/hacking/checks.py\<close> on the logical lines of the sources: the patterns as regular
  expressions, the files that are known to import \<open>_\<close> as the state, and the messages as results.
\<close>

section \<open>Matching at the start of a line\<close>

text \<open>\<open>pattern.match(line)\<close>: some start of the line is in the language of the pattern.\<close>

fun rx_match :: "rx \<Rightarrow> string \<Rightarrow> bool" where
  "rx_match r [] = nullable r"
| "rx_match r (c # cs) = (nullable r \<or> rx_match (deriv c r) cs)"

definition rx_dot :: rx where
  "rx_dot = RClass (\<lambda>c. c \<noteq> CHR 0x0A)"

definition rx_dots :: rx where
  "rx_dots = RStar rx_dot"

definition rx_spaces :: rx where
  "rx_spaces = RStar (RClass is_space)"

definition rx_quote :: rx where
  "rx_quote = RClass (\<lambda>c. c = CHR 0x27 \<or> c = CHR 0x22)"

fun rx_any :: "rx list \<Rightarrow> rx" where
  "rx_any [] = RNone"
| "rx_any (r # rs) = RAlt r (rx_any rs)"

fun rx_seq :: "rx list \<Rightarrow> rx" where
  "rx_seq [] = REps"
| "rx_seq (r # rs) = RSeq r (rx_seq rs)"

section \<open>The patterns\<close>

definition mutable_default_args :: rx where
  "mutable_default_args =
     rx_seq [rx_spaces, rx_str ''def '', rx_dot, rx_dots, rx_str ''('',
       rx_any [rx_seq [rx_dot, rx_dots, rx_str ''={}''], rx_seq [rx_dot, rx_dots, rx_str ''=[]'']]]"

definition string_translation :: rx where
  "string_translation =
     rx_seq [RStar (RClass (\<lambda>c. c \<noteq> CHR ''_'')), rx_str ''_('', rx_spaces, rx_quote]"

definition log_levels :: "string list" where
  "log_levels = [''audit'', ''error'', ''info'', ''warn'', ''warning'', ''critical'', ''exception'']"

definition translated_log :: rx where
  "translated_log =
     rx_seq [rx_dots, rx_str ''LOG.'', rx_any (map rx_str log_levels), rx_str ''('', rx_spaces,
       rx_str ''_('', rx_spaces, rx_quote]"

definition underscore_import_check :: rx where
  "underscore_import_check = rx_seq [rx_dots, rx_str ''import _'', rx_dots]"

definition custom_underscore_check :: rx where
  "custom_underscore_check = rx_seq [rx_dots, rx_str ''_'', rx_spaces, rx_str ''='', rx_spaces, rx_dots]"

section \<open>The checks\<close>

text \<open>The state is \<open>UNDERSCORE\_IMPORT\_FILES\<close>; the result the messages that are yielded.\<close>

definition D703 :: string where
  "D703 = ''D703: Found use of _() without explicit import of _!''"

definition K302 :: string where
  "K302 = ''K302: LOG.warn is deprecated, please use LOG.warning!''"

definition K301 :: string where
  "K301 = ''K301: Method's default argument shouldn't be mutable!''"

definition declares_underscore :: "string \<Rightarrow> bool" where
  "declares_underscore line \<longleftrightarrow> rx_match underscore_import_check line \<or> rx_match custom_underscore_check line"

definition uses_underscore :: "string \<Rightarrow> bool" where
  "uses_underscore line \<longleftrightarrow> rx_match translated_log line \<or> rx_match string_translation line"

definition check_explicit_underscore_import :: "string \<Rightarrow> string \<Rightarrow> string list \<Rightarrow> (nat \<times> string) list \<times> string list" where
  "check_explicit_underscore_import logical_line filename files =
     (if filename \<in> set files then ([], files)
      else if declares_underscore logical_line then ([], files @ [filename])
      else if uses_underscore logical_line then ([(0, D703)], files)
      else ([], files))"

definition no_log_warn :: "string \<Rightarrow> (nat \<times> string) list" where
  "no_log_warn logical_line = (if contains ''LOG.warn('' logical_line then [(0, K302)] else [])"

definition no_mutable_default_args :: "string \<Rightarrow> (nat \<times> string) list" where
  "no_mutable_default_args logical_line = (if rx_match mutable_default_args logical_line then [(0, K301)] else [])"

text \<open>The lines of the files as flake8 passes them, with the names of their files.\<close>

fun check_lines :: "(string \<times> string) list \<Rightarrow> string list \<Rightarrow> (nat \<times> string) list list \<times> string list" where
  "check_lines [] files = ([], files)"
| "check_lines ((filename, line) # ls) files =
     (let (messages, files1) = check_explicit_underscore_import line filename files;
          (rest, files2) = check_lines ls files1
      in (messages # rest, files2))"

end
