(* ===== verification/Hacking_Properties.thy ===== *)
theory Hacking_Properties
  imports Hacking_Checks
begin

text \<open>
  What the patterns of the hacking checks match, and which lines of a run over files are reported.
\<close>

section \<open>The languages of the patterns\<close>

lemma rx_match_iff: "rx_match r s \<longleftrightarrow> (\<exists>u v. s = u @ v \<and> rx_in r u)"
proof (induction s arbitrary: r)
  case (Cons c cs)
  have "(\<exists>u v. c # cs = u @ v \<and> rx_in r u) \<longleftrightarrow> rx_in r [] \<or> (\<exists>u v. cs = u @ v \<and> rx_in r (c # u))"
    by (auto simp: Cons_eq_append_conv)
  then show ?case by (simp add: Cons.IH nullable_iff deriv_iff)
qed (simp add: nullable_iff)

lemma rx_in_class: "rx_in (RStar (RClass P)) w \<longleftrightarrow> list_all P w"
proof
  assume "rx_in (RStar (RClass P)) w"
  then obtain us where "w = concat us" "\<forall>u \<in> set us. \<exists>c. u = [c] \<and> P c"
    by (auto simp: rx_in_star_iff rx_in_simps)
  then show "list_all P w" by (induction us arbitrary: w) auto
next
  assume "list_all P w"
  then show "rx_in (RStar (RClass P)) w"
  proof (induction w)
    case (Cons c w)
    then have "rx_in (RStar (RClass P)) ([c] @ w)" by (intro in_star_step in_class) simp_all
    then show ?case by simp
  qed (simp add: in_star_nil)
qed

lemma rx_match_seq:
  "rx_match (rx_seq []) s"
  "rx_match (rx_seq (r # rs)) s \<longleftrightarrow> (\<exists>u v. s = u @ v \<and> rx_in r u \<and> rx_match (rx_seq rs) v)"
proof -
  show "rx_match (rx_seq []) s" by (auto simp: rx_match_iff intro: in_eps)
  have "rx_match (rx_seq (r # rs)) s \<longleftrightarrow> (\<exists>a b v. s = (a @ b) @ v \<and> rx_in r a \<and> rx_in (rx_seq rs) b)"
    unfolding rx_match_iff rx_seq.simps rx_in_simps by blast
  then show "rx_match (rx_seq (r # rs)) s \<longleftrightarrow> (\<exists>u v. s = u @ v \<and> rx_in r u \<and> rx_match (rx_seq rs) v)"
    unfolding rx_match_iff by (metis append.assoc)
qed

lemma rx_in_any: "rx_in (rx_any rs) w \<longleftrightarrow> (\<exists>r \<in> set rs. rx_in r w)"
  by (induction rs) (auto simp: rx_in_simps)

lemma rx_match_any: "rx_match (rx_any rs) w \<longleftrightarrow> (\<exists>r \<in> set rs. rx_match r w)"
  by (auto simp: rx_match_iff rx_in_any)

definition no_newline :: "string \<Rightarrow> bool" where
  "no_newline s \<longleftrightarrow> CHR 0x0A \<notin> set s"

lemma rx_in_parts:
  "rx_in rx_dots w \<longleftrightarrow> no_newline w" "rx_in rx_spaces w \<longleftrightarrow> list_all is_space w"
  "rx_in rx_dot w \<longleftrightarrow> (\<exists>c. w = [c] \<and> c \<noteq> CHR 0x0A)"
  "rx_in rx_quote w \<longleftrightarrow> w = [CHR 0x27] \<or> w = [CHR 0x22]"
  by (auto simp: rx_dots_def rx_spaces_def rx_dot_def rx_quote_def rx_in_class rx_in_simps no_newline_def list_all_iff)

lemma rx_match_nullable: "nullable r \<Longrightarrow> rx_match r s"
  by (cases s) simp_all

lemma rx_match_end: "rx_match (rx_seq [rx_dots]) s" "rx_match (rx_seq [rx_spaces, rx_dots]) s"
  by (simp_all add: rx_match_nullable rx_dots_def rx_spaces_def)

text \<open>A part of a pattern and the literal after it.\<close>

lemma rx_match_then:
  "rx_match (rx_seq (r # rx_str a # rs)) s \<longleftrightarrow>
     (\<exists>u v. s = u @ a @ v \<and> rx_in r u \<and> rx_match (rx_seq rs) v)"
  unfolding rx_match_seq(2) [of r] rx_match_seq(2) [of "rx_str a"] rx_in_str by blast

lemma ex_nested:
  "(\<exists>u v. s = u @ a @ v \<and> P u \<and> (\<exists>w x. v = w @ b @ x \<and> Q w \<and> R x)) \<longleftrightarrow>
     (\<exists>u w x. s = u @ a @ w @ b @ x \<and> P u \<and> Q w \<and> R x)"
  "(\<exists>u v. s = u @ a @ v \<and> P u \<and> (\<exists>w x. v = w @ b @ x \<and> Q w)) \<longleftrightarrow>
     (\<exists>u w x. s = u @ a @ w @ b @ x \<and> P u \<and> Q w)"
  by blast+

section \<open>The meaning of the patterns\<close>

definition imports_underscore :: "string \<Rightarrow> bool" where
  "imports_underscore line \<longleftrightarrow> (\<exists>u v. line = u @ ''import _'' @ v)"

definition assigns_underscore :: "string \<Rightarrow> bool" where
  "assigns_underscore line \<longleftrightarrow> (\<exists>u w v. line = u @ ''_'' @ w @ ''='' @ v \<and> list_all is_space w)"

definition opens_text :: "string \<Rightarrow> bool" where
  "opens_text s \<longleftrightarrow> (\<exists>w v. list_all is_space w \<and> (s = w @ [CHR 0x27] @ v \<or> s = w @ [CHR 0x22] @ v))"

definition logs_translated :: "string \<Rightarrow> bool" where
  "logs_translated line \<longleftrightarrow> (\<exists>u level w v. line = u @ ''LOG.'' @ level @ ''('' @ w @ ''_('' @ v \<and>
     level \<in> set log_levels \<and> list_all is_space w \<and> opens_text v)"

definition first_underscore_translates :: "string \<Rightarrow> bool" where
  "first_underscore_translates line \<longleftrightarrow>
     (\<exists>u v. line = u @ ''_('' @ v \<and> CHR ''_'' \<notin> set u \<and> opens_text v)"

lemma no_newline_append [simp]: "no_newline (u @ v) \<longleftrightarrow> no_newline u \<and> no_newline v"
  by (simp add: no_newline_def)

lemma no_newline_prefix: "no_newline line \<Longrightarrow> line = u @ v \<Longrightarrow> no_newline u"
  by simp

lemma underscore_import_meaning:
  assumes "no_newline line"
  shows "rx_match underscore_import_check line \<longleftrightarrow> imports_underscore line"
proof -
  have "rx_match underscore_import_check line \<longleftrightarrow> (\<exists>u v. line = u @ ''import _'' @ v \<and> no_newline u)"
    by (simp only: underscore_import_check_def rx_match_then rx_in_parts rx_match_end simp_thms)
  then show ?thesis unfolding imports_underscore_def using no_newline_prefix [OF assms] by blast
qed

lemma custom_underscore_meaning:
  assumes "no_newline line"
  shows "rx_match custom_underscore_check line \<longleftrightarrow> assigns_underscore line"
proof -
  have "rx_match custom_underscore_check line \<longleftrightarrow>
      (\<exists>u w v. line = u @ ''_'' @ w @ ''='' @ v \<and> no_newline u \<and> list_all is_space w)"
    by (simp only: custom_underscore_check_def rx_match_then rx_in_parts rx_match_end simp_thms ex_nested(2))
  then show ?thesis unfolding assigns_underscore_def using no_newline_prefix [OF assms] by blast
qed

lemma spaces_quote_meaning: "rx_match (rx_seq [rx_spaces, rx_quote]) s \<longleftrightarrow> opens_text s"
proof -
  have "rx_match (rx_seq [rx_spaces, rx_quote]) s \<longleftrightarrow>
      (\<exists>w v. s = w @ v \<and> list_all is_space w \<and> (\<exists>q v'. v = q @ v' \<and> (q = [CHR 0x27] \<or> q = [CHR 0x22])))"
    by (simp only: rx_match_seq rx_in_parts simp_thms)
  then show ?thesis unfolding opens_text_def by metis
qed

lemma translated_log_meaning:
  assumes "no_newline line"
  shows "rx_match translated_log line \<longleftrightarrow> logs_translated line"
proof -
  have levels: "rx_in (rx_any (map rx_str ls)) w \<longleftrightarrow> w \<in> set ls" for ls w
    by (auto simp: rx_in_any rx_in_str)
  have "rx_match translated_log line \<longleftrightarrow>
      (\<exists>u level w v. line = u @ ''LOG.'' @ level @ ''('' @ w @ ''_('' @ v \<and> no_newline u \<and>
         level \<in> set log_levels \<and> list_all is_space w \<and> opens_text v)"
    unfolding translated_log_def rx_match_then levels rx_in_parts spaces_quote_meaning
    by (simp only: ex_nested) blast
  then show ?thesis unfolding logs_translated_def using no_newline_prefix [OF assms] by metis
qed

lemma string_translation_meaning:
  "rx_match string_translation line \<longleftrightarrow> first_underscore_translates line"
  unfolding string_translation_def first_underscore_translates_def rx_match_then rx_in_class
    spaces_quote_meaning by (auto simp only: list_all_iff)

section \<open>The lines that are reported\<close>

text \<open>Line \<open>i\<close> is preceded, in its own file, by an import or an assignment of an underscore name.\<close>

definition declared_by :: "(string \<times> string) list \<Rightarrow> nat \<Rightarrow> bool" where
  "declared_by ls i \<longleftrightarrow> (\<exists>j \<le> i. fst (ls ! j) = fst (ls ! i) \<and> declares_underscore (snd (ls ! j)))"

lemma ex_le_Suc: "(\<exists>j \<le> Suc i. P j) \<longleftrightarrow> P 0 \<or> (\<exists>j \<le> i. P (Suc j))"
  by (metis Suc_le_mono le0 not0_implies_Suc)

lemma declared_by_Cons:
  "declared_by (l # ls) 0 \<longleftrightarrow> declares_underscore (snd l)"
  "declared_by (l # ls) (Suc i) \<longleftrightarrow>
     fst l = fst (ls ! i) \<and> declares_underscore (snd l) \<or> declared_by ls i"
  by (simp_all add: declared_by_def ex_le_Suc)

lemma check_lines_Cons:
  "fst (check_lines ((filename, line) # ls) files) =
     fst (check_explicit_underscore_import line filename files) #
     fst (check_lines ls (snd (check_explicit_underscore_import line filename files)))"
  by (simp split: prod.splits)

lemma check_lines_nth:
  assumes "i < length ls"
  shows "fst (check_lines ls files) ! i =
    (if fst (ls ! i) \<in> set files \<or> declared_by ls i \<or> \<not> uses_underscore (snd (ls ! i)) then [] else [(0, D703)])"
  using assms
proof (induction ls arbitrary: i files)
  case (Cons l ls)
  obtain filename line where l: "l = (filename, line)" by fastforce
  show ?case
  proof (cases i)
    case 0
    then show ?thesis
      by (simp add: l check_lines_Cons declared_by_Cons check_explicit_underscore_import_def del: check_lines.simps)
  next
    case (Suc k)
    let ?files = "snd (check_explicit_underscore_import line filename files)"
    have "fst (check_lines ls ?files) ! k =
      (if fst (ls ! k) \<in> set ?files \<or> declared_by ls k \<or> \<not> uses_underscore (snd (ls ! k)) then [] else [(0, D703)])"
      using Cons Suc by simp
    moreover have "fst (ls ! k) \<in> set ?files \<longleftrightarrow>
        fst (ls ! k) \<in> set files \<or> filename = fst (ls ! k) \<and> declares_underscore line"
      by (auto simp: check_explicit_underscore_import_def)
    ultimately show ?thesis
      by (simp add: l Suc check_lines_Cons declared_by_Cons del: check_lines.simps)
  qed
qed simp

lemma declares_underscore_meaning:
  assumes "no_newline line"
  shows "declares_underscore line \<longleftrightarrow> imports_underscore line \<or> assigns_underscore line"
  using assms by (simp add: declares_underscore_def underscore_import_meaning custom_underscore_meaning)

lemma uses_underscore_meaning:
  assumes "no_newline line"
  shows "uses_underscore line \<longleftrightarrow> logs_translated line \<or> first_underscore_translates line"
  using assms by (simp add: uses_underscore_def translated_log_meaning string_translation_meaning)

text \<open>
  C26: The check reports exactly the lines that translate a text in a file that has not imported, or
  assigned to, a name that ends in an underscore on this line or before.
\<close>

theorem translation_check_meaning:
  assumes "\<forall>l \<in> set ls. no_newline (snd l)" and "i < length ls"
  shows "fst (check_lines ls []) ! i \<noteq> [] \<longleftrightarrow>
    (logs_translated (snd (ls ! i)) \<or> first_underscore_translates (snd (ls ! i))) \<and>
    \<not> (\<exists>j \<le> i. fst (ls ! j) = fst (ls ! i) \<and>
         (imports_underscore (snd (ls ! j)) \<or> assigns_underscore (snd (ls ! j))))"
proof -
  have "no_newline (snd (ls ! j))" if "j \<le> i" for j using assms that by simp
  then show ?thesis
    using assms(2) by (auto simp: check_lines_nth declared_by_def uses_underscore_meaning declares_underscore_meaning)
qed

definition sample_lines :: "(string \<times> string) list" where
  "sample_lines = [(''a.py'', ''x = _(\"t\")''), (''b.py'', ''name_ = 1''), (''b.py'', ''LOG.info(_(\"t\"))'')]"

lemma translation_check_meaning_witness:
  "first_underscore_translates (snd (sample_lines ! 0)) \<and> assigns_underscore (snd (sample_lines ! 1)) \<and>
   (fst (check_lines sample_lines []) ! 2 \<noteq> [] \<longleftrightarrow>
    (logs_translated (snd (sample_lines ! 2)) \<or> first_underscore_translates (snd (sample_lines ! 2))) \<and>
    \<not> (\<exists>j \<le> 2. fst (sample_lines ! j) = fst (sample_lines ! 2) \<and>
         (imports_underscore (snd (sample_lines ! j)) \<or> assigns_underscore (snd (sample_lines ! j)))))"
proof -
  have "\<forall>l \<in> set sample_lines. no_newline (snd l)" "2 < length sample_lines"
    by (simp_all add: sample_lines_def no_newline_def)
  note translation_check_meaning [OF this]
  moreover have "rx_match string_translation (snd (sample_lines ! 0))" by code_simp
  moreover have "rx_match custom_underscore_check (snd (sample_lines ! 1))" by code_simp
  moreover have "no_newline (snd (sample_lines ! 1))" by code_simp
  ultimately show ?thesis by (simp only: string_translation_meaning custom_underscore_meaning simp_thms)
qed

end
