(* ===== verification/Fernet_Tokens.thy ===== *)
theory Fernet_Tokens
  imports Config_File Worker_Setup Json_Text
begin

text \<open>
  \<open>docker/keystone/keystone-fernet/fetch\_fernet\_tokens.py\<close>: how many fernet keys a host has and
  whether one of them is older than a time. Dates are microseconds since the first day of year 1 on
  the local clock, as \<open>datetime\<close> counts them. The clock and the times of modification are given by
  the environment; the words of the command line are given as \<open>argparse\<close> leaves them, as strings.
\<close>

section \<open>Numbers, dates and documents\<close>

datatype token_exn = StopIteration | OverflowError | Uncaught py_exn

definition py_int :: "string \<Rightarrow> token_exn + int" where
  "py_int s = (case py_int10 s of Some n \<Rightarrow> Inr n | None \<Rightarrow> Inl (Uncaught (ValueError ''invalid literal'')))"

text \<open>The microseconds of a second and of the dates from year 1 to the end of year 9999.\<close>

definition second :: int where
  "second = 1000000"

definition date_end :: int where
  "date_end = 3652059 * 86400 * second"

text \<open>\<open>timedelta(seconds=s)\<close> holds at most 999999999 days.\<close>

definition timedelta_seconds :: "int \<Rightarrow> token_exn + int" where
  "timedelta_seconds s =
     (if \<bar>s div 86400\<bar> \<le> 999999999 then Inr (s * second) else Inl OverflowError)"

definition date_minus :: "int \<Rightarrow> int \<Rightarrow> token_exn + int" where
  "date_minus d delta = (if 0 \<le> d - delta \<and> d - delta < date_end then Inr (d - delta) else Inl OverflowError)"

text \<open>Documents of strings and truth values, and what \<open>json.dumps\<close> makes of them.\<close>

datatype json_scalar = JStr string | JBool bool

fun dumps_scalar :: "json_scalar \<Rightarrow> string" where
  "dumps_scalar (JStr s) = json_string s"
| "dumps_scalar (JBool b) = (if b then ''true'' else ''false'')"

definition json_dumps :: "(string, json_scalar) dict \<Rightarrow> string" where
  "json_dumps d =
     ''{'' @ py_join '', '' (map (\<lambda>(k, v). json_string k @ '': '' @ dumps_scalar v) d) @ ''}''"

section \<open>The program\<close>

definition TOKEN_PATH :: string where
  "TOKEN_PATH = ''/etc/keystone/fernet-keys''"

text \<open>The status of the process for the argument of \<open>sys.exit\<close>: without one it is 0.\<close>

definition exit_status :: "nat option \<Rightarrow> nat" where
  "exit_status code = (case code of None \<Rightarrow> 0 | Some n \<Rightarrow> n)"

text \<open>
  What \<open>json\_exit\<close> prints, and the status it exits with. A message that is no dictionary is given as the string that
  \<open>str\<close> makes of it.
\<close>

definition json_exit :: "string option + (string, json_scalar) dict \<Rightarrow> bool \<Rightarrow> bool \<Rightarrow> string \<times> nat" where
  "json_exit msg failed changed =
     (let fields = (case msg of
            Inl text_msg \<Rightarrow> [(''msg'', JStr (case text_msg of None \<Rightarrow> ''None'' | Some t \<Rightarrow> t))]
          | Inr d \<Rightarrow> d)
      in (json_dumps (dict_update fields [(''failed'', JBool failed), (''changed'', JBool changed)]), exit_status None))"

record token_env =
  te_host :: host
  te_now :: int
  te_modified :: "string list \<Rightarrow> int"

definition has_file :: "token_env \<Rightarrow> 'c node \<Rightarrow> string \<Rightarrow> bool" where
  "has_file E root filename_path = os_exists (te_host E) root filename_path"

definition num_tokens :: "token_env \<Rightarrow> 'c node \<Rightarrow> token_exn + nat" where
  "num_tokens E root =
     (case os_walk (te_host E) root TOKEN_PATH of
        [] \<Rightarrow> Inl StopIteration
      | (r, dirs, files) # rest \<Rightarrow> Inr (length files))"

definition tokens_populated :: "token_env \<Rightarrow> 'c node \<Rightarrow> string \<Rightarrow> token_exn + bool" where
  "tokens_populated E root expected =
     (case num_tokens E root of
        Inl e \<Rightarrow> Inl e
      | Inr n \<Rightarrow> (case py_int expected of Inl e \<Rightarrow> Inl e | Inr k \<Rightarrow> Inr (k \<le> int n)))"

text \<open>\<open>datetime.fromtimestamp(os.path.getmtime(path))\<close>: the time of the file the path leads to.\<close>

definition modified_date :: "token_env \<Rightarrow> 'c node \<Rightarrow> string \<Rightarrow> token_exn + int" where
  "modified_date E root path =
     (case locate (te_host E) root True path of
        Some p \<Rightarrow> (if fs_get root p = None then Inl (Uncaught (OSError ''no such file'')) else Inr (te_modified E p))
      | None \<Rightarrow> Inl (Uncaught (OSError ''no such file'')))"

definition token_stale :: "token_env \<Rightarrow> 'c node \<Rightarrow> string \<Rightarrow> string \<Rightarrow> token_exn + bool" where
  "token_stale E root seconds filename =
     (case py_int seconds of
        Inl e \<Rightarrow> Inl e
      | Inr s \<Rightarrow>
          (case timedelta_seconds s of
             Inl e \<Rightarrow> Inl e
           | Inr delta \<Rightarrow>
               (case date_minus (te_now E) delta of
                  Inl e \<Rightarrow> Inl e
                | Inr max_token_age \<Rightarrow>
                    (let filename_path = path_join TOKEN_PATH filename in
                     if \<not> has_file E root filename_path then Inr True
                     else (case modified_date E root filename_path of
                             Inl e \<Rightarrow> Inl e
                           | Inr modified \<Rightarrow> Inr (modified < max_token_age))))))"

record token_args =
  ta_time :: string
  ta_filename :: "string option"
  ta_number :: string

definition fetch_main :: "token_env \<Rightarrow> 'c node \<Rightarrow> token_args \<Rightarrow> token_exn + string \<times> nat" where
  "fetch_main E root args =
     (case tokens_populated E root (ta_number args) of
        Inl e \<Rightarrow> Inl e
      | Inr populated \<Rightarrow>
          (case token_stale E root (ta_time args) (case ta_filename args of Some f \<Rightarrow> f | None \<Rightarrow> ''0'') of
             Inl e \<Rightarrow> Inl e
           | Inr stale \<Rightarrow>
               Inr (json_exit (Inr [(''populated'', JBool populated), (''update_required'', JBool stale)]) False False)))"

end
