(* ===== verification/Validate_Files.thy ===== *)
theory Validate_Files
  imports Worker_Setup Json_Text
begin

text \<open>
  \<open>tools/validate-all-file.py\<close>: the files of the source tree end in a newline, and the templates of
  JSON documents render to JSON. A file holds its text, or nothing where its bytes are no text. Jinja
  is a parameter: what rendering a template of a directory gives, or the exception it raises. The
  text is read with \<open>json.loads\<close> (\<open>Json\_Text\<close>), whose depth is what the stack allows; the check drops the value.
  \<open>tools/validate-yaml.py\<close> is the same loop over files that are named.
\<close>

section \<open>The patterns\<close>

definition NEWLINE_EOF_INCLUDE_PATTERNS :: "string list" where
  "NEWLINE_EOF_INCLUDE_PATTERNS = [''*.j2'', ''*.yml'', ''*.py'', ''*.sh'']"

definition NEWLINE_EOF_EXCLUDE_PATTERNS :: "string list" where
  "NEWLINE_EOF_EXCLUDE_PATTERNS = [''.tox'', ''.testrepository'', ''.git'']"

definition JSON_J2_INCLUDE_PATTERNS :: "string list" where
  "JSON_J2_INCLUDE_PATTERNS = [''*.json.j2'', ''*.json'']"

definition JSON_J2_EXCLUDE_PATTERNS :: "string list" where
  "JSON_J2_EXCLUDE_PATTERNS = [''.tox'', ''.testrepository'', ''.git'']"

text \<open>\<open>re.match\<close> of the patterns as \<open>fnmatch.translate\<close> writes them, joined by bars: one of them matches the whole name.\<close>

definition matches_one :: "string list \<Rightarrow> string \<Rightarrow> bool" where
  "matches_one patterns name \<longleftrightarrow> list_ex (\<lambda>p. fnmatch p name) patterns"

section \<open>The walk\<close>

text \<open>
  \<open>os.walk\<close> from the top with the excluded directories taken out of the list it goes on with. Only
  the names of the other files are used.
\<close>

fun pruned_node :: "host \<Rightarrow> (string \<Rightarrow> bool) \<Rightarrow> 'c node \<Rightarrow> string \<Rightarrow> 'c node \<Rightarrow> (string \<times> string list) list"
  and pruned_entries :: "host \<Rightarrow> (string \<Rightarrow> bool) \<Rightarrow> 'c node \<Rightarrow> string \<Rightarrow> (string \<times> 'c node) list \<Rightarrow> (string \<times> string list) list" where
  "pruned_node h excluded root tp (Dir m es) = (tp, walk_files h root tp es) # pruned_entries h excluded root tp es"
| "pruned_node h excluded root tp (File m x) = []"
| "pruned_node h excluded root tp (Link t) = []"
| "pruned_entries h excluded root tp [] = []"
| "pruned_entries h excluded root tp ((n, x) # es) =
     (if excluded n then [] else pruned_node h excluded root (path_join tp n) x) @
     pruned_entries h excluded root tp es"

definition pruned_walk :: "host \<Rightarrow> (string \<Rightarrow> bool) \<Rightarrow> 'c node \<Rightarrow> string \<Rightarrow> (string \<times> string list) list" where
  "pruned_walk h excluded root tp =
     (case os_stat h root tp of Some n \<Rightarrow> pruned_node h excluded root tp n | None \<Rightarrow> [])"

text \<open>The files a check looks at, as pairs of a directory and a name, in the order of the walk.\<close>

definition checked_files :: "host \<Rightarrow> string list \<Rightarrow> string list \<Rightarrow> 'c node \<Rightarrow> string \<Rightarrow> (string \<times> string) list" where
  "checked_files h includes excludes root project_root =
     concat (map (\<lambda>(r, names). map (Pair r)
         (filter (\<lambda>f. \<not> matches_one excludes f \<and> matches_one includes f) names))
       (pruned_walk h (matches_one excludes) root project_root))"

section \<open>Newlines\<close>

definition read_text :: "host \<Rightarrow> string option node \<Rightarrow> string \<Rightarrow> py_exn + string" where
  "read_text h root path =
     (case fst (read_file (\<lambda>e. e) h path root) of
        Inl e \<Rightarrow> Inl e
      | Inr None \<Rightarrow> Inl (ValueError ''no text'')
      | Inr (Some bytes) \<Rightarrow> Inr (universal_newlines False bytes))"

definition has_newline_eof :: "host \<Rightarrow> string option node \<Rightarrow> string \<Rightarrow> py_exn + bool" where
  "has_newline_eof h root path =
     (case read_text h root path of
        Inl e \<Rightarrow> Inl e
      | Inr data \<Rightarrow> Inr (\<not> (data \<noteq> [] \<and> last data \<noteq> CHR 0x0A)))"

text \<open>\<open>return_code\<close> goes from 0 to 1 at the first bad file; an exception ends the check.\<close>

fun check_files :: "('f \<Rightarrow> py_exn + bool) \<Rightarrow> 'f list \<Rightarrow> nat \<Rightarrow> py_exn + nat" where
  "check_files good [] return_code = Inr return_code"
| "check_files good (f # fs) return_code =
     (case good f of
        Inl e \<Rightarrow> Inl e
      | Inr ok \<Rightarrow> check_files good fs (if ok then return_code else 1))"

definition check_newline_eof :: "host \<Rightarrow> string option node \<Rightarrow> string \<Rightarrow> py_exn + nat" where
  "check_newline_eof h root project_root =
     check_files (\<lambda>(r, f). has_newline_eof h root (path_join r f))
       (checked_files h NEWLINE_EOF_INCLUDE_PATTERNS NEWLINE_EOF_EXCLUDE_PATTERNS root project_root) 0"

section \<open>Templates of JSON\<close>

text \<open>What rendering a template can raise: an exception of jinja, or any other.\<close>

datatype render_exn = TemplateError | RenderRaises py_exn

type_synonym renderer = "string \<Rightarrow> string \<Rightarrow> render_exn + string"

text \<open>The exceptions \<open>check\_json\_j2\<close> catches.\<close>

fun json_check_catches :: "render_exn \<Rightarrow> bool" where
  "json_check_catches TemplateError = True"
| "json_check_catches (RenderRaises (ValueError m)) = True"
| "json_check_catches (RenderRaises e) = False"

definition validate_json_j2 :: "nat \<Rightarrow> renderer \<Rightarrow> string \<Rightarrow> string \<Rightarrow> render_exn + unit" where
  "validate_json_j2 depth render r filename =
     (case render r filename of
        Inl e \<Rightarrow> Inl e
      | Inr data \<Rightarrow> (case json_loads depth data of Inl e \<Rightarrow> Inl (RenderRaises e) | Inr v \<Rightarrow> Inr ()))"

definition json_file_ok :: "nat \<Rightarrow> renderer \<Rightarrow> string \<Rightarrow> string \<Rightarrow> py_exn + bool" where
  "json_file_ok depth render r filename =
     (case validate_json_j2 depth render r filename of
        Inr u \<Rightarrow> Inr True
      | Inl e \<Rightarrow> (if json_check_catches e then Inr False
                  else (case e of RenderRaises x \<Rightarrow> Inl x | TemplateError \<Rightarrow> Inr False)))"

definition check_json_j2 :: "host \<Rightarrow> nat \<Rightarrow> renderer \<Rightarrow> string option node \<Rightarrow> string \<Rightarrow> py_exn + nat" where
  "check_json_j2 h depth render root project_root =
     check_files (\<lambda>(r, f). json_file_ok depth render r f)
       (checked_files h JSON_J2_INCLUDE_PATTERNS JSON_J2_EXCLUDE_PATTERNS root project_root) 0"

text \<open>The status the program exits with: the sum of the checks.\<close>

definition validate_main :: "host \<Rightarrow> nat \<Rightarrow> renderer \<Rightarrow> string option node \<Rightarrow> string \<Rightarrow> py_exn + nat" where
  "validate_main h depth render root project_root =
     (case check_newline_eof h root project_root of
        Inl e \<Rightarrow> Inl e
      | Inr a \<Rightarrow> (case check_json_j2 h depth render root project_root of Inl e \<Rightarrow> Inl e | Inr b \<Rightarrow> Inr (a + b)))"

section \<open>YAML\<close>

text \<open>
  \<open>tools/validate-yaml.py\<close>: the status it exits with. \<open>yaml.safe\_load\<close> is a parameter: whether it reads
  a text without an error of YAML.
\<close>

definition validate_yaml :: "host \<Rightarrow> (string \<Rightarrow> bool) \<Rightarrow> string option node \<Rightarrow> string list \<Rightarrow> py_exn + nat" where
  "validate_yaml h safe_load root filenames =
     check_files (\<lambda>f. case read_text h root f of Inl e \<Rightarrow> Inl e | Inr data \<Rightarrow> Inr (safe_load data)) filenames 0"

section \<open>The walk and the exit status\<close>

text \<open>With nothing excluded the walk is \<open>os.walk\<close>.\<close>

lemma pruned_nothing:
  "pruned_node h (\<lambda>n. False) root tp n = map (\<lambda>(r, dirs, files). (r, files)) (walk_node h root tp n)"
  "pruned_entries h (\<lambda>n. False) root tp es = map (\<lambda>(r, dirs, files). (r, files)) (walk_entries h root tp es)"
  by (induction h root tp n and h root tp es rule: walk_node_walk_entries.induct) auto

lemma check_files_result:
  "check_files good fs c = Inr n \<longleftrightarrow>
     (\<forall>f \<in> set fs. good f \<noteq> Inl (projl (good f))) \<and>
     n = (if \<exists>f \<in> set fs. good f = Inr False then 1 else c)"
  by (induction fs arbitrary: c) (auto split: sum.splits)

lemma check_files_zero: "check_files good fs 0 = Inr 0 \<longleftrightarrow> (\<forall>f \<in> set fs. good f = Inr True)"
proof -
  have "good f \<noteq> Inl (projl (good f)) \<and> good f \<noteq> Inr False \<longleftrightarrow> good f = Inr True" for f
    by (cases "good f") auto
  then show ?thesis unfolding check_files_result by auto
qed

lemma universal_newlines_last:
  "universal_newlines b s = [] \<longleftrightarrow> s = [] \<or> b \<and> s = [CHR 0x0A]"
  "universal_newlines b s \<noteq> [] \<Longrightarrow> last (universal_newlines b s) = CHR 0x0A \<longleftrightarrow> last s \<in> {CHR 0x0A, CHR 0x0D}"
  by (induction s arbitrary: b) (auto split: if_splits)

end
