(* ===== verification/Tool_Properties.thy ===== *)
theory Tool_Properties
  imports Fernet_Tokens Validate_Files
begin

text \<open>
  What the scripts beside the image builder do: the report on the fernet keys of a host, the JSON it is
  written in, and the exit status of the check of all files.
\<close>

section \<open>The report on the keys\<close>

lemma py_int_iff: "py_int s = Inr n \<longleftrightarrow> py_int10 s = Some n"
  by (simp add: py_int_def split: option.splits)

text \<open>The first step of the walk over a directory.\<close>

lemma num_tokens_dir:
  "os_stat (te_host E) root TOKEN_PATH = Some (Dir m es) \<Longrightarrow>
   num_tokens E root = Inr (length (walk_files (te_host E) root TOKEN_PATH es))"
  by (simp add: num_tokens_def os_walk_def)

lemma num_tokens_iff: "(\<exists>n. num_tokens E root = Inr n) \<longleftrightarrow> os_isdir (te_host E) root TOKEN_PATH"
  by (auto simp: num_tokens_def os_walk_def os_isdir_def split: option.splits node.splits list.splits elim: walk_node.elims)

lemma modified_date_exists:
  assumes "has_file E root p"
  obtains q where "locate (te_host E) root True p = Some q" "modified_date E root p = Inr (te_modified E q)"
  using assms by (auto simp: has_file_def os_exists_def os_stat_def modified_date_def split: option.splits)

text \<open>The file at a path was last written before a date; a file that is missing counts as written never.\<close>

definition older_than :: "token_env \<Rightarrow> 'c node \<Rightarrow> string \<Rightarrow> int \<Rightarrow> bool" where
  "older_than E root p d \<longleftrightarrow>
     (\<forall>q. os_exists (te_host E) root p \<and> locate (te_host E) root True p = Some q \<longrightarrow> te_modified E q < d)"

lemma token_stale_age:
  assumes "py_int seconds = Inr t" and "timedelta_seconds t = Inr delta" and "date_minus (te_now E) delta = Inr limit"
  shows "token_stale E root seconds filename = Inr (older_than E root (path_join TOKEN_PATH filename) limit)"
proof (cases "has_file E root (path_join TOKEN_PATH filename)")
  case True
  obtain q where "locate (te_host E) root True (path_join TOKEN_PATH filename) = Some q"
    "modified_date E root (path_join TOKEN_PATH filename) = Inr (te_modified E q)"
    by (rule modified_date_exists [OF True])
  with True show ?thesis
    by (simp add: token_stale_def assms older_than_def has_file_def)
next
  case False
  then show ?thesis by (simp add: token_stale_def assms older_than_def has_file_def)
qed

lemma token_stale_iff:
  "(\<exists>b. token_stale E root seconds filename = Inr b) \<longleftrightarrow>
     (\<exists>t delta limit. py_int seconds = Inr t \<and> timedelta_seconds t = Inr delta \<and> date_minus (te_now E) delta = Inr limit)"
proof
  assume "\<exists>b. token_stale E root seconds filename = Inr b"
  then show "\<exists>t delta limit. py_int seconds = Inr t \<and> timedelta_seconds t = Inr delta \<and> date_minus (te_now E) delta = Inr limit"
    by (auto simp: token_stale_def split: sum.splits)
qed (auto simp: token_stale_age)

definition key_report :: "bool \<Rightarrow> bool \<Rightarrow> string" where
  "key_report populated update_required =
     json_dumps [(''populated'', JBool populated), (''update_required'', JBool update_required),
       (''failed'', JBool False), (''changed'', JBool False)]"

lemma json_exit_key_report:
  "json_exit (Inr [(''populated'', JBool a), (''update_required'', JBool b)]) False False = (key_report a b, 0)"
  by (simp add: json_exit_def key_report_def dict_update_def exit_status_def)

lemma seconds_in_range:
  assumes "0 \<le> d" "d < date_end" "0 \<le> d - t * second" "d - t * second < date_end"
  shows "timedelta_seconds t = Inr (t * second)" "date_minus d (t * second) = Inr (d - t * second)"
proof -
  have "t \<le> 3652059 * 86400" "- (3652059 * 86400) \<le> t"
    using assms by (auto simp: date_end_def second_def)
  then have "\<bar>t div 86400\<bar> \<le> 999999999" by linarith
  then show "timedelta_seconds t = Inr (t * second)" by (simp add: timedelta_seconds_def)
  show "date_minus d (t * second) = Inr (d - t * second)" using assms by (simp add: date_minus_def)
qed

text \<open>
  C27: With a directory of keys, two numbers and a date in the range of the calendar, the program
  prints whether there are as many keys as asked for, and whether the key is missing or older than the
  given time, and exits with 0.
\<close>

theorem keys_are_reported:
  assumes "os_stat (te_host E) root TOKEN_PATH = Some (Dir m es)"
    and "py_int (ta_number args) = Inr n" and "py_int (ta_time args) = Inr t"
    and "0 \<le> te_now E" "te_now E < date_end"
    and "0 \<le> te_now E - t * second" "te_now E - t * second < date_end"
  shows "fetch_main E root args =
    Inr (key_report (n \<le> int (length (walk_files (te_host E) root TOKEN_PATH es)))
      (older_than E root (path_join TOKEN_PATH (case ta_filename args of None \<Rightarrow> ''0'' | Some f \<Rightarrow> f)) (te_now E - t * second)), 0)"
  using seconds_in_range [OF assms(4-7)]
  by (simp add: fetch_main_def tokens_populated_def num_tokens_dir [OF assms(1)] assms token_stale_age
      json_exit_key_report)

definition key_meta :: meta where
  "key_meta = \<lparr>m_mode = 384, m_uid = 0, m_gid = 0\<rparr>"

definition key_tree :: "string node" where
  "key_tree = Dir key_meta [(''etc'', Dir key_meta [(''keystone'', Dir key_meta [(''fernet-keys'',
     Dir key_meta [(''0'', File key_meta ''staged''), (''1'', File key_meta ''primary'')])])])]"

definition key_env :: token_env where
  "key_env =
     \<lparr>te_host = \<lparr>host_cwd = [], host_users = [], host_groups = [], host_read_only = (\<lambda>p. False), host_uid = 0,
        host_gid = 0, host_dir_mode = 493, host_file_mode = 420\<rparr>,
      te_now = 63900000000 * second, te_modified = (\<lambda>p. 63899999000 * second)\<rparr>"

lemma keys_are_reported_witness:
  "fetch_main key_env key_tree \<lparr>ta_time = ''600'', ta_filename = None, ta_number = '' 3''\<rparr> = Inr (key_report False True, 0)"
proof -
  have dir: "os_stat (te_host key_env) key_tree TOKEN_PATH =
      Some (Dir key_meta [(''0'', File key_meta ''staged''), (''1'', File key_meta ''primary'')])"
    by code_simp
  have numbers: "py_int '' 3'' = Inr 3" "py_int ''600'' = Inr 600" by code_simp+
  have old: "older_than key_env key_tree (path_join TOKEN_PATH ''0'') (te_now key_env - 600 * second)"
    by (simp add: older_than_def key_env_def second_def)
  have files: "length (walk_files (te_host key_env) key_tree TOKEN_PATH
      [(''0'', File key_meta ''staged''), (''1'', File key_meta ''primary'')]) = 2"
    by code_simp
  show ?thesis
    using keys_are_reported [of key_env key_tree key_meta _ "\<lparr>ta_time = ''600'', ta_filename = None, ta_number = '' 3''\<rparr>" 3 600,
        OF dir] numbers old files
    by (simp add: key_env_def second_def date_end_def)
qed

text \<open>
  There is a report exactly when the key directory exists and the two numbers are numbers that give
  a date. Without the directory the program ends with an exception, so a host without keys is not
  reported as one to update.
\<close>

theorem keys_reported_iff:
  "(\<exists>r. fetch_main E root args = Inr r) \<longleftrightarrow>
     os_isdir (te_host E) root TOKEN_PATH \<and> (\<exists>n. py_int (ta_number args) = Inr n) \<and>
     (\<exists>t delta limit. py_int (ta_time args) = Inr t \<and> timedelta_seconds t = Inr delta \<and> date_minus (te_now E) delta = Inr limit)"
proof -
  have populated: "(\<exists>b. tokens_populated E root (ta_number args) = Inr b) \<longleftrightarrow>
      os_isdir (te_host E) root TOKEN_PATH \<and> (\<exists>n. py_int (ta_number args) = Inr n)"
    by (auto simp: tokens_populated_def simp flip: num_tokens_iff split: sum.splits)
  have "(\<exists>r. fetch_main E root args = Inr r) \<longleftrightarrow> (\<exists>b. tokens_populated E root (ta_number args) = Inr b) \<and>
      (\<exists>b. token_stale E root (ta_time args) (case ta_filename args of Some f \<Rightarrow> f | None \<Rightarrow> ''0'') = Inr b)"
    by (auto simp: fetch_main_def split: sum.splits)
  then show ?thesis by (simp add: populated token_stale_iff)
qed

section \<open>The report is read back\<close>

text \<open>The code points of a string, and what is read back of a value.\<close>

definition codes :: "string \<Rightarrow> nat list" where
  "codes s = map of_char s"

fun read_scalar :: "json_scalar \<Rightarrow> json" where
  "read_scalar (JStr s) = JText (codes s)"
| "read_scalar (JBool b) = JTruth b"

lemma codes_eq_iff [simp]: "codes s = codes t \<longleftrightarrow> s = t"
  by (auto simp: codes_def inj_on_def dest: map_injective)

lemma hex_digit_read:
  assumes "n < 16"
  shows "json_hex (hex_digit n) \<and> hex_value (hex_digit n) = n"
proof -
  have "n \<in> set [0..<16]" using assms by simp
  moreover have "list_all (\<lambda>n. json_hex (hex_digit n) \<and> hex_value (hex_digit n) = n) [0..<16]" by code_simp
  ultimately show ?thesis by (simp add: list_all_iff)
qed

lemma json_units_char: "json_units (json_char c @ s) = read_map ((#) (of_char c)) (json_units s)"
proof -
  have n: "(of_char c :: nat) div 16 < 16" "(of_char c :: nat) mod 16 < 16"
    using nat_of_char_less_256 [of c] by (simp_all add: less_mult_imp_div_less)
  have zero: "json_hex (CHR ''0'')" "hex_value (CHR ''0'') = 0" by code_simp+
  have escapes: "json_escape (CHR 0x22) = Some 34" "json_escape (CHR 0x5C) = Some 92" "json_escape (CHR ''n'') = Some 10"
      "json_escape (CHR ''r'') = Some 13" "json_escape (CHR ''t'') = Some 9" "json_escape (CHR ''f'') = Some 12"
      "json_escape (CHR ''b'') = Some 8"
    by code_simp+
  show ?thesis
    by (auto simp: json_char_def Let_def escapes zero hex_number_def hex_digit_read n)
qed

lemma json_units_string: "json_units (concat (map json_char s) @ CHR 0x22 # r) = Inr (codes s, r)"
  by (induction s) (simp_all add: json_units_char codes_def)

lemma join_codes: "join_surrogates (codes s) = codes s"
proof (induction s rule: induct_list012)
  case (3 a b t)
  have "\<not> high_surrogate (of_char a)" using nat_of_char_less_256 [of a] unfolding high_surrogate_def by linarith
  with "3.IH"(2) show ?case by (simp add: codes_def)
qed (simp_all add: codes_def)

lemma json_text_string: "json_text (concat (map json_char s) @ CHR 0x22 # r) = Inr (codes s, r)"
  by (simp add: json_text_def json_units_string join_codes)

lemma skip_blanks_Cons: "skip_blanks (c # s) = (if json_blank c then skip_blanks s else c # s)"
  by (simp add: skip_blanks_def)

lemma json_next_marks:
  "json_next (CHR ''}'') parts (CHR ''}'' # r) = Inr ([], r)"
  "json_next (CHR ''}'') parts (CHR '','' # CHR '' '' # r) = parts (skip_blanks r)"
  by (simp_all add: json_next_def skip_blanks_Cons json_blank_def)

lemma json_name_string: "json_name (json_string k @ CHR '':'' # CHR '' '' # r) = Inr (codes k, skip_blanks r)"
  by (simp add: json_name_def json_string_def json_text_string skip_blanks_def json_blank_def)

lemma json_value_scalar: "json_value (Suc k) depth (skip_blanks (dumps_scalar v @ r)) = Inr (read_scalar v, r)"
  by (cases v)
    (simp_all add: json_string_def json_text_string skip_blanks_def json_blank_def py_startswith_prefix json_words_def)

definition dumps_pair :: "string \<times> json_scalar \<Rightarrow> string" where
  "dumps_pair p = json_string (fst p) @ '': '' @ dumps_scalar (snd p)"

definition read_pair :: "string \<times> json_scalar \<Rightarrow> nat list \<times> json" where
  "read_pair p = (codes (fst p), read_scalar (snd p))"

lemma json_pairs_pair:
  "json_pairs (Suc (Suc k)) depth (dumps_pair p @ r) =
     read_map ((#) (read_pair p)) (json_next (CHR ''}'') (json_pairs (Suc k) depth) r)"
  by (simp add: dumps_pair_def read_pair_def json_name_string json_value_scalar del: json_value.simps)

lemma skip_blanks_pairs:
  "skip_blanks (py_join '', '' (map dumps_pair (p # d)) @ r) = py_join '', '' (map dumps_pair (p # d)) @ r"
  by (cases d) (simp_all add: dumps_pair_def json_string_def skip_blanks_Cons json_blank_def)

lemma json_pairs_dumps:
  "length d < k \<Longrightarrow> json_pairs (Suc k) depth (py_join '', '' (map dumps_pair (p # d)) @ CHR ''}'' # r) =
     Inr (map read_pair (p # d), r)"
proof (induction d arbitrary: p k)
  case Nil
  then obtain j where k: "k = Suc j" by (cases k) auto
  show ?case by (simp add: k json_pairs_pair json_next_marks del: json_pairs.simps)
next
  case (Cons q d)
  then obtain j where k: "k = Suc j" "length d < j" by (cases k) auto
  have "json_pairs k depth (skip_blanks (py_join '', '' (map dumps_pair (q # d)) @ CHR ''}'' # r)) =
      Inr (map read_pair (q # d), r)"
    unfolding k skip_blanks_pairs by (rule Cons.IH [OF k(2)])
  then show ?case
    by (simp add: k(1) py_join_Cons json_pairs_pair json_next_marks del: json_pairs.simps)
qed

lemma dumps_pair_length: "length d \<le> length (py_join '', '' (map dumps_pair d))"
proof (induction d)
  case (Cons p d)
  have "Suc 0 \<le> length (dumps_pair p)" by (simp add: dumps_pair_def json_string_def)
  with Cons show ?case by (cases "d = []") (simp_all add: py_join_Cons)
qed simp

lemma dict_update_fresh: "distinct (dict_keys e) \<Longrightarrow> dict_update [] e = e"
  by (induction e rule: rev_induct) (auto simp: dict_update_def dict_set_fresh)

lemma json_loads_dumps:
  assumes "distinct (dict_keys d)"
  shows "json_loads (Suc depth) (json_dumps d) = Inr (JObject (map read_pair d))"
proof -
  let ?ps = "py_join '', '' (map dumps_pair d)"
  have doc: "json_dumps d = CHR ''{'' # ?ps @ ''}''"
  proof -
    have "(\<lambda>(k, v). json_string k @ '': '' @ dumps_scalar v) = dumps_pair" by (simp add: fun_eq_iff dumps_pair_def)
    then show ?thesis unfolding json_dumps_def by simp
  qed
  obtain k where k: "json_fuel (json_dumps d) = Suc (Suc k)" "length d \<le> k"
    using dumps_pair_length [of d] by (auto simp: json_fuel_def doc)
  have parts: "json_open (CHR ''}'') (json_pairs (Suc k) depth) (?ps @ ''}'') = Inr (map read_pair d, [])"
  proof (cases d)
    case (Cons p e)
    obtain c cs where c: "?ps = c # cs" by (cases e) (auto simp: Cons dumps_pair_def json_string_def)
    have "c = CHR 0x22" using c by (cases e) (auto simp: Cons dumps_pair_def json_string_def)
    then show ?thesis
      using json_pairs_dumps [of e k depth p "[]"] k(2) skip_blanks_pairs [of p e "''}''"] c
      by (simp add: json_open_def Cons del: json_pairs.simps)
  qed (simp add: json_open_def skip_blanks_Cons json_blank_def)
  have "map fst (map read_pair d) = map codes (dict_keys d)" by (simp add: read_pair_def)
  then have "distinct (map fst (map read_pair d))"
    using assms by (simp add: distinct_map inj_on_def del: map_map)
  then have "dict_update [] (map read_pair d) = map read_pair d" by (rule dict_update_fresh)
  with parts show ?thesis
    unfolding json_loads_def k(1)
    by (simp add: doc skip_blanks_Cons json_blank_def skip_blanks_def del: json_pairs.simps)
qed

lemma read_pairs_get: "dict_get (map read_pair d) (codes k) = map_option read_scalar (dict_get d k)"
  by (induction d) (auto simp: read_pair_def)

text \<open>
  C40: The line that \<open>json\_exit\<close> prints is read back by \<open>json.loads\<close> as an object that holds, under their
  names, whether it failed and whether it changed something, and everything else the message
  says: the entries of a dictionary but those it overwrites, and any other message under \<open>msg\<close>. There is no other name in it.
\<close>

theorem printed_report_reads_back:
  assumes "\<And>d. msg = Inr d \<Longrightarrow> distinct (dict_keys d)" and "0 < depth"
  shows "\<exists>fields. json_loads depth (fst (json_exit msg failed changed)) = Inr (JObject fields) \<and>
    (\<forall>name. dict_get fields (codes name) =
       (if name = ''failed'' then Some (JTruth failed)
        else if name = ''changed'' then Some (JTruth changed)
        else (case msg of
                Inl m \<Rightarrow> if name = ''msg'' then Some (JText (codes (case m of None \<Rightarrow> ''None'' | Some t \<Rightarrow> t))) else None
              | Inr d \<Rightarrow> map_option read_scalar (dict_get d name)))) \<and>
    set (dict_keys fields) \<subseteq> range codes"
proof -
  let ?given = "case msg of Inl m \<Rightarrow> [(''msg'', JStr (case m of None \<Rightarrow> ''None'' | Some t \<Rightarrow> t))] | Inr d \<Rightarrow> d"
  let ?all = "dict_update ?given [(''failed'', JBool failed), (''changed'', JBool changed)]"
  obtain n where depth: "depth = Suc n" using assms(2) by (cases depth) auto
  have "distinct (dict_keys ?given)" using assms(1) by (auto split: sum.split)
  then have "distinct (dict_keys ?all)"
    by (simp add: dict_update_def dict_distinct_set)
  then have "json_loads depth (fst (json_exit msg failed changed)) = Inr (JObject (map read_pair ?all))"
    by (simp add: json_exit_def Let_def depth json_loads_dumps)
  moreover have "dict_get (map read_pair ?all) (codes name) =
       (if name = ''failed'' then Some (JTruth failed)
        else if name = ''changed'' then Some (JTruth changed)
        else (case msg of
                Inl m \<Rightarrow> if name = ''msg'' then Some (JText (codes (case m of None \<Rightarrow> ''None'' | Some t \<Rightarrow> t))) else None
              | Inr d \<Rightarrow> map_option read_scalar (dict_get d name)))" for name
    unfolding read_pairs_get by (auto simp: dict_update_def split: sum.split)
  moreover have "set (dict_keys (map read_pair ?all)) \<subseteq> range codes" by (auto simp: read_pair_def)
  ultimately show ?thesis by blast
qed

theorem printed_report_reads_back_witness:
  "\<exists>fields. json_loads 1 (fst (json_exit (Inr [(''populated'', JBool True), (''why'', JStr [CHR 0x22, CHR 0xE9])]) False True)) =
      Inr (JObject fields) \<and>
    dict_get fields (codes ''failed'') = Some (JTruth False) \<and> dict_get fields (codes ''changed'') = Some (JTruth True) \<and>
    dict_get fields (codes ''why'') = Some (JText [34, 233])"
proof -
  have "distinct (dict_keys d)" if "Inr [(''populated'', JBool True), (''why'', JStr [CHR 0x22, CHR 0xE9])] = (Inr d :: string option + _)" for d
    using that by auto
  from printed_report_reads_back [where msg = "Inr [(''populated'', JBool True), (''why'', JStr [CHR 0x22, CHR 0xE9])]"
      and depth = 1 and failed = False and changed = True, OF this] obtain fields
    where read: "json_loads 1 (fst (json_exit (Inr [(''populated'', JBool True), (''why'', JStr [CHR 0x22, CHR 0xE9])]) False True)) =
        Inr (JObject fields)"
      and get: "\<And>name. dict_get fields (codes name) = (if name = ''failed'' then Some (JTruth False)
        else if name = ''changed'' then Some (JTruth True)
        else map_option read_scalar (dict_get [(''populated'', JBool True), (''why'', JStr [CHR 0x22, CHR 0xE9])] name))"
    by auto
  have "codes [CHR 0x22, CHR 0xE9] = [34, 233]" by (simp add: codes_def)
  with get [of "''why''"] get [of "''failed''"] get [of "''changed''"] read show ?thesis by auto
qed

section \<open>The exit status of the check of files\<close>

definition ends_in_newline :: "string \<Rightarrow> bool" where
  "ends_in_newline bytes \<longleftrightarrow> bytes = [] \<or> last bytes = CHR 0x0A \<or> last bytes = CHR 0x0D"

lemma read_text_iff:
  "read_text h root path = Inr data \<longleftrightarrow>
     (\<exists>m bytes. os_stat h root path = Some (File m (Some bytes)) \<and> data = universal_newlines False bytes)"
  by (auto simp: read_text_def read_file_def p_bind_def p_gets_def p_return_def p_raise_def
      split: option.splits node.splits)

lemma has_newline_eof_iff:
  "has_newline_eof h root path = Inr True \<longleftrightarrow>
     (\<exists>m bytes. os_stat h root path = Some (File m (Some bytes)) \<and> ends_in_newline bytes)"
proof -
  have text_end: "(universal_newlines False b = [] \<or> last (universal_newlines False b) = CHR 0x0A) \<longleftrightarrow> ends_in_newline b" for b
    using universal_newlines_last [of False b] by (auto simp: ends_in_newline_def)
  have "has_newline_eof h root path = Inr True \<longleftrightarrow> (\<exists>data. read_text h root path = Inr data \<and> (data = [] \<or> last data = CHR 0x0A))"
    by (auto simp: has_newline_eof_def split: sum.splits)
  then show ?thesis unfolding read_text_iff by (auto simp flip: text_end)
qed

lemma json_file_ok_iff:
  "json_file_ok depth render r f = Inr True \<longleftrightarrow> (\<exists>data v. render r f = Inr data \<and> json_loads depth data = Inr v)"
  by (auto simp: json_file_ok_def validate_json_j2_def split: sum.splits render_exn.splits if_splits)

lemma validate_main_zero:
  "validate_main h depth render root p = Inr 0 \<longleftrightarrow>
     check_newline_eof h root p = Inr 0 \<and> check_json_j2 h depth render root p = Inr 0"
  by (auto simp: validate_main_def split: sum.splits)

text \<open>The check of YAML files accepts exactly the lists of texts that the reader accepts.\<close>

lemma validate_yaml_accepts:
  "validate_yaml h safe_load root fs = Inr 0 \<longleftrightarrow>
     (\<forall>f \<in> set fs. \<exists>m bytes. os_stat h root f = Some (File m (Some bytes)) \<and> safe_load (universal_newlines False bytes))"
proof -
  have "(case read_text h root f of Inl e \<Rightarrow> Inl e | Inr data \<Rightarrow> Inr (safe_load data)) = Inr True \<longleftrightarrow>
      (\<exists>data. read_text h root f = Inr data \<and> safe_load data)" for f
    by (auto split: sum.splits)
  then show ?thesis by (simp add: validate_yaml_def check_files_zero read_text_iff) blast
qed

text \<open>
  C25: The check of all files exits with 0 exactly when every file it looks at by its name is a text
  that is empty or ends in a line end, and every template of JSON renders to a document of JSON.
\<close>

theorem validate_accepts_iff:
  "validate_main h depth render root p = Inr 0 \<longleftrightarrow>
     (\<forall>(r, f) \<in> set (checked_files h NEWLINE_EOF_INCLUDE_PATTERNS NEWLINE_EOF_EXCLUDE_PATTERNS root p).
        \<exists>m bytes. os_stat h root (path_join r f) = Some (File m (Some bytes)) \<and> ends_in_newline bytes) \<and>
     (\<forall>(r, f) \<in> set (checked_files h JSON_J2_INCLUDE_PATTERNS JSON_J2_EXCLUDE_PATTERNS root p).
        \<exists>data v. render r f = Inr data \<and> json_loads depth data = Inr v)"
  unfolding validate_main_zero check_newline_eof_def check_json_j2_def check_files_zero
  by (simp add: case_prod_beta has_newline_eof_iff json_file_ok_iff)

definition tool_host :: host where
  "tool_host = te_host key_env"

definition source_tree :: "string option node" where
  "source_tree = Dir key_meta [(''kolla'', Dir key_meta
     [(''.git'', Dir key_meta [(''hook.sh'', File key_meta (Some ''exit''))]),
      (''bare.json.j2'', File key_meta (Some (''{}'' @ [CHR 0x0D]))), (''README'', File key_meta None)])]"

lemma validate_accepts_iff_witness:
  "validate_main tool_host 2 (\<lambda>r f. Inr ''{\"a\": [1, true]}'') source_tree ''/kolla'' = Inr 0"
proof -
  have newline: "checked_files tool_host NEWLINE_EOF_INCLUDE_PATTERNS NEWLINE_EOF_EXCLUDE_PATTERNS source_tree ''/kolla'' =
      [(''/kolla'', ''bare.json.j2'')]" by code_simp
  have json: "checked_files tool_host JSON_J2_INCLUDE_PATTERNS JSON_J2_EXCLUDE_PATTERNS source_tree ''/kolla'' =
      [(''/kolla'', ''bare.json.j2'')]" by code_simp
  have stat: "os_stat tool_host source_tree (path_join ''/kolla'' ''bare.json.j2'') =
      Some (File key_meta (Some (''{}'' @ [CHR 0x0D])))" by code_simp
  have reads: "json_loads 2 ''{\"a\": [1, true]}'' = Inr (JObject [([97], JArray [JNumber ''1'', JTruth True])])" by code_simp
  show ?thesis
    unfolding validate_accepts_iff newline json using stat reads by (simp add: ends_in_newline_def)
qed

end
