(* ===== verification/Spec2Isabelle.thy ===== *)
theory Spec2Isabelle
  imports Image_Properties Task_Properties Worker_Properties Container_Properties Template_Properties
    Config_Properties Build_End Push_Race Source_Properties Version_Properties Working_Dir_Props Path_Fuel
    Hacking_Properties Tool_Properties
begin

text \<open>
  A verification library for Kolla, the builder of container images for OpenStack. This theory
  imports the others and states the two properties that span a whole build.

  The program. \<open>kolla-build\<close> (\<open>kolla/image/build.py\<close>, \<open>run\_build\<close>) reads its configuration, renders
  one Dockerfile per image into a working directory, makes an \<open>Image\<close> object of each, links the
  images to their parents, marks which of them are to be built, and lets threads run the tasks of the
  images from two queues: a build, then the builds of the images on top of it and the push. At the end
  it reports the statuses and chooses its exit code. A second program, \<open>docker/base/set\_configs.py\<close>,
  is copied into every image and runs as root at each start of a container: it puts the
  configuration files of the service in their places. Beside them stand scripts: \<open>tools/version-check.py\<close>
  compares the table of sources with the releases, \<open>tools/validate-all-file.py\<close> and \<open>validate-yaml.py\<close>
  check the files of the repository, \<open>kolla/hacking/checks.py\<close> has the rules of the linter, and
  \<open>fetch\_fernet\_tokens.py\<close> reports on the keys of keystone in its container.

  Conventions. Python code is translated into programs \<open>prog\<close> of \<open>Kolla\_Prelude\<close>: a state goes in,
  a result or an exception and a state come out; a sequence stops at the first exception. Objects that are
  shared and updated live in a store, the list of images, and are named by their positions. A loop that
  may not end is a partial function with the result \<open>None\<close>. Ordered dictionaries are association
  lists. Names are those of the source; a prefix marks methods with the same name in several classes
  (\<open>cf\_\<close> for \<open>ConfigFile\<close>, \<open>os\_\<close> and \<open>path\_\<close> for the standard library).

  Shared theories.
  \<open>Kolla\_Prelude\<close>: strings, dictionaries (with a locale of their laws), programs, frames of programs.
  \<open>Py\_Path\<close>, \<open>Py\_Queue\<close>, \<open>Py\_Regex\<close>, \<open>File\_System\<close>, \<open>Py\_Glob\<close>: what the sources use of the
  standard library, that is paths, queues, the regular expressions written in the sources, a tree of
  files with links, modes and owners, and the wildcards of paths. \<open>File\_System\_Props\<close> has the laws of the tree
  as a locale with its interpretation, and what the operations do at paths without links. \<open>Json\_Text\<close>: the strings
  and documents that \<open>json.dump\<close> writes, and \<open>json.loads\<close> with the values it returns.

  The images.
  \<open>Image\_Model\<close>: \<open>kolla/image/utils.py\<close> and the class \<open>Image\<close> and \<open>find\_parents\<close> of
  \<open>kolla/image/kolla\_worker.py\<close>. \<open>Image\_Forest\<close>: the links between parents and children that it makes.
  \<open>Unbuildable\_Images\<close>, \<open>Image\_Filter\<close>: \<open>kolla/image/unbuildable.py\<close> and \<open>filter\_images\<close> with its three
  passes, and a specification of the status of every image that they meet. \<open>Image\_Report\<close>: \<open>get\_image\_statuses\<close>,
  \<open>summary\<close>, \<open>list\_images\<close>, \<open>save\_dependency\<close> and the exit code of \<open>kolla/cmd/build.py\<close>.
  \<open>Image\_Properties\<close>: their properties.

  From the configuration to the images.
  \<open>Config\_Data\<close>: \<open>kolla/common/users.py\<close> and the distributions. \<open>Source\_Table\<close>: \<open>kolla/common/sources.py\<close>.
  \<open>Config\_Options\<close>: the declared options of \<open>kolla/common/config.py\<close>, their registration and \<open>parse\<close>;
  \<open>Option\_Properties\<close>: which command lines are accepted and what is derived from them.
  \<open>Worker\_Setup\<close>: \<open>KollaWorker\<close> up to the written Dockerfiles. \<open>Working\_Dir\<close>: \<open>setup\_working\_dir\<close>, \<open>set\_time\<close>,
  \<open>cleanup\<close> and \<open>kolla/engine\_adapter/engine.py\<close>; \<open>Working\_Dir\_Props\<close>: copying a tree lays it over
  what is there. \<open>Template\_Methods\<close>, \<open>Template\_Properties\<close>: \<open>kolla/template/\<close>, above all \<open>handle\_repos\<close>.
  \<open>Image\_List\<close>: \<open>build\_image\_list\<close> and \<open>list\_dependencies\<close>. \<open>Config\_Properties\<close>: their properties.
  \<open>Source\_Properties\<close>: every source of the table, through the options and the image, to the checks of its download.

  The tasks.
  \<open>Build\_Task\<close>: \<open>kolla/image/tasks.py\<close>, every method of its three classes; the actions on the outside world
  are a trace, and its answers are the argument \<open>env\<close>. \<open>Build\_Task\_Props\<close>: frames of these programs, interpreting the locale of the prelude, and every
  action a build may take, with its arguments.
  \<open>Path\_Prefix\<close>: which normalised paths the check of an archive's names compares as equal so far. \<open>Sample\_Data\<close>: a small build as
  an example. \<open>Task\_Properties\<close>: their properties.

  The threads.
  \<open>Worker\_Threads\<close>: \<open>WorkerThread.run\<close>, \<open>join\_many\<close>, \<open>build\_queue\<close> and the main program as an inductive relation
  of interleaved steps. \<open>Task\_Pool\<close>: an abstract machine of waiting and running tasks.
  \<open>Worker\_Refinement\<close>: every run of the threads is a run of that machine, so what its invariant says of
  order and uniqueness holds of the threads. \<open>Worker\_Progress\<close>: the counters of the queues, a measure of the workers'
  steps and the absence of deadlocks. \<open>Worker\_Properties\<close>: their properties. \<open>Pool\_Results\<close>: a second
  invariant of the abstract machine, that what is marked as built was built. \<open>Push\_Race\<close>: a build whose
  result depends on when a push is refused.

  The whole build.
  \<open>Build\_Pipeline\<close>: what one stage of a build promises the next. \<open>Run\_Build\<close>: \<open>run\_build\<close> before and
  after its threads. \<open>Build\_End\<close>: every run of the threads can be continued to its end, and what the
  exit code says then. \<open>Run\_Sample\<close>: a command line evaluated up to the threads, on which the two
  properties below are applied: \<open>run\_build\_builds\<close> goes from the command line to the started tasks,
  \<open>exit\_code\_of\_build\<close> from the command line to the exit code.

  The containers.
  \<open>Config\_File\<close>, \<open>Set\_Configs\<close>: \<open>docker/base/set\_configs.py\<close> in the order of the source, as programs over a tree of
  files. \<open>Container\_Programs\<close>: locales of frames, in which a law of the single operations on files becomes a law of every
  program; \<open>Container\_Frames\<close> interprets them on the well-formed trees, the kept contents and the
  added directories. \<open>Config\_File\_Props\<close>, \<open>Container\_Steps\<close>: the copy of one file, its check, the
  steps of a start. \<open>Container\_Properties\<close>: their properties.

  The scripts.
  \<open>Version\_Check\<close>, \<open>Version\_Properties\<close>: \<open>tools/version-check.py\<close>, its pattern for the names of archives and
  its run on the table of sources. \<open>Hacking\_Checks\<close>, \<open>Hacking\_Properties\<close>: the rules of \<open>kolla/hacking/checks.py\<close> and the lines
  they report. \<open>Fernet\_Tokens\<close>: \<open>fetch\_fernet\_tokens.py\<close>. \<open>Validate\_Files\<close>: \<open>tools/validate-all-file.py\<close> and
  \<open>tools/validate-yaml.py\<close>. \<open>Tool\_Properties\<close>: the properties of both, and that the printed report is read back.

  Bounds. A path follows at most 40 links, as on Linux. The recursions of \<open>makedirs\<close> and \<open>glob\<close> are bounded by the length of the
  path; \<open>Path\_Fuel\<close> proves that any larger bound gives the same result. The reader of JSON is bounded by
  twice the length of the text, and \<open>json\_fuel\_enough\<close> proves the same of it. The recursions of \<open>\_merge\_directories\<close>, \<open>copytree\<close>, \<open>json.loads\<close> and
  \<open>list\_dependencies\<close> have Python's own limit of nested calls as an argument and raise the RecursionError that Python raises there. The
  properties hold for every value of it unless they name one. The regular expressions and the wildcards end without
  a bound. \<open>image\_list\_of\_dockerfiles\<close> and the other properties of lists hold for lists of any length.

  Simplifications. One attempt at a task is one step of the system of threads: it writes the status of its own image only and
  reads its parent's status once. A keyboard interrupt reaches the main program only, at any moment from its wait for the queues
  to the end of \<open>join\_many\<close>, and again in the handlers of the first; not while it starts the threads, nor after \<open>join\_many\<close>.
  The joins after an interrupt, which have a timeout, may end with threads that still run.
  The file system of a container belongs to set\_configs.py alone while it runs.
  Time stamps, extended attributes and the order in which a directory is listed are not those of a particular file system;
  only the ages of the fernet keys are given, as a function of the path. Characters are those up to 255; blanks and line ends are
  Python's among them, digits those of ASCII. Integers are unbounded, and a mode that is no C integer is refused by \<open>chmod\<close>;
  Python's limit on the number of digits it reads is left out. The references between options are replaced by an argument,
  a function of the group and the string.

  Not modelled. The clients of the container engines, git and HTTP: their answers are parameters. How
  oslo.config and argparse read the command line and the files, and the parsers of YAML and jinja: the parsed or
  rendered values are arguments. The \<open>json\<close> module where it only moves a document in or out of a file.
  Logging, the loggers' setup in \<open>kolla/common/utils.py\<close> and the help texts of the options. \<open>kolla/opts.py\<close>, \<open>kolla/version.py\<close> and
  \<open>setup.py\<close> hand on to pbr and setuptools, and the two \<open>conf.py\<close> are settings that Sphinx reads: they
  have no behaviour of their own.
\<close>

section \<open>The whole build\<close>

text \<open>
  C1: From the command line to the threads: when \<open>run\_build\<close> gets to its threads, there is a client of the
  engine, and every image stands for a Dockerfile in the tree that names its parent. If
  no image depends on itself, then in every run of the threads that follows only matched images are
  started, each once and after its parent (unless that is skipped), the images that are not matched
  keep their statuses, and when the main program ends without an interrupt every matched image was
  started or has an ancestor that was started and did not end as built.
\<close>

theorem run_build_builds:
  assumes start: "run_build_start env root = Some (Inr (ThreadsStart c st dirs), root')"
    and acyclic: "ranked st depth" and run: "sys_run c st ls s"
  shows "(\<exists>client. getEngineClient (re_engine env) (conf_engine c) = Inr client) \<and>
    (\<forall>i < length st. \<exists>content. dockerfile_at (re_host env) root' (img_path (st ! i)) = Some content \<and>
       dockerfile_parent content = Inr (parent_name (st ! i))) \<and>
    distinct (sys_started s) \<and>
    (\<forall>i < length st.
       (i \<in> set (sys_started s) \<longrightarrow> status_at st i = MATCHED \<and>
          (\<forall>p. parent_at st i = Some p \<longrightarrow> status_at st p = SKIPPED \<or>
             p \<in> set (sys_started s) \<and> engine_called c (st ! p) (sys_ts s))) \<and>
       (status_at st i \<noteq> MATCHED \<longrightarrow> status_at (ts_images (sys_ts s)) i = status_at st i) \<and>
       (sys_main s = MainDone \<longrightarrow> \<not> sys_interrupted s \<longrightarrow> status_at st i = MATCHED \<longrightarrow>
          i \<in> set (sys_started s) \<or>
          (\<exists>a \<in> set (sys_started s). a \<noteq> i \<and> ancestor st i a \<and>
             status_at (ts_images (sys_ts s)) a \<noteq> BUILT)))"
proof -
  obtain cf paths st0 client where "c = builder_conf cf"
    and list: "build_image_list (list_env_of env cf root') paths = Inr st0"
    and filter: "filter_images (re_matcher env) (re_cache env) c (find_parents st0) = Some (Inr st)"
    and client: "getEngineClient (re_engine env) (conf_engine c) = Inr client"
    using start by (rule run_build_start_threads)
  have "\<exists>content. dockerfile_at (re_host env) root' (img_path (st ! i)) = Some content \<and>
      dockerfile_parent content = Inr (parent_name (st ! i))" if "i < length st" for i
    using listed_dockerfiles [OF list filter that] by (simp add: list_env_of_def)
  with client threads_build_matched [OF list acyclic filter run] show ?thesis by blast
qed

theorem run_build_builds_witness:
  "\<exists>st. run_build_start run_world (run_tree []) = Some (Inr (ThreadsStart (builder_conf run_full) st run_dirs), run_end) \<and>
     length st = 1 \<and>
     (\<exists>content. dockerfile_at root_host run_end (img_path (st ! 0)) = Some content \<and>
        dockerfile_parent content = Inr (parent_name (st ! 0)))"
proof -
  obtain st where st: "run_build_start run_world (run_tree []) =
      Some (Inr (ThreadsStart (builder_conf run_full) st run_dirs), run_end)" "length st = 1" "ranked st (\<lambda>i. i)"
    using run_starts by blast
  have host: "re_host run_world = root_host" by (simp add: run_world_def)
  from run_build_builds [OF st(1) st(3) sys_run_init] st(1, 2) show ?thesis unfolding host by auto
qed

text \<open>
  C2: What the exit code says: when the threads of a run have ended without an interrupt and the rest
  of \<open>run\_build\<close> returns, the exit code is 1 exactly if some image that was selected did not end as built
  and is not allowed to fail; and every image that ended as built was built by the engine, and
  pushed with \<open>--push\<close>.
\<close>

theorem exit_code_of_build:
  assumes start: "run_build_start env root = Some (Inr (ThreadsStart c st dirs), root')"
    and acyclic: "ranked st depth" and run: "sys_run c st ls s"
    and ended: "sys_main s = MainDone" "\<not> sys_interrupted s"
    and finish: "run_build_end (re_host env) c with_summary dirs (ts_images (sys_ts s)) root1 = (Inr ss, root2)"
  shows "cmd_main (Inr (Some ss)) =
      Inr (if \<exists>i < length st. status_at st i = MATCHED \<and> status_at (ts_images (sys_ts s)) i \<noteq> BUILT \<and>
             img_name (st ! i) \<notin> set (conf_allowed_to_fail c) then 1 else 0) \<and>
    (\<forall>i < length st. status_at (ts_images (sys_ts s)) i = BUILT \<longrightarrow>
       engine_called c (st ! i) (sys_ts s) \<and> (conf_push c \<longrightarrow> pushed (st ! i) (sys_ts s)))"
proof -
  obtain cf paths st0 client where "c = builder_conf cf"
    and list: "build_image_list (list_env_of env cf root') paths = Inr st0"
    and filter: "filter_images (re_matcher env) (re_cache env) c (find_parents st0) = Some (Inr st)"
    and client: "getEngineClient (re_engine env) (conf_engine c) = Inr client"
    using start by (rule run_build_start_threads)
  note outcome = build_outcome [OF list acyclic filter known_engine_client [OF client] run ended]
  show ?thesis unfolding run_build_end_statuses [OF finish] using outcome by blast
qed

theorem exit_code_of_build_witness:
  "\<exists>st ls s. run_build_start run_world (run_tree []) = Some (Inr (ThreadsStart (builder_conf run_full) st run_dirs), run_end) \<and>
     sys_run (builder_conf run_full) st ls s \<and> sys_main s = MainDone \<and>
     cmd_main (Inr (Some (get_image_statuses (builder_conf run_full) (ts_images (sys_ts s)) no_statuses))) =
       Inr (if \<exists>i < length st. status_at st i = MATCHED \<and> status_at (ts_images (sys_ts s)) i \<noteq> BUILT \<and>
              img_name (st ! i) \<notin> set (conf_allowed_to_fail (builder_conf run_full)) then 1 else 0)"
proof -
  obtain st where st: "run_build_start run_world (run_tree []) =
      Some (Inr (ThreadsStart (builder_conf run_full) st run_dirs), run_end)" "ranked st (\<lambda>i. i)"
    using run_starts by blast
  obtain cf paths st0 client where list: "build_image_list (list_env_of run_world cf run_end) paths = Inr st0"
    and filter: "filter_images (re_matcher run_world) (re_cache run_world) (builder_conf run_full) (find_parents st0) = Some (Inr st)"
    using run_build_start_threads [OF st(1)] by blast
  have "sys_interrupted (sys_init (builder_conf run_full) st) = False" by (simp add: sys_init_def)
  then obtain ls s where run: "sys_run (builder_conf run_full) st ls s" "sys_main s = MainDone" "\<not> sys_interrupted s"
    using run_completes [OF sys_run_init filtered_forest [OF list filter] run_threads] by (auto simp: sys_init_def)
  have "run_build_end (re_host run_world) (builder_conf run_full) False run_dirs (ts_images (sys_ts s)) run_end =
      (Inr (get_image_statuses (builder_conf run_full) (ts_images (sys_ts s)) no_statuses), run_end)"
    by (simp add: run_build_end_def run_dirs_def cleanup_def p_bind_def p_then_def p_return_def)
  from exit_code_of_build [OF st(1) st(2) run this] st(1) run show ?thesis by blast
qed

end
